(* ===== verification/Lexe_Prelude.thy ===== *)
theory Lexe_Prelude
  imports Main "HOL-Library.Word"
begin

text \<open>
  Shared vocabulary of the development: machine-integer and byte-string type synonyms, Rust's
  \<^verbatim>\<open>Ordering\<close> and lexicographic comparison, \<^verbatim>\<open>ensure!\<close> and \<^verbatim>\<open>?\<close> as combinators on sums, and the
  generic lemmas the components use.  It also states the two contracts that several data types
  of \<^verbatim>\<open>common::ln\<close> share: \<^verbatim>\<open>FromStr\<close>/\<^verbatim>\<open>Display\<close> round trips and agreement of a type's own order
  with the order of its printed form.
\<close>

section \<open>Types\<close>

type_synonym u8 = "8 word"
type_synonym u32 = "32 word"
type_synonym u64 = "64 word"
type_synonym bytes = "u8 list"

named_theorems result_simps \<open>unfolding rules for the error combinators\<close>
named_theorems cmp_simps \<open>rules for lexicographic comparison\<close>

section \<open>Errors as values\<close>

text \<open>\<open>ensure c e k\<close> is \<^verbatim>\<open>ensure!(c, e); k\<close> and \<open>and_then r k\<close> is \<^verbatim>\<open>let x = r?; k(x)\<close>.\<close>

definition ensure :: "bool \<Rightarrow> 'e \<Rightarrow> ('e + 'a) \<Rightarrow> ('e + 'a)" where
  "ensure c e k = (if c then k else Inl e)"

definition and_then :: "('e + 'a) \<Rightarrow> ('a \<Rightarrow> 'e + 'b) \<Rightarrow> ('e + 'b)" where
  "and_then r k = (case r of Inl e \<Rightarrow> Inl e | Inr x \<Rightarrow> k x)"

definition map_ok :: "('a \<Rightarrow> 'b) \<Rightarrow> ('e + 'a) \<Rightarrow> ('e + 'b)" where
  "map_ok f r = (case r of Inl e \<Rightarrow> Inl e | Inr x \<Rightarrow> Inr (f x))"

definition map_err :: "('e \<Rightarrow> 'f) \<Rightarrow> ('e + 'a) \<Rightarrow> ('f + 'a)" where
  "map_err f r = (case r of Inl e \<Rightarrow> Inl (f e) | Inr x \<Rightarrow> Inr x)"

definition ok_or :: "'e \<Rightarrow> 'a option \<Rightarrow> ('e + 'a)" where
  "ok_or e x = (case x of None \<Rightarrow> Inl e | Some y \<Rightarrow> Inr y)"

definition is_ok :: "('e + 'a) \<Rightarrow> bool" where
  "is_ok r = (case r of Inl _ \<Rightarrow> False | Inr _ \<Rightarrow> True)"

text \<open>\<^verbatim>\<open>iter.collect::<Result<Vec<_>, _>>()\<close>: the first error, or all the values.\<close>

fun collect_results :: "('e + 'a) list \<Rightarrow> ('e + 'a list)" where
  "collect_results [] = Inr []"
| "collect_results (r # rs) = and_then r (\<lambda>x. map_ok (Cons x) (collect_results rs))"

lemma ensure_Inr [simp, result_simps]: "ensure c e k = Inr x \<longleftrightarrow> c \<and> k = Inr x"
  by (simp add: ensure_def)

lemma ensure_Inl [result_simps]: "ensure c e k = Inl e' \<longleftrightarrow> (\<not> c \<and> e = e') \<or> (c \<and> k = Inl e')"
  by (auto simp: ensure_def)

lemma ensure_True [simp]: "ensure True e k = k"
  by (simp add: ensure_def)

lemma ensure_False [simp]: "ensure False e k = Inl e"
  by (simp add: ensure_def)

lemma and_then_simps [simp]: "and_then (Inr x) k = k x" "and_then (Inl e) k = Inl e"
  by (simp_all add: and_then_def)

lemma and_then_Inr [result_simps]: "and_then r k = Inr y \<longleftrightarrow> (\<exists>x. r = Inr x \<and> k x = Inr y)"
  by (cases r) simp_all

lemma and_then_Inl [result_simps]:
  "and_then r k = Inl e \<longleftrightarrow> r = Inl e \<or> (\<exists>x. r = Inr x \<and> k x = Inl e)"
  by (cases r) simp_all

lemma map_ok_simps [simp]: "map_ok f (Inr x) = Inr (f x)" "map_ok f (Inl e) = Inl e"
  by (simp_all add: map_ok_def)

lemma map_ok_Inr [result_simps]: "map_ok f r = Inr y \<longleftrightarrow> (\<exists>x. r = Inr x \<and> y = f x)"
  by (cases r) auto

lemma map_ok_Inl [result_simps]: "map_ok f r = Inl e \<longleftrightarrow> r = Inl e"
  by (cases r) auto

lemma map_err_simps [simp]: "map_err f (Inr x) = Inr x" "map_err f (Inl e) = Inl (f e)"
  by (simp_all add: map_err_def)

lemma map_err_Inr [result_simps]: "map_err f r = Inr y \<longleftrightarrow> r = Inr y"
  by (cases r) auto

lemma ok_or_simps [simp]: "ok_or e None = Inl e" "ok_or e (Some x) = Inr x"
  by (simp_all add: ok_or_def)

lemma ok_or_Inr [result_simps]: "ok_or e x = Inr y \<longleftrightarrow> x = Some y"
  by (cases x) auto

lemma is_ok_simps [simp]: "is_ok (Inr x)" "\<not> is_ok (Inl e)"
  by (simp_all add: is_ok_def)

lemma is_ok_iff: "is_ok r \<longleftrightarrow> (\<exists>x. r = Inr x)"
  by (cases r) simp_all

lemma collect_results_map_Inr [simp]: "collect_results (map (\<lambda>x. Inr (f x)) xs) = Inr (map f xs)"
  by (induction xs) simp_all

lemma collect_results_length: "collect_results rs = Inr xs \<Longrightarrow> length xs = length rs"
  by (induction rs arbitrary: xs) (auto simp: result_simps)

lemma collect_results_set: "collect_results rs = Inr xs \<Longrightarrow> x \<in> set xs \<Longrightarrow> Inr x \<in> set rs"
  by (induction rs arbitrary: xs) (auto simp: result_simps)

lemma collect_results_ok: "collect_results rs = Inr xs \<Longrightarrow> rs = map Inr xs"
  by (induction rs arbitrary: xs) (auto simp: result_simps)

section \<open>Calls that may fail\<close>

text \<open>\<open>call_then c k\<close> is \<^verbatim>\<open>let x = c.await?; k(x)\<close> on a world state.\<close>

definition call_then ::
    "('w \<Rightarrow> ('e + 'a) \<times> 'w) \<Rightarrow> ('a \<Rightarrow> 'w \<Rightarrow> ('e + 'b) \<times> 'w) \<Rightarrow> 'w \<Rightarrow> ('e + 'b) \<times> 'w" where
  "call_then c k w = (case c w of (Inl e, w') \<Rightarrow> (Inl e, w') | (Inr x, w') \<Rightarrow> k x w')"

definition call_err :: "('e \<Rightarrow> 'f) \<Rightarrow> ('w \<Rightarrow> ('e + 'a) \<times> 'w) \<Rightarrow> 'w \<Rightarrow> ('f + 'a) \<times> 'w" where
  "call_err f c w = (case c w of (r, w') \<Rightarrow> (map_err f r, w'))"

definition call_pure :: "('e + 'a) \<Rightarrow> 'w \<Rightarrow> ('e + 'a) \<times> 'w" where
  "call_pure r w = (r, w)"

lemma call_then_cases:
  assumes "call_then f k w = (r, w')"
  obtains e where "f w = (Inl e, w')" "r = Inl e"
  | x w1 where "f w = (Inr x, w1)" "k x w1 = (r, w')"
  using assms by (auto simp: call_then_def split: prod.splits sum.splits)

section \<open>Orderings\<close>

datatype ordering = Less | Equal | Greater

definition then_cmp :: "ordering \<Rightarrow> ordering \<Rightarrow> ordering" where
  "then_cmp a b = (case a of Equal \<Rightarrow> b | _ \<Rightarrow> a)"

definition cmp_lin :: "'a::linorder \<Rightarrow> 'a \<Rightarrow> ordering" where
  "cmp_lin x y = (if x < y then Less else if x = y then Equal else Greater)"

text \<open>\<^verbatim>\<open>Iterator::cmp\<close> and \<^verbatim>\<open><[T]>::cmp\<close>: lexicographic, a proper prefix is smaller.\<close>

fun cmp_list :: "('a \<Rightarrow> 'a \<Rightarrow> ordering) \<Rightarrow> 'a list \<Rightarrow> 'a list \<Rightarrow> ordering" where
  "cmp_list c [] [] = Equal"
| "cmp_list c [] (y # ys) = Less"
| "cmp_list c (x # xs) [] = Greater"
| "cmp_list c (x # xs) (y # ys) = then_cmp (c x y) (cmp_list c xs ys)"

text \<open>\<^verbatim>\<open>str::cmp\<close> compares the UTF-8 bytes.\<close>

definition cmp_char :: "char \<Rightarrow> char \<Rightarrow> ordering" where
  "cmp_char a b = cmp_lin (of_char a :: nat) (of_char b)"

abbreviation cmp_str :: "string \<Rightarrow> string \<Rightarrow> ordering" where
  "cmp_str \<equiv> cmp_list cmp_char"

abbreviation cmp_bytes :: "bytes \<Rightarrow> bytes \<Rightarrow> ordering" where
  "cmp_bytes \<equiv> cmp_list cmp_lin"

lemma then_cmp_simps [simp]:
  "then_cmp Equal b = b" "then_cmp Less b = Less" "then_cmp Greater b = Greater"
  "then_cmp a Equal = a"
  by (simp_all add: then_cmp_def split: ordering.split)

lemma then_cmp_assoc [cmp_simps]: "then_cmp (then_cmp a b) c = then_cmp a (then_cmp b c)"
  by (cases a) simp_all

lemma then_cmp_Equal [simp]: "then_cmp a b = Equal \<longleftrightarrow> a = Equal \<and> b = Equal"
  by (cases a) simp_all

lemma cmp_lin_iff [simp]:
  "cmp_lin x y = Less \<longleftrightarrow> x < y"
  "cmp_lin x y = Equal \<longleftrightarrow> x = y"
  "cmp_lin x y = Greater \<longleftrightarrow> y < x"
  by (auto simp: cmp_lin_def)

lemma cmp_lin_refl [simp]: "cmp_lin x x = Equal"
  by simp

lemma cmp_lin_eqI:
  assumes "x < y \<longleftrightarrow> a < b" and "x = y \<longleftrightarrow> a = b"
  shows "cmp_lin x y = cmp_lin a b"
  using assms by (simp add: cmp_lin_def)

text \<open>Comparing two-digit numbers in base \<open>w\<close> digit by digit.\<close>

lemma digit_less:
  fixes q q' r r' w :: nat
  assumes "r < w" and "q < q'"
  shows "w * q + r < w * q' + r'"
proof -
  have "w * q + r < w * Suc q" using assms(1) by simp
  also have "\<dots> \<le> w * q'" using assms(2) by (intro mult_le_mono2) simp
  finally show ?thesis by simp
qed

lemma cmp_lin_digits [cmp_simps]:
  fixes q q' r r' w :: nat
  assumes "r < w" and "r' < w"
  shows "cmp_lin (w * q + r) (w * q' + r') = then_cmp (cmp_lin q q') (cmp_lin r r')"
proof (cases q q' rule: linorder_cases)
  case less
  then show ?thesis using digit_less [OF assms(1) less] by (simp add: cmp_lin_def)
next
  case equal
  then show ?thesis by (simp add: cmp_lin_def)
next
  case greater
  then have "w * q' + r' < w * q + r" by (rule digit_less [OF assms(2)])
  with greater show ?thesis by (simp add: cmp_lin_def)
qed

lemma cmp_char_refl [simp]: "cmp_char a a = Equal"
  by (simp add: cmp_char_def)

lemma cmp_list_append [cmp_simps]:
  "length a = length b \<Longrightarrow>
    cmp_list c (a @ xs) (b @ ys) = then_cmp (cmp_list c a b) (cmp_list c xs ys)"
  by (induction a b rule: list_induct2) (simp_all add: then_cmp_assoc)

lemma cmp_list_same [simp]: "(\<And>x. c x x = Equal) \<Longrightarrow> cmp_list c xs xs = Equal"
  by (induction xs) simp_all

text \<open>
  A fixed-width code that preserves the comparison of single elements preserves the comparison
  of equally long sequences.
\<close>

lemma cmp_list_concat_map:
  assumes width: "\<And>x. length (f x) = w"
    and one: "\<And>x y. cmp_list d (f x) (f y) = c x y"
  shows "length xs = length ys \<Longrightarrow>
    cmp_list d (concat (map f xs)) (concat (map f ys)) = cmp_list c xs ys"
  by (induction xs ys rule: list_induct2) (simp_all add: cmp_list_append width one)

lemma cmp_list_Equal:
  "(\<And>x y. c x y = Equal \<longleftrightarrow> x = y) \<Longrightarrow> cmp_list c xs ys = Equal \<longleftrightarrow> xs = ys"
proof (induction xs arbitrary: ys)
  case Nil
  then show ?case by (cases ys) simp_all
next
  case (Cons x xs)
  then show ?case
    by (cases ys) simp_all
qed

section \<open>Text and digits\<close>

text \<open>
  \<^verbatim>\<open>str::split(c)\<close> for an ASCII separator: always at least one piece, the pieces are the maximal
  runs without the separator.
\<close>

fun split_char :: "char \<Rightarrow> string \<Rightarrow> string list" where
  "split_char c [] = [[]]"
| "split_char c (x # xs) =
     (if x = c then [] # split_char c xs
      else case split_char c xs of [] \<Rightarrow> [[x]] | p # ps \<Rightarrow> (x # p) # ps)"

lemma split_char_not_Nil [simp]: "split_char c xs \<noteq> []"
  by (induction xs) (auto split: list.splits)

lemma split_char_free [simp]: "c \<notin> set xs \<Longrightarrow> split_char c xs = [xs]"
  by (induction xs) auto

lemma split_char_append [simp]:
  "c \<notin> set xs \<Longrightarrow> split_char c (xs @ c # ys) = xs # split_char c ys"
  by (induction xs) auto

lemma split_char_length: "length (split_char c xs) = Suc (count_list xs c)"
  by (induction xs) (auto split: list.splits)

lemma split_char_single: "split_char c s = [p] \<Longrightarrow> s = p \<and> c \<notin> set p"
  by (induction s arbitrary: p) (auto split: if_splits list.splits)

lemma split_char_pair: "split_char c s = [p, q] \<Longrightarrow> s = p @ c # q \<and> c \<notin> set q"
  by (induction s arbitrary: p) (auto split: if_splits list.splits dest: split_char_single)

section \<open>Shared contracts\<close>

text \<open>
  \<^verbatim>\<open>Display\<close> followed by \<^verbatim>\<open>FromStr\<close> gives the value back, for every value the Rust type can hold
  (\<open>valid\<close> is the representation invariant that the Rust type guarantees, for instance that an
  array has its 32 bytes).
\<close>

locale fromstr_display =
  fixes to_string :: "'a \<Rightarrow> string"
    and from_str :: "string \<Rightarrow> 'e + 'a"
    and valid :: "'a \<Rightarrow> bool"
  assumes roundtrip: "valid x \<Longrightarrow> from_str (to_string x) = Inr x"
begin

lemma to_string_inj: "valid x \<Longrightarrow> valid y \<Longrightarrow> to_string x = to_string y \<longleftrightarrow> x = y"
  using roundtrip by (metis sum.inject(2))

lemma to_string_parses: "valid x \<Longrightarrow> is_ok (from_str (to_string x))"
  by (simp add: roundtrip)

end

text \<open>
  The order of the values agrees with the byte order of their printed forms, so a database or a
  map keyed by the printed form enumerates them in the same order.
\<close>

locale ordered_display = fromstr_display to_string from_str valid
  for to_string :: "'a \<Rightarrow> string" and from_str :: "string \<Rightarrow> 'e + 'a" and valid :: "'a \<Rightarrow> bool" +
  fixes cmp :: "'a \<Rightarrow> 'a \<Rightarrow> ordering"
  assumes cmp_to_string: "valid x \<Longrightarrow> valid y \<Longrightarrow> cmp_str (to_string x) (to_string y) = cmp x y"
begin

lemma cmp_Equal_iff: "valid x \<Longrightarrow> valid y \<Longrightarrow> cmp x y = Equal \<longleftrightarrow> x = y"
proof -
  assume v: "valid x" "valid y"
  have "cmp_str (to_string x) (to_string y) = Equal \<longleftrightarrow> to_string x = to_string y"
    by (rule cmp_list_Equal) (simp add: cmp_char_def)
  with v show ?thesis by (simp add: cmp_to_string to_string_inj)
qed

end

end
