(* ===== verification/Hex.thy ===== *)
theory Hex
  imports Lexe_Prelude
begin

unbundle bit_operations_syntax

text \<open>
  \<^verbatim>\<open>common/src/hex.rs\<close>: hex encoding and decoding of byte strings, the fixed-size decoder
  \<^verbatim>\<open><[u8; N]>::from_hex\<close>, and the compile-time decoder \<^verbatim>\<open>decode_const\<close>.  The lemmas give the round
  trip in both directions, the exact set of accepted inputs, agreement of the two decoders and
  that lowercase hex preserves the byte order.
\<close>

section \<open>Model\<close>

datatype DecodeError = BadOutputLength | InvalidCharacter | OddInputLength

definition as_bytes :: "string \<Rightarrow> bytes" where
  "as_bytes s = map of_char s"

text \<open>\<^verbatim>\<open>SliceExt::as_chunks_stable::<2>\<close>: the pairs and what is left over.\<close>

fun as_chunks_stable_2 :: "'a list \<Rightarrow> ('a \<times> 'a) list \<times> 'a list" where
  "as_chunks_stable_2 (x # y # zs) = (let (cs, extra) = as_chunks_stable_2 zs in ((x, y) # cs, extra))"
| "as_chunks_stable_2 xs = ([], xs)"

definition hex_str_to_chunks :: "string \<Rightarrow> DecodeError + (u8 \<times> u8) list" where
  "hex_str_to_chunks hex =
     (let (hex_chunks, extra) = as_chunks_stable_2 (as_bytes hex)
      in if extra = [] then Inr hex_chunks else Inl OddInputLength)"

definition decode_nibble :: "u8 \<Rightarrow> DecodeError + u8" where
  "decode_nibble x =
     (if 48 \<le> x \<and> x \<le> 57 then Inr (x - 48)
      else if 97 \<le> x \<and> x \<le> 102 then Inr (x - 97 + 10)
      else if 65 \<le> x \<and> x \<le> 70 then Inr (x - 65 + 10)
      else Inl InvalidCharacter)"

text \<open>
  The loop of \<^verbatim>\<open>decode_to_slice_inner\<close> with the output buffer passed explicitly: on a bad
  character the bytes already written stay in the buffer.
\<close>

fun decode_chunks :: "(u8 \<times> u8) list \<Rightarrow> bytes \<Rightarrow> (DecodeError + unit) \<times> bytes" where
  "decode_chunks ((c_hi, c_lo) # cs) (out_i # out) =
     (case decode_nibble c_hi of
        Inl e \<Rightarrow> (Inl e, out_i # out)
      | Inr b_hi \<Rightarrow>
          (case decode_nibble c_lo of
             Inl e \<Rightarrow> (Inl e, out_i # out)
           | Inr b_lo \<Rightarrow>
               (let (r, out') = decode_chunks cs out
                in (r, (push_bit 4 b_hi OR b_lo) # out'))))"
| "decode_chunks _ out = (Inr (), out)"

definition decode_to_slice_inner ::
  "(u8 \<times> u8) list \<Rightarrow> bytes \<Rightarrow> (DecodeError + unit) \<times> bytes" where
  "decode_to_slice_inner hex_chunks out =
     (if length hex_chunks \<noteq> length out then (Inl BadOutputLength, out)
      else decode_chunks hex_chunks out)"

definition decode_to_slice :: "string \<Rightarrow> bytes \<Rightarrow> (DecodeError + unit) \<times> bytes" where
  "decode_to_slice hex out =
     (case hex_str_to_chunks hex of
        Inl e \<Rightarrow> (Inl e, out)
      | Inr hex_chunks \<Rightarrow> decode_to_slice_inner hex_chunks out)"

definition decode :: "string \<Rightarrow> DecodeError + bytes" where
  "decode hex =
     and_then (hex_str_to_chunks hex) (\<lambda>hex_chunks.
       let (r, out) = decode_to_slice_inner hex_chunks (replicate (length hex_chunks) 0)
       in map_ok (\<lambda>_. out) r)"

text \<open>\<^verbatim>\<open><[u8; N]>::from_hex\<close>.\<close>

definition from_hex_array :: "nat \<Rightarrow> string \<Rightarrow> DecodeError + bytes" where
  "from_hex_array n s =
     (let (r, out) = decode_to_slice s (replicate n 0) in map_ok (\<lambda>_. out) r)"

text \<open>
  \<^verbatim>\<open>decode_const\<close>: an indexed \<^verbatim>\<open>while\<close> loop that panics (here \<open>None\<close>) on a wrong length or a bad
  character.
\<close>

fun decode_const_loop :: "bytes \<Rightarrow> nat \<Rightarrow> nat \<Rightarrow> bytes option" where
  "decode_const_loop hex idx 0 = Some []"
| "decode_const_loop hex idx (Suc left) =
     (case (decode_nibble (hex ! (2 * idx)), decode_nibble (hex ! (2 * idx + 1))) of
        (Inr hi, Inr lo) \<Rightarrow>
          map_option (Cons (push_bit 4 hi OR lo)) (decode_const_loop hex (Suc idx) left)
      | _ \<Rightarrow> None)"

definition decode_const :: "nat \<Rightarrow> bytes \<Rightarrow> bytes option" where
  "decode_const n hex = (if length hex \<noteq> n * 2 then None else decode_const_loop hex 0 n)"

text \<open>\<^verbatim>\<open>{byte:02x}\<close> and \<^verbatim>\<open>HexDisplay\<close>; \<^verbatim>\<open>encode\<close> writes the same text into a \<^verbatim>\<open>String\<close>.\<close>

definition nibble_char :: "nat \<Rightarrow> char" where
  "nibble_char n = ''0123456789abcdef'' ! n"

definition fmt_02x :: "u8 \<Rightarrow> string" where
  "fmt_02x b = [nibble_char (unat b div 16), nibble_char (unat b mod 16)]"

definition hex_display :: "bytes \<Rightarrow> string" where
  "hex_display bs = concat (map fmt_02x bs)"

definition encode :: "bytes \<Rightarrow> string" where
  "encode bs = hex_display bs"

section \<open>Nibbles\<close>

lemma less_16_cases:
  "(nib::nat) < 16 \<Longrightarrow> nib = 0 \<or> nib = 1 \<or> nib = 2 \<or> nib = 3 \<or> nib = 4 \<or> nib = 5 \<or> nib = 6 \<or> nib = 7 \<or>
     nib = 8 \<or> nib = 9 \<or> nib = 10 \<or> nib = 11 \<or> nib = 12 \<or> nib = 13 \<or> nib = 14 \<or> nib = 15"
  by arith

lemma decode_nibble_char: "n < 16 \<Longrightarrow> decode_nibble (of_char (nibble_char n)) = Inr (of_nat n)"
  by (drule less_16_cases) (elim disjE; simp add: nibble_char_def decode_nibble_def)

lemma cmp_nibble_char:
  "m < 16 \<Longrightarrow> n < 16 \<Longrightarrow> cmp_char (nibble_char m) (nibble_char n) = cmp_lin m n"
  by (drule less_16_cases, drule less_16_cases)
     (elim disjE; simp add: nibble_char_def cmp_char_def cmp_lin_def)


lemma unat_u8 [simp]: "unat (b::u8) < 256"
  using unsigned_less [of b, where 'a = nat] by simp

lemma nibble_bounds [simp]: "unat (b::u8) div 16 < 16" "unat (b::u8) mod 16 < 16"
  by (simp_all add: less_mult_imp_div_less)

lemma nibble_join: "push_bit 4 (of_nat (unat b div 16)) OR of_nat (unat b mod 16) = (b::u8)"
proof -
  have hi: "of_nat (unat b div 16) = drop_bit 4 b"
    by (simp add: drop_bit_eq_div word_arith_nat_div)
  have lo: "of_nat (unat b mod 16) = take_bit 4 b"
    by (simp add: take_bit_eq_mod word_arith_nat_mod)
  show ?thesis
    unfolding hi lo by (rule bit_eqI) (auto simp: bit_simps)
qed

section \<open>Encoding then decoding\<close>

lemma length_fmt_02x [simp]: "length (fmt_02x b) = 2"
  by (simp add: fmt_02x_def)

lemma length_hex_display [simp]: "length (hex_display bs) = 2 * length bs"
  by (induction bs) (simp_all add: hex_display_def)

definition byte_chunk :: "u8 \<Rightarrow> u8 \<times> u8" where
  "byte_chunk b = (of_char (nibble_char (unat b div 16)), of_char (nibble_char (unat b mod 16)))"

lemma chunks_of_hex_display:
  "as_chunks_stable_2 (as_bytes (hex_display bs)) = (map byte_chunk bs, [])"
  by (induction bs) (simp_all add: hex_display_def as_bytes_def fmt_02x_def byte_chunk_def)

lemma hex_str_to_chunks_display [simp]:
  "hex_str_to_chunks (hex_display bs) = Inr (map byte_chunk bs)"
  by (simp add: hex_str_to_chunks_def chunks_of_hex_display)

lemma decode_byte_chunks:
  "length out = length bs \<Longrightarrow> decode_chunks (map byte_chunk bs) out = (Inr (), bs)"
  by (induction out bs rule: list_induct2)
     (simp_all add: byte_chunk_def decode_nibble_char nibble_join)

lemma from_hex_array_display:
  "length bs = n \<Longrightarrow> from_hex_array n (hex_display bs) = Inr bs"
  by (simp add: from_hex_array_def decode_to_slice_def decode_to_slice_inner_def decode_byte_chunks)

lemma decode_hex_display: "decode (hex_display bs) = Inr bs"
  by (simp add: decode_def decode_to_slice_inner_def decode_byte_chunks)

section \<open>Hex preserves the byte order\<close>

lemma cmp_fmt_02x: "cmp_str (fmt_02x a) (fmt_02x b) = cmp_lin a b"
proof -
  have "cmp_lin (unat a) (unat b) =
      cmp_lin (16 * (unat a div 16) + unat a mod 16) (16 * (unat b div 16) + unat b mod 16)"
    by simp
  also have "\<dots> = cmp_str (fmt_02x a) (fmt_02x b)"
    by (subst cmp_lin_digits) (simp_all add: fmt_02x_def cmp_nibble_char)
  finally show ?thesis
    by (metis cmp_lin_eqI word_less_nat_alt word_unat_eq_iff)
qed

lemma cmp_hex_display:
  "length xs = length ys \<Longrightarrow> cmp_str (hex_display xs) (hex_display ys) = cmp_bytes xs ys"
  unfolding hex_display_def by (rule cmp_list_concat_map [where w = 2]) (simp_all add: cmp_fmt_02x)

section \<open>What the decoder accepts\<close>

definition is_hex_byte :: "u8 \<Rightarrow> bool" where
  "is_hex_byte x \<longleftrightarrow> (48 \<le> x \<and> x \<le> 57) \<or> (97 \<le> x \<and> x \<le> 102) \<or> (65 \<le> x \<and> x \<le> 70)"

definition nibble_val :: "u8 \<Rightarrow> u8" where
  "nibble_val x = (if x \<le> 57 then x - 48 else if 97 \<le> x then x - 97 + 10 else x - 65 + 10)"

lemma decode_nibble_eq:
  "decode_nibble x = (if is_hex_byte x then Inr (nibble_val x) else Inl InvalidCharacter)"
  unfolding decode_nibble_def is_hex_byte_def nibble_val_def
  by (auto simp: word_le_nat_alt)

abbreviation hex_chunk :: "u8 \<times> u8 \<Rightarrow> bool" where
  "hex_chunk c \<equiv> is_hex_byte (fst c) \<and> is_hex_byte (snd c)"

abbreviation chunk_val :: "u8 \<times> u8 \<Rightarrow> u8" where
  "chunk_val c \<equiv> push_bit 4 (nibble_val (fst c)) OR nibble_val (snd c)"

lemma decode_chunks_good:
  "length cs = length out \<Longrightarrow> \<forall>c \<in> set cs. hex_chunk c \<Longrightarrow>
    decode_chunks cs out = (Inr (), map chunk_val cs)"
  by (induction cs out rule: list_induct2) (auto simp: decode_nibble_eq)

lemma fst_decode_chunks_Cons:
  "fst (decode_chunks (c # cs) (x # xs)) =
    (if hex_chunk c then fst (decode_chunks cs xs) else Inl InvalidCharacter)"
  by (cases c) (auto simp: decode_nibble_eq split: prod.splits)

lemma decode_chunks_bad:
  "length cs = length out \<Longrightarrow> \<exists>c \<in> set cs. \<not> hex_chunk c \<Longrightarrow>
    fst (decode_chunks cs out) = Inl InvalidCharacter"
  by (induction cs out rule: list_induct2)
     (auto simp: fst_decode_chunks_Cons simp del: decode_chunks.simps)

lemma as_chunks_stable_2_set:
  "as_chunks_stable_2 xs = (cs, []) \<Longrightarrow>
    (\<forall>c \<in> set cs. P (fst c) \<and> P (snd c)) \<longleftrightarrow> (\<forall>x \<in> set xs. P x)"
  by (induction xs arbitrary: cs rule: as_chunks_stable_2.induct) (auto split: prod.splits)

lemma as_chunks_stable_2_extra: "snd (as_chunks_stable_2 xs) = [] \<longleftrightarrow> even (length xs)"
  by (induction xs rule: as_chunks_stable_2.induct) (auto split: prod.splits)

lemma as_chunks_stable_2_length: "length (fst (as_chunks_stable_2 xs)) = length xs div 2"
  by (induction xs rule: as_chunks_stable_2.induct) (auto split: prod.splits)

lemma as_chunks_stable_2_even:
  "even (length xs) \<Longrightarrow> as_chunks_stable_2 xs = (fst (as_chunks_stable_2 xs), [])"
  using as_chunks_stable_2_extra by (metis prod.collapse)

definition hex_bytes :: "bytes \<Rightarrow> bytes" where
  "hex_bytes xs = map chunk_val (fst (as_chunks_stable_2 xs))"

lemma length_as_bytes [simp]: "length (as_bytes s) = length s"
  by (simp add: as_bytes_def)

lemma decode_to_slice_inner_eq:
  assumes "even (length xs)" and "length xs = 2 * length out"
  shows "fst (decode_to_slice_inner (fst (as_chunks_stable_2 xs)) out) =
      (if \<forall>x \<in> set xs. is_hex_byte x then Inr () else Inl InvalidCharacter)"
    and "\<forall>x \<in> set xs. is_hex_byte x \<Longrightarrow>
      decode_to_slice_inner (fst (as_chunks_stable_2 xs)) out = (Inr (), hex_bytes xs)"
proof -
  let ?cs = "fst (as_chunks_stable_2 xs)"
  have len: "length ?cs = length out"
    using assms by (simp add: as_chunks_stable_2_length)
  have hex: "(\<forall>c \<in> set ?cs. hex_chunk c) \<longleftrightarrow> (\<forall>x \<in> set xs. is_hex_byte x)"
    by (rule as_chunks_stable_2_set) (rule as_chunks_stable_2_even [OF assms(1)])
  show 2: "decode_to_slice_inner ?cs out = (Inr (), hex_bytes xs)"
    if "\<forall>x \<in> set xs. is_hex_byte x"
    using decode_chunks_good [OF len] that hex
    by (simp add: decode_to_slice_inner_def len hex_bytes_def)
  show "fst (decode_to_slice_inner ?cs out) =
      (if \<forall>x \<in> set xs. is_hex_byte x then Inr () else Inl InvalidCharacter)"
    using 2 hex decode_chunks_bad [OF len] by (auto simp: decode_to_slice_inner_def len)
qed

lemma hex_str_to_chunks_eq:
  "hex_str_to_chunks s =
    (if even (length s) then Inr (fst (as_chunks_stable_2 (as_bytes s))) else Inl OddInputLength)"
  using as_chunks_stable_2_extra [of "as_bytes s"]
  by (auto simp: hex_str_to_chunks_def split: prod.splits)

text \<open>Both decoders in closed form.\<close>

lemma decode_eq:
  "decode s =
    (if odd (length s) then Inl OddInputLength
     else if \<forall>x \<in> set (as_bytes s). is_hex_byte x then Inr (hex_bytes (as_bytes s))
     else Inl InvalidCharacter)"
  using decode_to_slice_inner_eq [of "as_bytes s" "replicate (length s div 2) 0"]
  by (auto simp: decode_def hex_str_to_chunks_eq as_chunks_stable_2_length split: prod.splits)

lemma from_hex_array_eq:
  "from_hex_array n s =
    (if odd (length s) then Inl OddInputLength
     else if length s \<noteq> 2 * n then Inl BadOutputLength
     else if \<forall>x \<in> set (as_bytes s). is_hex_byte x then Inr (hex_bytes (as_bytes s))
     else Inl InvalidCharacter)"
  using decode_to_slice_inner_eq [of "as_bytes s" "replicate n 0"]
  by (auto simp: from_hex_array_def decode_to_slice_def hex_str_to_chunks_eq
      as_chunks_stable_2_length decode_to_slice_inner_def split: prod.splits)

lemma length_hex_bytes [simp]: "length (hex_bytes xs) = length xs div 2"
  by (simp add: hex_bytes_def as_chunks_stable_2_length)

lemma from_hex_array_length: "from_hex_array n s = Inr bs \<Longrightarrow> length bs = n"
  by (auto simp: from_hex_array_eq split: if_splits)

section \<open>The compile-time decoder\<close>

lemma hex_bytes_Cons2:
  "hex_bytes (x # y # zs) = (push_bit 4 (nibble_val x) OR nibble_val y) # hex_bytes zs"
  by (simp add: hex_bytes_def split: prod.splits)

lemma hex_bytes_Nil [simp]: "hex_bytes [] = []"
  by (simp add: hex_bytes_def)

lemma decode_const_loop_eq:
  "length hex = 2 * idx + 2 * left \<Longrightarrow>
    decode_const_loop hex idx left =
      (if \<forall>x \<in> set (drop (2 * idx) hex). is_hex_byte x then Some (hex_bytes (drop (2 * idx) hex))
       else None)"
proof (induction left arbitrary: idx)
  case 0
  then show ?case by simp
next
  case (Suc left)
  have step: "drop (2 * idx) hex = hex ! (2 * idx) # hex ! (2 * idx + 1) # drop (2 * Suc idx) hex"
    using Suc.prems by (simp add: Cons_nth_drop_Suc)
  show ?case
    using Suc.IH [of "Suc idx"] Suc.prems
    by (auto simp: step hex_bytes_Cons2 decode_nibble_eq)
qed

lemma decode_const_eq:
  "decode_const n (as_bytes s) =
    (if length s = 2 * n \<and> (\<forall>x \<in> set (as_bytes s). is_hex_byte x)
     then Some (hex_bytes (as_bytes s)) else None)"
  by (auto simp: decode_const_def decode_const_loop_eq)

section \<open>Decoding then encoding\<close>

text \<open>\<^verbatim>\<open>str::to_ascii_lowercase\<close>.\<close>

definition to_ascii_lowercase :: "string \<Rightarrow> string" where
  "to_ascii_lowercase s =
     map (\<lambda>c. if 65 \<le> (of_char c :: nat) \<and> (of_char c :: nat) \<le> 90
               then char_of ((of_char c :: nat) + 32) else c) s"

lemma of_char_u8: "(of_char c :: u8) = of_nat (of_char c)"
  by (simp add: of_char_def horner_sum_of_bool_2_less)

lemma unat_of_char: "unat (of_char c :: u8) = of_char c"
  by (simp add: of_char_u8 unsigned_of_nat take_bit_eq_mod)

definition hex_codes :: "nat list" where
  "hex_codes = [48,49,50,51,52,53,54,55,56,57,65,66,67,68,69,70,97,98,99,100,101,102]"

lemma hex_codes_nibbles:
  "map (\<lambda>n. unat (nibble_val (of_nat n))) hex_codes =
    [0,1,2,3,4,5,6,7,8,9,10,11,12,13,14,15,10,11,12,13,14,15]"
  by (simp add: hex_codes_def nibble_val_def)

lemma hex_codes_chars:
  "map (\<lambda>n. hd (to_ascii_lowercase [char_of n])) hex_codes =
    map nibble_char [0,1,2,3,4,5,6,7,8,9,10,11,12,13,14,15,10,11,12,13,14,15]"
  by (simp add: hex_codes_def to_ascii_lowercase_def nibble_char_def char_of_def bit_simps)

lemma hex_codes_lower:
  assumes "n \<in> set hex_codes"
  shows "nibble_char (unat (nibble_val (of_nat n))) = hd (to_ascii_lowercase [char_of n])"
    and "unat (nibble_val (of_nat n)) < 16"
proof -
  have "map (\<lambda>n. nibble_char (unat (nibble_val (of_nat n)))) hex_codes =
      map (\<lambda>n. hd (to_ascii_lowercase [char_of n])) hex_codes"
    unfolding hex_codes_chars hex_codes_nibbles [symmetric] by simp
  with assms show "nibble_char (unat (nibble_val (of_nat n))) = hd (to_ascii_lowercase [char_of n])"
    by simp
  have "unat (nibble_val (of_nat n)) \<in> set (map (\<lambda>n. unat (nibble_val (of_nat n))) hex_codes)"
    using assms by simp
  then show "unat (nibble_val (of_nat n)) < 16"
    unfolding hex_codes_nibbles by auto
qed

lemma is_hex_byte_codes: "is_hex_byte (of_char c) \<longleftrightarrow> of_char c \<in> set hex_codes"
  unfolding is_hex_byte_def word_le_nat_alt unat_of_char hex_codes_def
  by simp arith

lemma hex_char_lower:
  assumes "is_hex_byte (of_char c)"
  shows "nibble_char (unat (nibble_val (of_char c))) # to_ascii_lowercase cs =
      to_ascii_lowercase (c # cs)"
    and "unat (nibble_val (of_char c)) < 16"
proof -
  from assms have "of_char c \<in> set hex_codes" by (simp add: is_hex_byte_codes)
  from hex_codes_lower [OF this]
  show "nibble_char (unat (nibble_val (of_char c))) # to_ascii_lowercase cs =
      to_ascii_lowercase (c # cs)"
    and "unat (nibble_val (of_char c)) < 16"
    by (simp_all add: of_char_u8 to_ascii_lowercase_def)
qed

lemma unat_nibble_join:
  assumes "unat h < 16" and "unat l < 16"
  shows "unat (push_bit 4 h OR l :: u8) = 16 * unat h + unat l"
proof -
  have "push_bit 4 h AND l = 0"
  proof (rule bit_eqI)
    fix n assume "possible_bit TYPE(8 word) n"
    have "take_bit 4 l = l"
      using assms(2) by (simp add: word_unat_eq_iff unsigned_take_bit_eq take_bit_nat_eq_self)
    then have "\<not> bit l n" if "4 \<le> n"
      using that by (metis bit_take_bit_iff not_less)
    then show "bit (push_bit 4 h AND l) n = bit 0 n"
      by (auto simp: bit_simps)
  qed
  then have "push_bit 4 h OR l = push_bit 4 h + l"
    by (simp add: disjunctive_add_eq_or)
  also have "unat \<dots> = 16 * unat h + unat l"
    using assms by (simp add: push_bit_eq_mult unat_word_ariths)
  finally show ?thesis .
qed

lemma hex_display_hex_bytes:
  "even (length s) \<Longrightarrow> \<forall>x \<in> set (as_bytes s). is_hex_byte x \<Longrightarrow>
    hex_display (hex_bytes (as_bytes s)) = to_ascii_lowercase s"
proof (induction s rule: induct_list012)
  case (3 a b s)
  then have h: "is_hex_byte (of_char a)" "is_hex_byte (of_char b)"
    by (simp_all add: as_bytes_def)
  have IH: "hex_display (hex_bytes (as_bytes s)) = to_ascii_lowercase s"
    using 3 by (simp add: as_bytes_def)
  show ?case
    using IH hex_char_lower [OF h(1)] hex_char_lower [OF h(2)]
    by (simp add: as_bytes_def hex_bytes_Cons2 hex_display_def fmt_02x_def unat_nibble_join)
qed (simp_all add: hex_display_def as_bytes_def to_ascii_lowercase_def)

section \<open>Properties\<close>

text \<open>C31: decoding the hex text of any byte string gives the byte string back, and re-encoding
  whatever \<^verbatim>\<open>decode\<close> accepts gives the input in lowercase.\<close>

theorem hex_roundtrip:
  "decode (encode bs) = Inr bs \<and>
   (decode s = Inr bs' \<longrightarrow> encode bs' = to_ascii_lowercase s)"
  unfolding encode_def decode_hex_display
  by (auto simp: decode_eq hex_display_hex_bytes split: if_splits)

theorem hex_roundtrip_witness:
  "decode (encode [1, 52, 137, 0, 171, 255]) = Inr [1, 52, 137, 0, 171, 255] \<and>
   decode ''0a1B'' = Inr [10, 27] \<and> encode [10, 27] = to_ascii_lowercase ''0a1B''"
proof -
  have d: "decode ''0a1B'' = Inr [10, 27]" by code_simp
  show ?thesis
    using hex_roundtrip [of "[1, 52, 137, 0, 171, 255]" "''0a1B''" "[10, 27]"] d by blast
qed

text \<open>The compile-time decoder \<^verbatim>\<open>decode_const\<close> panics exactly where \<^verbatim>\<open><[u8; N]>::from_hex\<close>
  returns an error, and otherwise computes the same array.\<close>

theorem decode_const_agrees:
  "decode_const n (as_bytes s) =
    (case from_hex_array n s of Inl _ \<Rightarrow> None | Inr bs \<Rightarrow> Some bs)"
  by (auto simp: decode_const_eq from_hex_array_eq)

end
