(* ===== verification/Timestamp.thy ===== *)
theory Timestamp
  imports Lexe_Prelude
begin

text \<open>
  \<^verbatim>\<open>common/src/time.rs\<close>: \<^verbatim>\<open>TimestampMs\<close>, a non-negative \<^verbatim>\<open>i64\<close> of milliseconds since the epoch, its
  conversions to and from \<^verbatim>\<open>u64\<close>, \<^verbatim>\<open>Duration\<close> and \<^verbatim>\<open>SystemTime\<close>, and its textual form.  The parts of
  \<^verbatim>\<open>std\<close> it relies on (\<^verbatim>\<open>Duration\<close>, \<^verbatim>\<open>i64::from_str\<close>, decimal formatting with zero padding) are
  modelled here as well.  A panic is \<open>None\<close>.
\<close>

section \<open>Integers of the standard library\<close>

definition i64_min :: int where "i64_min = - (2 ^ 63)"
definition i64_max :: int where "i64_max = 2 ^ 63 - 1"
definition u64_max :: nat where "u64_max = 2 ^ 64 - 1"

lemma i64_max_eq: "i64_max = 9223372036854775807"
  by (simp add: i64_max_def)

lemma i64_min_eq: "i64_min = - 9223372036854775808"
  by (simp add: i64_min_def)

definition i64_try_from :: "int \<Rightarrow> int option" where
  "i64_try_from n = (if i64_min \<le> n \<and> n \<le> i64_max then Some n else None)"

subsection \<open>Decimal text\<close>

definition digit_char :: "nat \<Rightarrow> char" where
  "digit_char d = char_of (48 + d)"

definition to_digit :: "char \<Rightarrow> nat option" where
  "to_digit c = (let k = of_char c in if 48 \<le> k \<and> k \<le> 57 then Some (k - 48) else None)"

fun nat_digits :: "nat \<Rightarrow> nat list" where
  "nat_digits n = (if n < 10 then [n] else nat_digits (n div 10) @ [n mod 10])"

declare nat_digits.simps [simp del]

definition fmt_i64 :: "int \<Rightarrow> string" where
  "fmt_i64 n =
     (if n < 0 then CHR ''-'' # map digit_char (nat_digits (nat (- n)))
      else map digit_char (nat_digits (nat n)))"

text \<open>\<^verbatim>\<open>{n:0w}\<close>: the sign first, then zeros up to the width, then the digits.\<close>

definition fmt_i64_padded :: "nat \<Rightarrow> int \<Rightarrow> string" where
  "fmt_i64_padded w n =
     (let sign = (if n < 0 then [CHR ''-''] else []);
          ds = map digit_char (nat_digits (nat \<bar>n\<bar>))
      in sign @ replicate (w - length sign - length ds) (CHR ''0'') @ ds)"

datatype IntErrorKind = Empty | InvalidDigit | PosOverflow | NegOverflow

text \<open>
  The digit loop of \<^verbatim>\<open>i64::from_str_radix(_, 10)\<close>: the multiplication is computed first, but a bad
  digit is reported before its overflow; a negative number is accumulated downwards.
\<close>

fun parse_i64_digits :: "bool \<Rightarrow> int \<Rightarrow> string \<Rightarrow> IntErrorKind + int" where
  "parse_i64_digits pos acc [] = Inr acc"
| "parse_i64_digits pos acc (c # cs) =
     (case to_digit c of
        None \<Rightarrow> Inl InvalidDigit
      | Some d \<Rightarrow>
          (case i64_try_from (acc * 10) of
             None \<Rightarrow> Inl (if pos then PosOverflow else NegOverflow)
           | Some m \<Rightarrow>
               (case i64_try_from (if pos then m + int d else m - int d) of
                  None \<Rightarrow> Inl (if pos then PosOverflow else NegOverflow)
                | Some acc' \<Rightarrow> parse_i64_digits pos acc' cs)))"

definition i64_from_str :: "string \<Rightarrow> IntErrorKind + int" where
  "i64_from_str s =
     (case s of
        [] \<Rightarrow> Inl Empty
      | c # cs \<Rightarrow>
          if (c = CHR ''+'' \<or> c = CHR ''-'') \<and> cs = [] then Inl InvalidDigit
          else if c = CHR ''+'' then parse_i64_digits True 0 cs
          else if c = CHR ''-'' then parse_i64_digits False 0 cs
          else parse_i64_digits True 0 s)"

subsection \<open>Durations and system time\<close>

record Duration =
  secs :: nat
  nanos :: nat

definition duration_valid :: "Duration \<Rightarrow> bool" where
  "duration_valid d \<longleftrightarrow> secs d \<le> u64_max \<and> nanos d < 10 ^ 9"

definition duration_from_millis :: "nat \<Rightarrow> Duration" where
  "duration_from_millis ms = \<lparr>secs = ms div 1000, nanos = ms mod 1000 * 10 ^ 6\<rparr>"

definition as_millis :: "Duration \<Rightarrow> nat" where
  "as_millis d = secs d * 1000 + nanos d div 10 ^ 6"

text \<open>
  A \<^verbatim>\<open>SystemTime\<close> is its signed distance from \<^verbatim>\<open>UNIX_EPOCH\<close> in nanoseconds; adding a duration panics
  when the seconds leave the range of \<^verbatim>\<open>i64\<close>.
\<close>

type_synonym SystemTime = int

definition duration_since_epoch :: "SystemTime \<Rightarrow> unit + Duration" where
  "duration_since_epoch t =
     (if t < 0 then Inl ()
      else Inr \<lparr>secs = nat (t div 10 ^ 9), nanos = nat (t mod 10 ^ 9)\<rparr>)"

definition epoch_plus :: "Duration \<Rightarrow> SystemTime option" where
  "epoch_plus d =
     (if int (secs d) \<le> i64_max then Some (int (secs d) * 10 ^ 9 + int (nanos d)) else None)"

section \<open>TimestampMs\<close>

datatype TimestampMs = TimestampMs (as_i64: int)

datatype TimestampError = Negative | TooLarge | BeforeEpoch | Parse IntErrorKind

text \<open>The invariant the type documents: a non-negative \<^verbatim>\<open>i64\<close>.\<close>

definition timestamp_valid :: "TimestampMs \<Rightarrow> bool" where
  "timestamp_valid t \<longleftrightarrow> 0 \<le> as_i64 t \<and> as_i64 t \<le> i64_max"

definition timestamp_min :: TimestampMs where "timestamp_min = TimestampMs 0"
definition timestamp_max :: TimestampMs where "timestamp_max = TimestampMs i64_max"

definition into_u64 :: "TimestampMs \<Rightarrow> nat option" where
  "into_u64 t = (if 0 \<le> as_i64 t then Some (nat (as_i64 t)) else None)"

definition into_duration :: "TimestampMs \<Rightarrow> Duration option" where
  "into_duration t = map_option duration_from_millis (into_u64 t)"

definition into_system_time :: "TimestampMs \<Rightarrow> SystemTime option" where
  "into_system_time t = Option.bind (into_duration t) epoch_plus"

definition try_from_duration :: "Duration \<Rightarrow> TimestampError + TimestampMs" where
  "try_from_duration d =
     (case i64_try_from (int (as_millis d)) of
        None \<Rightarrow> Inl TooLarge | Some n \<Rightarrow> Inr (TimestampMs n))"

definition try_from_system_time :: "SystemTime \<Rightarrow> TimestampError + TimestampMs" where
  "try_from_system_time t =
     (case duration_since_epoch t of Inl _ \<Rightarrow> Inl BeforeEpoch | Inr d \<Rightarrow> try_from_duration d)"

definition try_from_i64 :: "int \<Rightarrow> TimestampError + TimestampMs" where
  "try_from_i64 ms = (if as_i64 timestamp_min \<le> ms then Inr (TimestampMs ms) else Inl Negative)"

definition try_from_u64 :: "nat \<Rightarrow> TimestampError + TimestampMs" where
  "try_from_u64 ms = try_from_duration (duration_from_millis ms)"

definition from_u32 :: "u32 \<Rightarrow> TimestampMs" where
  "from_u32 ms = TimestampMs (uint ms)"

text \<open>\<^verbatim>\<open>TimestampMs::now()\<close> with the system clock's reading as its argument; \<^verbatim>\<open>unwrap\<close> panics.\<close>

definition timestamp_now :: "SystemTime \<Rightarrow> TimestampMs option" where
  "timestamp_now clock =
     (case try_from_system_time clock of Inl _ \<Rightarrow> None | Inr t \<Rightarrow> Some t)"

definition timestamp_from_str :: "string \<Rightarrow> TimestampError + TimestampMs" where
  "timestamp_from_str s = and_then (map_err Parse (i64_from_str s)) try_from_i64"

definition timestamp_display :: "TimestampMs \<Rightarrow> string" where
  "timestamp_display t = fmt_i64 (as_i64 t)"

text \<open>\<^verbatim>\<open>Deserialize\<close>, after the \<^verbatim>\<open>i64\<close> has been read.\<close>

definition timestamp_deserialize :: "int \<Rightarrow> TimestampError + TimestampMs" where
  "timestamp_deserialize x = try_from_i64 x"

definition timestamp_cmp :: "TimestampMs \<Rightarrow> TimestampMs \<Rightarrow> ordering" where
  "timestamp_cmp a b = cmp_lin (as_i64 a) (as_i64 b)"

section \<open>Digits and their value\<close>

fun dec_val :: "nat list \<Rightarrow> nat" where
  "dec_val [] = 0"
| "dec_val (d # ds) = 10 ^ length ds * d + dec_val ds"

lemma dec_val_less: "\<forall>d \<in> set ds. d < 10 \<Longrightarrow> dec_val ds < 10 ^ length ds"
proof (induction ds)
  case (Cons d ds)
  have "10 ^ length ds * d + dec_val ds < 10 ^ length ds * Suc d"
    using Cons by simp
  also have "\<dots> \<le> 10 ^ length ds * 10"
    using Cons.prems by (intro mult_le_mono2) simp
  finally show ?case by simp
qed simp

lemma dec_val_append: "dec_val (ds @ es) = dec_val ds * 10 ^ length es + dec_val es"
  by (induction ds) (simp_all add: power_add algebra_simps)

lemma dec_val_zeros [simp]: "dec_val (replicate k 0 @ ds) = dec_val ds"
  by (induction k) simp_all

lemma dec_val_nat_digits [simp]: "dec_val (nat_digits n) = n"
proof (induction n rule: nat_digits.induct)
  case (1 n)
  then show ?case
    by (cases "n < 10") (simp_all add: nat_digits.simps [of n] dec_val_append)
qed

lemma nat_digits_less: "d \<in> set (nat_digits n) \<Longrightarrow> d < 10"
proof (induction n rule: nat_digits.induct)
  case (1 n)
  then show ?case
    by (cases "n < 10") (auto simp: nat_digits.simps [of n])
qed

lemma nat_digits_not_Nil [simp]: "nat_digits n \<noteq> []"
  by (simp add: nat_digits.simps)

lemma length_nat_digits: "n < 10 ^ Suc k \<Longrightarrow> length (nat_digits n) \<le> Suc k"
proof (induction k arbitrary: n)
  case 0
  then show ?case by (simp add: nat_digits.simps)
next
  case (Suc k)
  then have "n div 10 < 10 ^ Suc k" by (simp add: less_mult_imp_div_less)
  with Suc.IH have "length (nat_digits (n div 10)) \<le> Suc k" by blast
  then show ?case by (simp add: nat_digits.simps [of n])
qed

lemma cmp_digits:
  "length ds = length es \<Longrightarrow> \<forall>d \<in> set ds. d < 10 \<Longrightarrow> \<forall>d \<in> set es. d < 10 \<Longrightarrow>
    cmp_list cmp_lin ds es = cmp_lin (dec_val ds) (dec_val es)"
proof (induction ds es rule: list_induct2)
  case (Cons d ds e es)
  then show ?case
    using cmp_lin_digits [of "dec_val ds" "10 ^ length ds" "dec_val es" d e]
      dec_val_less [of ds] dec_val_less [of es] by simp
qed simp

lemma of_char_digit [simp]: "d < 10 \<Longrightarrow> (of_char (digit_char d) :: nat) = 48 + d"
  by (simp add: digit_char_def)

lemma to_digit_char [simp]: "d < 10 \<Longrightarrow> to_digit (digit_char d) = Some d"
  by (simp add: to_digit_def)

lemma digit_char_neq:
  assumes "d < 10"
  shows "digit_char d \<noteq> CHR ''-''" "digit_char d \<noteq> CHR ''+''" "digit_char d \<noteq> CHR ''_''"
proof -
  have "(of_char (digit_char d) :: nat) \<in> {48..57}" using assms by simp
  then show "digit_char d \<noteq> CHR ''-''" "digit_char d \<noteq> CHR ''+''" "digit_char d \<noteq> CHR ''_''"
    by (auto simp del: of_char_digit)
qed

lemma digit_char_0: "CHR ''0'' = digit_char 0"
  by (simp add: digit_char_def char_of_def bit_simps)

lemma cmp_digit_chars:
  "length ds = length es \<Longrightarrow> \<forall>d \<in> set ds. d < 10 \<Longrightarrow> \<forall>d \<in> set es. d < 10 \<Longrightarrow>
    cmp_str (map digit_char ds) (map digit_char es) = cmp_list cmp_lin ds es"
  by (induction ds es rule: list_induct2) (simp_all add: cmp_char_def cmp_lin_def)

section \<open>Reading digits back\<close>

lemma i64_try_from_nonneg: "0 \<le> n \<Longrightarrow> n \<le> i64_max \<Longrightarrow> i64_try_from n = Some n"
  by (simp add: i64_try_from_def i64_min_def)

lemma parse_i64_digits_append:
  assumes "\<forall>d \<in> set ds. d < 10" and "acc * 10 ^ length ds + dec_val ds \<le> nat i64_max"
  shows "parse_i64_digits True (int acc) (map digit_char ds) =
    Inr (int (acc * 10 ^ length ds + dec_val ds))"
  using assms
proof (induction ds arbitrary: acc)
  case (Cons d ds)
  let ?acc = "acc * 10 + d"
  have eq: "acc * 10 ^ length (d # ds) + dec_val (d # ds) = ?acc * 10 ^ length ds + dec_val ds"
    by (simp add: algebra_simps)
  have "?acc * 1 \<le> ?acc * 10 ^ length ds" by (intro mult_le_mono2) simp
  then have "?acc \<le> ?acc * 10 ^ length ds + dec_val ds" by (simp only: mult_1_right trans_le_add1)
  also have "\<dots> \<le> nat i64_max" using Cons.prems(2) unfolding eq .
  finally have le: "?acc \<le> nat i64_max" .
  then have b: "int acc * 10 + int d \<le> i64_max" by (simp add: i64_max_def)
  have IH: "parse_i64_digits True (int ?acc) (map digit_char ds) =
      Inr (int (?acc * 10 ^ length ds + dec_val ds))"
    using Cons.prems by (intro Cons.IH) (simp_all only: eq, simp_all)
  have "parse_i64_digits True (int acc) (map digit_char (d # ds)) =
      parse_i64_digits True (int ?acc) (map digit_char ds)"
    using Cons.prems(1) b by (simp add: i64_try_from_nonneg)
  with IH eq show ?case by metis
qed simp

definition padded_digits :: "nat \<Rightarrow> nat \<Rightarrow> nat list" where
  "padded_digits w n = replicate (w - length (nat_digits n)) 0 @ nat_digits n"

lemma padded_digits_less: "\<forall>d \<in> set (padded_digits w n). d < 10"
  by (auto simp: padded_digits_def dest: nat_digits_less)

lemma dec_val_padded [simp]: "dec_val (padded_digits w n) = n"
  by (simp add: padded_digits_def)

lemma fmt_i64_padded_nonneg:
  "0 \<le> n \<Longrightarrow> fmt_i64_padded w n = map digit_char (padded_digits w (nat n))"
  by (simp add: fmt_i64_padded_def padded_digits_def digit_char_0)

lemma fmt_i64_nonneg: "0 \<le> n \<Longrightarrow> fmt_i64 n = map digit_char (padded_digits 0 (nat n))"
  by (simp add: fmt_i64_def padded_digits_def)

lemma i64_from_str_digits:
  assumes "ds \<noteq> []" and "\<forall>d \<in> set ds. d < 10" and "dec_val ds \<le> nat i64_max"
  shows "i64_from_str (map digit_char ds) = Inr (int (dec_val ds))"
proof -
  obtain d es where ds: "ds = d # es" using assms(1) by (cases ds) auto
  have "i64_from_str (map digit_char ds) = parse_i64_digits True (int 0) (map digit_char ds)"
    using assms(2) unfolding ds by (simp add: i64_from_str_def digit_char_neq del: parse_i64_digits.simps)
  also have "\<dots> = Inr (int (dec_val ds))"
    using parse_i64_digits_append [of ds 0] assms by simp
  finally show ?thesis .
qed

lemma timestamp_from_str_digits:
  assumes "timestamp_valid t"
  shows "timestamp_from_str (map digit_char (padded_digits w (nat (as_i64 t)))) = Inr t"
proof -
  have "i64_from_str (map digit_char (padded_digits w (nat (as_i64 t)))) = Inr (as_i64 t)"
    using i64_from_str_digits [of "padded_digits w (nat (as_i64 t))"] assms
      padded_digits_less [of w "nat (as_i64 t)"]
    by (simp add: timestamp_valid_def nat_mono del: map_append)
       (simp add: padded_digits_def)
  then show ?thesis
    using assms by (simp add: timestamp_from_str_def try_from_i64_def timestamp_valid_def timestamp_min_def)
qed

interpretation timestamp: fromstr_display timestamp_display timestamp_from_str timestamp_valid
  by unfold_locales
     (simp add: timestamp_display_def fmt_i64_nonneg timestamp_valid_def timestamp_from_str_digits)

lemma timestamp_from_str_padded:
  "timestamp_valid t \<Longrightarrow> timestamp_from_str (fmt_i64_padded w (as_i64 t)) = Inr t"
  by (simp add: fmt_i64_padded_nonneg timestamp_from_str_digits timestamp_valid_def)

section \<open>Nineteen digits are enough\<close>

lemma length_padded_19:
  assumes "timestamp_valid t"
  shows "length (fmt_i64_padded 19 (as_i64 t)) = 19"
proof -
  have "nat (as_i64 t) < 10 ^ Suc 18"
    using assms by (auto simp: timestamp_valid_def i64_max_def)
  then have "length (nat_digits (nat (as_i64 t))) \<le> 19"
    using length_nat_digits [of _ 18] by fastforce
  with assms show ?thesis
    by (simp add: fmt_i64_padded_nonneg timestamp_valid_def padded_digits_def)
qed

lemma cmp_padded_19:
  assumes "timestamp_valid s" and "timestamp_valid t"
  shows "cmp_str (fmt_i64_padded 19 (as_i64 s)) (fmt_i64_padded 19 (as_i64 t)) = timestamp_cmp s t"
proof -
  have len: "length (padded_digits 19 (nat (as_i64 s))) = length (padded_digits 19 (nat (as_i64 t)))"
    using length_padded_19 [OF assms(1)] length_padded_19 [OF assms(2)] assms
    by (simp add: fmt_i64_padded_nonneg timestamp_valid_def)
  have "cmp_str (fmt_i64_padded 19 (as_i64 s)) (fmt_i64_padded 19 (as_i64 t)) =
      cmp_lin (nat (as_i64 s)) (nat (as_i64 t))"
    using assms padded_digits_less len
    by (simp add: fmt_i64_padded_nonneg timestamp_valid_def cmp_digit_chars cmp_digits)
  also have "\<dots> = timestamp_cmp s t"
    unfolding timestamp_cmp_def
    by (rule cmp_lin_eqI) (use assms in \<open>auto simp: timestamp_valid_def\<close>)
  finally show ?thesis .
qed

section \<open>Conversions\<close>

lemma as_millis_from_millis [simp]: "as_millis (duration_from_millis ms) = ms"
  by (simp add: as_millis_def duration_from_millis_def)

lemma from_millis_secs: "ms \<le> nat i64_max \<Longrightarrow> int (secs (duration_from_millis ms)) \<le> i64_max"
  by (simp add: duration_from_millis_def i64_max_def)

lemma try_from_valid:
  "try_from_i64 n = Inr t \<Longrightarrow> n \<le> i64_max \<Longrightarrow> timestamp_valid t"
  "try_from_duration d = Inr t \<Longrightarrow> timestamp_valid t"
  by (auto simp: try_from_i64_def try_from_duration_def timestamp_valid_def timestamp_min_def
      i64_try_from_def split: if_splits)

lemma try_from_duration_millis:
  "timestamp_valid t \<Longrightarrow> try_from_duration (duration_from_millis (nat (as_i64 t))) = Inr t"
  by (simp add: try_from_duration_def timestamp_valid_def i64_try_from_nonneg)

lemma parse_i64_digits_range:
  "parse_i64_digits pos acc s = Inr n \<Longrightarrow> i64_min \<le> acc \<Longrightarrow> acc \<le> i64_max \<Longrightarrow>
    i64_min \<le> n \<and> n \<le> i64_max"
  by (induction pos acc s rule: parse_i64_digits.induct)
     (auto simp: i64_try_from_def split: option.splits if_splits)

lemma i64_from_str_range: "i64_from_str s = Inr n \<Longrightarrow> i64_min \<le> n \<and> n \<le> i64_max"
  by (auto simp: i64_from_str_def i64_min_eq i64_max_eq simp del: parse_i64_digits.simps
      split: list.splits if_splits dest!: parse_i64_digits_range)

lemma into_system_time_eq:
  assumes "timestamp_valid t"
  shows "into_system_time t = Some (as_i64 t * 1000000)"
proof -
  let ?n = "nat (as_i64 t)"
  have v: "0 \<le> as_i64 t" "?n \<le> nat i64_max"
    using assms by (simp_all add: timestamp_valid_def nat_mono)
  have "int (?n div 1000) * 10 ^ 9 + int (?n mod 1000 * 10 ^ 6) =
      (int (?n div 1000) * 1000 + int (?n mod 1000)) * 1000000"
    by simp
  also have "\<dots> = as_i64 t * 1000000"
    using v(1) by (simp add: zdiv_int zmod_int)
  finally have eq: "int (?n div 1000) * 10 ^ 9 + int (?n mod 1000 * 10 ^ 6) = as_i64 t * 1000000" .
  show ?thesis
    using v(1) from_millis_secs [OF v(2)] eq
    by (simp add: into_system_time_def into_duration_def into_u64_def epoch_plus_def
        duration_from_millis_def)
qed

lemma try_from_system_time_millis:
  assumes "timestamp_valid t"
  shows "try_from_system_time (as_i64 t * 1000000) = Inr t"
proof -
  let ?n = "as_i64 t"
  have v: "0 \<le> ?n" "?n \<le> i64_max" using assms by (simp_all add: timestamp_valid_def)
  have q: "?n * 1000000 div 1000000000 = ?n div 1000"
    using div_mult_mult2 [of "1000000::int" ?n 1000] by simp
  have r: "?n * 1000000 mod 1000000000 = (?n mod 1000) * 1000000"
    using mult_mod_left [of ?n 1000 "1000000::int"] by simp
  have "nat (?n mod 1000 * 1000000) div 1000000 = nat (?n mod 1000)"
    by (simp add: nat_mult_distrib)
  then have "int (as_millis \<lparr>secs = nat (?n * 1000000 div 1000000000),
      nanos = nat (?n * 1000000 mod 1000000000)\<rparr>) = ?n"
    using v(1) unfolding q r by (simp add: as_millis_def pos_imp_zdiv_nonneg_iff)
  then show ?thesis
    using v by (simp add: try_from_system_time_def duration_since_epoch_def try_from_duration_def
        i64_try_from_nonneg)
qed

section \<open>Properties\<close>

text \<open>every conversion of a valid \<^verbatim>\<open>TimestampMs\<close> is panic-free and converting back gives the same
  timestamp: through \<^verbatim>\<open>i64\<close>, \<^verbatim>\<open>u64\<close>, \<^verbatim>\<open>Duration\<close> and \<^verbatim>\<open>SystemTime\<close> (so the unchecked addition in
  \<^verbatim>\<open>into_system_time\<close> is safe up to \<^verbatim>\<open>TimestampMs::MAX\<close>), and through its decimal text.\<close>

theorem timestamp_conversions_roundtrip:
  assumes "timestamp_valid t"
  shows "try_from_i64 (as_i64 t) = Inr t \<and>
    (\<exists>n. into_u64 t = Some n \<and> try_from_u64 n = Inr t) \<and>
    (\<exists>d. into_duration t = Some d \<and> try_from_duration d = Inr t) \<and>
    (\<exists>s. into_system_time t = Some s \<and> try_from_system_time s = Inr t) \<and>
    timestamp_from_str (timestamp_display t) = Inr t"
proof (intro conjI)
  show "try_from_i64 (as_i64 t) = Inr t"
    using assms by (simp add: try_from_i64_def timestamp_valid_def timestamp_min_def)
  show "\<exists>n. into_u64 t = Some n \<and> try_from_u64 n = Inr t"
    and "\<exists>d. into_duration t = Some d \<and> try_from_duration d = Inr t"
    using assms try_from_duration_millis [OF assms]
    by (simp_all add: into_u64_def into_duration_def try_from_u64_def timestamp_valid_def)
  show "\<exists>s. into_system_time t = Some s \<and> try_from_system_time s = Inr t"
    using into_system_time_eq [OF assms] try_from_system_time_millis [OF assms] by blast
  show "timestamp_from_str (timestamp_display t) = Inr t"
    using assms by (rule timestamp.roundtrip)
qed

theorem timestamp_conversions_roundtrip_witness:
  "timestamp_valid timestamp_max \<and>
   (\<exists>s. into_system_time timestamp_max = Some s \<and> try_from_system_time s = Inr timestamp_max)"
proof -
  have v: "timestamp_valid timestamp_max"
    by (simp add: timestamp_valid_def timestamp_max_def i64_max_def)
  show ?thesis using v timestamp_conversions_roundtrip [OF v] by blast
qed

text \<open>C32: no constructor of \<^verbatim>\<open>TimestampMs\<close> yields a value outside its documented range: clock
  readings, durations, \<^verbatim>\<open>u64\<close>s, \<^verbatim>\<open>u32\<close>s, deserialized \<^verbatim>\<open>i64\<close>s and parsed text either give a
  non-negative \<^verbatim>\<open>i64\<close> or are rejected.\<close>

theorem timestamp_constructors_valid:
  "(try_from_system_time clock = Inr t \<or> try_from_duration d = Inr t \<or> try_from_u64 n = Inr t \<or>
    from_u32 k = t \<or> timestamp_from_str s = Inr t \<or>
    (i64_min \<le> x \<and> x \<le> i64_max \<and> timestamp_deserialize x = Inr t))
   \<Longrightarrow> timestamp_valid t"
proof (elim disjE conjE)
  show "try_from_duration d = Inr t \<Longrightarrow> timestamp_valid t" by (rule try_from_valid)
  show "try_from_system_time clock = Inr t \<Longrightarrow> timestamp_valid t"
    by (auto simp: try_from_system_time_def split: sum.splits dest: try_from_valid)
  show "try_from_u64 n = Inr t \<Longrightarrow> timestamp_valid t"
    by (auto simp: try_from_u64_def dest: try_from_valid)
  have "uint k < 2 ^ 32" using uint_bounded [of k] by simp
  then show "from_u32 k = t \<Longrightarrow> timestamp_valid t"
    by (auto simp: timestamp_valid_def from_u32_def i64_max_def)
  show "i64_min \<le> x \<Longrightarrow> x \<le> i64_max \<Longrightarrow> timestamp_deserialize x = Inr t \<Longrightarrow> timestamp_valid t"
    by (auto simp: timestamp_deserialize_def intro: try_from_valid)
  show "timestamp_from_str s = Inr t \<Longrightarrow> timestamp_valid t"
    by (auto simp: timestamp_from_str_def result_simps dest: i64_from_str_range intro: try_from_valid)
qed

theorem timestamp_constructors_valid_witness:
  "timestamp_from_str ''+042'' = Inr (TimestampMs 42) \<and> timestamp_valid (TimestampMs 42) \<and>
   timestamp_from_str ''-1'' = Inl Negative"
proof -
  have p: "timestamp_from_str ''+042'' = Inr (TimestampMs 42)" by code_simp
  have n: "timestamp_from_str ''-1'' = Inl Negative" by code_simp
  show ?thesis using timestamp_constructors_valid [where t = "TimestampMs 42"] p n by blast
qed

end
