(* ===== verification/Payment_Ids.thy ===== *)
theory Payment_Ids
  imports Hex Timestamp
begin

text \<open>
  The identifiers of \<^verbatim>\<open>common/src/ln/payments.rs\<close> and \<^verbatim>\<open>common/src/ln/hashes.rs\<close>: the 32-byte newtypes,
  \<^verbatim>\<open>LxTxid\<close>, \<^verbatim>\<open>LxPaymentId\<close> and \<^verbatim>\<open>PaymentIndex\<close>, with their textual forms and orders.  Formatting and
  parsing of a bare \<^verbatim>\<open>bitcoin::Txid\<close> belong to the \<^verbatim>\<open>bitcoin\<close> crate and are the parameter \<open>lib\<close>; the
  locale \<open>bitcoin_txid\<close> states its documented behaviour (bytes printed in reverse order).
\<close>

section \<open>Newtypes\<close>

datatype ClientPaymentId = ClientPaymentId (cid_bytes: bytes)
datatype LxPaymentHash = LxPaymentHash (hash_bytes: bytes)
datatype LxPaymentPreimage = LxPaymentPreimage (preimage_bytes: bytes)
datatype LxPaymentSecret = LxPaymentSecret (secret_bytes: bytes)
datatype LxTxid = LxTxid (txid_bytes: bytes)

text \<open>A Rust \<^verbatim>\<open>[u8; 32]\<close> always has 32 bytes.\<close>

definition cid_valid :: "ClientPaymentId \<Rightarrow> bool" where
  "cid_valid c \<longleftrightarrow> length (cid_bytes c) = 32"

definition hash_valid :: "LxPaymentHash \<Rightarrow> bool" where
  "hash_valid h \<longleftrightarrow> length (hash_bytes h) = 32"

definition preimage_valid :: "LxPaymentPreimage \<Rightarrow> bool" where
  "preimage_valid p \<longleftrightarrow> length (preimage_bytes p) = 32"

definition secret_valid :: "LxPaymentSecret \<Rightarrow> bool" where
  "secret_valid s \<longleftrightarrow> length (secret_bytes s) = 32"

definition txid_valid :: "LxTxid \<Rightarrow> bool" where
  "txid_valid t \<longleftrightarrow> length (txid_bytes t) = 32"

definition cid_from_str :: "string \<Rightarrow> DecodeError + ClientPaymentId" where
  "cid_from_str s = map_ok ClientPaymentId (from_hex_array 32 s)"

definition hash_from_str :: "string \<Rightarrow> DecodeError + LxPaymentHash" where
  "hash_from_str s = map_ok LxPaymentHash (from_hex_array 32 s)"

definition preimage_from_str :: "string \<Rightarrow> DecodeError + LxPaymentPreimage" where
  "preimage_from_str s = map_ok LxPaymentPreimage (from_hex_array 32 s)"

definition secret_from_str :: "string \<Rightarrow> DecodeError + LxPaymentSecret" where
  "secret_from_str s = map_ok LxPaymentSecret (from_hex_array 32 s)"

definition cid_display :: "ClientPaymentId \<Rightarrow> string" where
  "cid_display c = hex_display (cid_bytes c)"

definition hash_display :: "LxPaymentHash \<Rightarrow> string" where
  "hash_display h = hex_display (hash_bytes h)"

definition preimage_display :: "LxPaymentPreimage \<Rightarrow> string" where
  "preimage_display p = hex_display (preimage_bytes p)"

definition secret_display :: "LxPaymentSecret \<Rightarrow> string" where
  "secret_display s = hex_display (secret_bytes s)"

text \<open>\<^verbatim>\<open>LxPaymentPreimage::compute_hash\<close>, with SHA-256 (from \<^verbatim>\<open>bitcoin_hashes\<close>) as a parameter.\<close>

definition compute_hash :: "(bytes \<Rightarrow> bytes) \<Rightarrow> LxPaymentPreimage \<Rightarrow> LxPaymentHash" where
  "compute_hash sha256 p = LxPaymentHash (sha256 (preimage_bytes p))"

section \<open>LxTxid\<close>

record txid_lib =
  lib_txid_fmt :: "bytes \<Rightarrow> string"
  lib_txid_from_str :: "string \<Rightarrow> string + bytes"

definition txid_display :: "txid_lib \<Rightarrow> LxTxid \<Rightarrow> string" where
  "txid_display lib t = lib_txid_fmt lib (txid_bytes t)"

definition txid_from_str :: "txid_lib \<Rightarrow> string \<Rightarrow> string + LxTxid" where
  "txid_from_str lib s = map_ok LxTxid (lib_txid_from_str lib s)"

text \<open>\<^verbatim>\<open>self.0.iter().rev().cmp(other.0.iter().rev())\<close>.\<close>

definition txid_cmp :: "LxTxid \<Rightarrow> LxTxid \<Rightarrow> ordering" where
  "txid_cmp a b = cmp_bytes (rev (txid_bytes a)) (rev (txid_bytes b))"

text \<open>Derived \<^verbatim>\<open>Ord\<close> of the byte-array newtypes.\<close>

definition cid_cmp :: "ClientPaymentId \<Rightarrow> ClientPaymentId \<Rightarrow> ordering" where
  "cid_cmp a b = cmp_bytes (cid_bytes a) (cid_bytes b)"

definition hash_cmp :: "LxPaymentHash \<Rightarrow> LxPaymentHash \<Rightarrow> ordering" where
  "hash_cmp a b = cmp_bytes (hash_bytes a) (hash_bytes b)"

section \<open>LxPaymentId\<close>

datatype LxPaymentId =
    OnchainSend ClientPaymentId
  | OnchainRecv LxTxid
  | Lightning LxPaymentHash

fun prefix :: "LxPaymentId \<Rightarrow> string" where
  "prefix (OnchainSend _) = ''os''"
| "prefix (OnchainRecv _) = ''or''"
| "prefix (Lightning _) = ''ln''"

fun id_display :: "txid_lib \<Rightarrow> LxPaymentId \<Rightarrow> string" where
  "id_display lib (OnchainSend client_id) =
     prefix (OnchainSend client_id) @ CHR ''_'' # cid_display client_id"
| "id_display lib (OnchainRecv txid) =
     prefix (OnchainRecv txid) @ CHR ''_'' # txid_display lib txid"
| "id_display lib (Lightning hash) =
     prefix (Lightning hash) @ CHR ''_'' # hash_display hash"

datatype IdError =
    MissingKind | MissingId | WrongIdFormat | UnknownKind
  | InvalidClientPaymentId DecodeError | InvalidTxid string | InvalidPaymentHash DecodeError

text \<open>
  \<^verbatim>\<open>parts.next()\<close> three times on the pieces of \<^verbatim>\<open>split('_')\<close>, then the match on the kind.
\<close>

definition id_from_str :: "txid_lib \<Rightarrow> string \<Rightarrow> IdError + LxPaymentId" where
  "id_from_str lib s =
     (case split_char (CHR ''_'') s of
        [] \<Rightarrow> Inl MissingKind
      | [_] \<Rightarrow> Inl MissingId
      | kind_str # id_str # rest \<Rightarrow>
          ensure (rest = []) WrongIdFormat
            (if kind_str = ''os'' then
               map_err InvalidClientPaymentId (map_ok OnchainSend (cid_from_str id_str))
             else if kind_str = ''or'' then
               map_err InvalidTxid (map_ok OnchainRecv (txid_from_str lib id_str))
             else if kind_str = ''ln'' then
               map_err InvalidPaymentHash (map_ok Lightning (hash_from_str id_str))
             else Inl UnknownKind))"

fun id_cmp :: "LxPaymentId \<Rightarrow> LxPaymentId \<Rightarrow> ordering" where
  "id_cmp (OnchainSend a) (OnchainSend b) = cid_cmp a b"
| "id_cmp (OnchainRecv a) (OnchainRecv b) = txid_cmp a b"
| "id_cmp (Lightning a) (Lightning b) = hash_cmp a b"
| "id_cmp s t = cmp_str (prefix s) (prefix t)"

fun id_valid :: "LxPaymentId \<Rightarrow> bool" where
  "id_valid (OnchainSend c) = cid_valid c"
| "id_valid (OnchainRecv t) = txid_valid t"
| "id_valid (Lightning h) = hash_valid h"

definition id_from_hash :: "LxPaymentHash \<Rightarrow> LxPaymentId" where
  "id_from_hash hash = Lightning hash"

datatype IdConversionError = NotOnchainSend | NotLightning

fun cid_try_from_id :: "LxPaymentId \<Rightarrow> IdConversionError + ClientPaymentId" where
  "cid_try_from_id (OnchainSend cid) = Inr cid"
| "cid_try_from_id _ = Inl NotOnchainSend"

fun hash_try_from_id :: "LxPaymentId \<Rightarrow> IdConversionError + LxPaymentHash" where
  "hash_try_from_id (Lightning hash) = Inr hash"
| "hash_try_from_id _ = Inl NotLightning"

section \<open>PaymentIndex\<close>

record PaymentIndex =
  index_created_at :: TimestampMs
  index_id :: LxPaymentId

definition index_display :: "txid_lib \<Rightarrow> PaymentIndex \<Rightarrow> string" where
  "index_display lib i =
     fmt_i64_padded 19 (as_i64 (index_created_at i)) @ CHR ''-'' # id_display lib (index_id i)"

datatype IndexError =
  MissingCreatedAt | MissingIndexId | WrongIndexFormat
  | InvalidTimestamp TimestampError | InvalidPaymentId IdError

definition index_from_str :: "txid_lib \<Rightarrow> string \<Rightarrow> IndexError + PaymentIndex" where
  "index_from_str lib s =
     (case split_char (CHR ''-'') s of
        [] \<Rightarrow> Inl MissingCreatedAt
      | [_] \<Rightarrow> Inl MissingIndexId
      | createdat_str # id_str # rest \<Rightarrow>
          ensure (rest = []) WrongIndexFormat
            (and_then (map_err InvalidTimestamp (timestamp_from_str createdat_str)) (\<lambda>created_at.
             and_then (map_err InvalidPaymentId (id_from_str lib id_str)) (\<lambda>pid.
             Inr \<lparr>index_created_at = created_at, index_id = pid\<rparr>))))"

text \<open>Derived \<^verbatim>\<open>Ord\<close>: the fields in order.\<close>

definition index_cmp :: "PaymentIndex \<Rightarrow> PaymentIndex \<Rightarrow> ordering" where
  "index_cmp a b =
     then_cmp (timestamp_cmp (index_created_at a) (index_created_at b))
       (id_cmp (index_id a) (index_id b))"

definition index_valid :: "PaymentIndex \<Rightarrow> bool" where
  "index_valid i \<longleftrightarrow> timestamp_valid (index_created_at i) \<and> id_valid (index_id i)"

section \<open>The 32-byte newtypes\<close>

lemma nibble_char_neq: "n < 16 \<Longrightarrow> nibble_char n \<noteq> CHR ''_'' \<and> nibble_char n \<noteq> CHR ''-''"
  by (drule less_16_cases) (elim disjE; simp add: nibble_char_def)

lemma hex_display_free:
  "CHR ''_'' \<notin> set (hex_display bs)" "CHR ''-'' \<notin> set (hex_display bs)"
  using nibble_char_neq [OF nibble_bounds(1)] nibble_char_neq [OF nibble_bounds(2)]
  by (auto simp: hex_display_def fmt_02x_def) metis+

interpretation cid: ordered_display cid_display cid_from_str cid_valid cid_cmp
  by unfold_locales
     (auto simp: cid_display_def cid_from_str_def cid_valid_def cid_cmp_def
       from_hex_array_display cmp_hex_display)

interpretation payment_hash: ordered_display hash_display hash_from_str hash_valid hash_cmp
  by unfold_locales
     (auto simp: hash_display_def hash_from_str_def hash_valid_def hash_cmp_def
       from_hex_array_display cmp_hex_display)

interpretation preimage: fromstr_display preimage_display preimage_from_str preimage_valid
  by unfold_locales
     (auto simp: preimage_display_def preimage_from_str_def preimage_valid_def
       from_hex_array_display)

interpretation secret: fromstr_display secret_display secret_from_str secret_valid
  by unfold_locales
     (auto simp: secret_display_def secret_from_str_def secret_valid_def from_hex_array_display)

section \<open>Ids and indices, given the bitcoin crate's documented behaviour\<close>

locale bitcoin_txid =
  fixes lib :: txid_lib
  assumes lib_fmt: "length b = 32 \<Longrightarrow> lib_txid_fmt lib b = hex_display (rev b)"
    and lib_from_str: "length b = 32 \<Longrightarrow> lib_txid_from_str lib (hex_display (rev b)) = Inr b"
begin

lemma txid_roundtrip: "txid_valid t \<Longrightarrow> txid_from_str lib (txid_display lib t) = Inr t"
  by (simp add: txid_valid_def txid_from_str_def txid_display_def lib_fmt lib_from_str)

lemma txid_cmp_display:
  "txid_valid s \<Longrightarrow> txid_valid t \<Longrightarrow>
    cmp_str (txid_display lib s) (txid_display lib t) = txid_cmp s t"
  by (simp add: txid_valid_def txid_display_def lib_fmt txid_cmp_def cmp_hex_display)

lemma id_suffix_free:
  "id_valid i \<Longrightarrow>
    \<exists>bs. id_display lib i = prefix i @ CHR ''_'' # hex_display bs \<and> length bs = 32"
  by (cases i)
     (auto simp: cid_display_def hash_display_def txid_display_def lib_fmt txid_valid_def
       cid_valid_def hash_valid_def intro!: exI)

lemma id_roundtrip: "id_valid i \<Longrightarrow> id_from_str lib (id_display lib i) = Inr i"
  using txid_roundtrip cid.roundtrip payment_hash.roundtrip
  by (cases i)
     (auto simp: id_from_str_def cid_display_def hash_display_def txid_display_def hex_display_free
       lib_fmt txid_valid_def)

lemma id_cmp_display:
  "id_valid i \<Longrightarrow> id_valid j \<Longrightarrow> cmp_str (id_display lib i) (id_display lib j) = id_cmp i j"
  using txid_cmp_display cid.cmp_to_string payment_hash.cmp_to_string
  by (cases i; cases j) (simp_all add: cmp_char_def cmp_lin_def)

lemma id_display_free: "id_valid i \<Longrightarrow> CHR ''-'' \<notin> set (id_display lib i)"
  using id_suffix_free [of i] by (cases i) (auto simp: hex_display_free)

end

sublocale bitcoin_txid \<subseteq> txid: ordered_display "txid_display lib" "txid_from_str lib" txid_valid txid_cmp
  by unfold_locales (simp_all add: txid_roundtrip txid_cmp_display)

sublocale bitcoin_txid \<subseteq> pid: ordered_display "id_display lib" "id_from_str lib" id_valid id_cmp
  by unfold_locales (simp_all add: id_roundtrip id_cmp_display)

lemma padded_free: "timestamp_valid t \<Longrightarrow> CHR ''-'' \<notin> set (fmt_i64_padded 19 (as_i64 t))"
  using padded_digits_less [of 19 "nat (as_i64 t)"]
  by (auto simp: fmt_i64_padded_nonneg timestamp_valid_def dest!: digit_char_neq(1))

context bitcoin_txid
begin

lemma index_roundtrip:
  assumes "index_valid i"
  shows "index_from_str lib (index_display lib i) = Inr i"
proof -
  from assms have v: "timestamp_valid (index_created_at i)" "id_valid (index_id i)"
    by (simp_all add: index_valid_def)
  show ?thesis
    by (simp add: index_from_str_def index_display_def padded_free [OF v(1)]
        id_display_free [OF v(2)] timestamp_from_str_padded [OF v(1)] pid.roundtrip [OF v(2)])
qed

lemma index_cmp_display:
  assumes "index_valid i" and "index_valid j"
  shows "cmp_str (index_display lib i) (index_display lib j) = index_cmp i j"
  using assms
  by (simp add: index_display_def index_cmp_def index_valid_def cmp_list_append
      length_padded_19 cmp_padded_19 pid.cmp_to_string)

end

sublocale bitcoin_txid \<subseteq> index: ordered_display "index_display lib" "index_from_str lib" index_valid index_cmp
  by unfold_locales (simp_all add: index_roundtrip index_cmp_display)

context bitcoin_txid
begin

lemma index_cmp_same: "index_valid i \<Longrightarrow> index_valid j \<Longrightarrow> index_cmp i j = Equal \<longleftrightarrow> i = j"
  by (rule index.cmp_Equal_iff)

lemma id_display_inj: "id_valid i \<Longrightarrow> id_valid j \<Longrightarrow> id_display lib i = id_display lib j \<longleftrightarrow> i = j"
  by (rule pid.to_string_inj)

end

text \<open>The documented behaviour, written with the hex functions of this repository.\<close>

definition reverse_hex_lib :: txid_lib where
  "reverse_hex_lib =
     \<lparr>lib_txid_fmt = (\<lambda>b. hex_display (rev b)),
      lib_txid_from_str = (\<lambda>s. map_err (\<lambda>_. ''bad txid'') (map_ok rev (from_hex_array 32 s)))\<rparr>"

interpretation reverse_hex: bitcoin_txid reverse_hex_lib
  by unfold_locales (simp_all add: reverse_hex_lib_def from_hex_array_display)

section \<open>Properties\<close>

text \<open>C27: \<^verbatim>\<open>PaymentIndex\<close>es are ordered exactly as their printed forms are as byte strings, so the
  database order of the string keys is the order of creation time and then id; and two valid
  indices compare equal only if they are the same.\<close>

theorem payment_index_order:
  assumes "bitcoin_txid lib" and "index_valid i" and "index_valid j"
  shows "cmp_str (index_display lib i) (index_display lib j) = index_cmp i j \<and>
    (index_cmp i j = Equal \<longleftrightarrow> i = j) \<and>
    (as_i64 (index_created_at i) < as_i64 (index_created_at j) \<longrightarrow> index_cmp i j = Less)"
  using bitcoin_txid.index_cmp_display [OF assms] bitcoin_txid.index_cmp_same [OF assms]
  by (simp add: index_cmp_def timestamp_cmp_def) (simp add: cmp_lin_def)

definition example_index :: "int \<Rightarrow> u8 \<Rightarrow> PaymentIndex" where
  "example_index t b =
     \<lparr>index_created_at = TimestampMs t, index_id = OnchainRecv (LxTxid (replicate 32 b))\<rparr>"

lemma example_index_valid: "0 \<le> t \<Longrightarrow> t \<le> i64_max \<Longrightarrow> index_valid (example_index t b)"
  by (simp add: index_valid_def example_index_def timestamp_valid_def txid_valid_def)

theorem payment_index_order_witness:
  "bitcoin_txid reverse_hex_lib \<and> index_valid (example_index 9 255) \<and>
   index_valid (example_index 10 0) \<and>
   cmp_str (index_display reverse_hex_lib (example_index 9 255))
     (index_display reverse_hex_lib (example_index 10 0)) = Less"
proof -
  have v: "index_valid (example_index 9 255)" "index_valid (example_index 10 0)"
    by (simp_all add: example_index_valid i64_max_def)
  have "as_i64 (index_created_at (example_index 9 255)) < as_i64 (index_created_at (example_index 10 0))"
    by (simp add: example_index_def)
  then show ?thesis
    using v reverse_hex.bitcoin_txid_axioms
      payment_index_order [OF reverse_hex.bitcoin_txid_axioms v] by simp
qed

text \<open>C28: \<^verbatim>\<open>LxPaymentId\<close> and \<^verbatim>\<open>PaymentIndex\<close> survive printing and parsing, and distinct payment ids have
  distinct printed forms, so no two payments share a database key.\<close>

theorem payment_id_index_roundtrip:
  assumes "bitcoin_txid lib"
  shows "(id_valid p \<longrightarrow> id_from_str lib (id_display lib p) = Inr p) \<and>
    (index_valid i \<longrightarrow> index_from_str lib (index_display lib i) = Inr i) \<and>
    (id_valid p \<longrightarrow> id_valid q \<longrightarrow> id_display lib p = id_display lib q \<longrightarrow> p = q)"
  using bitcoin_txid.id_roundtrip [OF assms] bitcoin_txid.index_roundtrip [OF assms]
    bitcoin_txid.id_display_inj [OF assms] by blast

theorem payment_id_index_roundtrip_witness:
  "bitcoin_txid reverse_hex_lib \<and> index_valid (example_index 7 1) \<and>
   index_from_str reverse_hex_lib (index_display reverse_hex_lib (example_index 7 1)) =
     Inr (example_index 7 1)"
proof -
  have v: "index_valid (example_index 7 1)" by (simp add: example_index_valid i64_max_def)
  show ?thesis
    using v reverse_hex.bitcoin_txid_axioms
      payment_id_index_roundtrip [OF reverse_hex.bitcoin_txid_axioms] by blast
qed

text \<open>parsing a payment id is strict: the text must be one of the three known kinds, a single
  underscore and exactly 64 hex digits for a client id or payment hash; whatever is accepted is a
  valid id of that kind, and anything with a missing or extra underscore or an unknown kind is an
  error.\<close>

theorem payment_id_parse_strict:
  assumes "id_from_str lib s = Inr p"
  shows "\<exists>kind rest. s = kind @ CHR ''_'' # rest \<and> CHR ''_'' \<notin> set rest \<and> kind = prefix p \<and>
    (kind \<noteq> ''or'' \<longrightarrow> id_valid p \<and> length rest = 64 \<and> (\<forall>x \<in> set (as_bytes rest). is_hex_byte x))"
proof -
  obtain kind rest where sp: "split_char (CHR ''_'') s = [kind, rest]"
    using assms by (auto simp: id_from_str_def split: list.splits)
  note s = split_char_pair [OF sp]
  have "kind = prefix p \<and> (kind \<noteq> ''or'' \<longrightarrow> id_valid p \<and> length rest = 64 \<and>
      (\<forall>x \<in> set (as_bytes rest). is_hex_byte x))"
    using assms sp
    by (auto simp: id_from_str_def result_simps cid_from_str_def hash_from_str_def from_hex_array_eq
        cid_valid_def hash_valid_def split: if_splits)
  with s show ?thesis by blast
qed

theorem payment_id_parse_strict_witness:
  "id_from_str reverse_hex_lib (''ln_'' @ hex_display (replicate 32 171)) =
     Inr (Lightning (LxPaymentHash (replicate 32 171))) \<and>
   (\<exists>rest. ''ln_'' @ hex_display (replicate 32 171) = ''ln'' @ CHR ''_'' # rest \<and> length rest = 64)"
proof -
  let ?p = "Lightning (LxPaymentHash (replicate 32 171))"
  have "id_display reverse_hex_lib ?p = ''ln_'' @ hex_display (replicate 32 171)"
    by (simp add: hash_display_def)
  moreover have "id_valid ?p" by (simp add: hash_valid_def)
  ultimately have p: "id_from_str reverse_hex_lib (''ln_'' @ hex_display (replicate 32 171)) = Inr ?p"
    using reverse_hex.id_roundtrip by metis
  show ?thesis using payment_id_parse_strict [OF p] p by auto
qed

end
