(* ===== verification/Amounts.thy ===== *)
theory Amounts
  imports Complex_Main Lexe_Prelude
begin

text \<open>
  \<^verbatim>\<open>common/src/ln/amount.rs\<close>: \<^verbatim>\<open>Amount\<close>, a satoshi amount held in a \<^verbatim>\<open>rust_decimal::Decimal\<close>.  The
  decimal library is not part of the repository: a \<^verbatim>\<open>Decimal\<close> is its public representation (sign,
  96-bit mantissa, scale, as \<^verbatim>\<open>Decimal::from_parts\<close> takes it), its arithmetic is the parameter
  \<open>ops\<close>, and \<open>decimal_laws\<close> states what the code relies on: an operation whose exact result is
  representable returns it.  A panic (\<^verbatim>\<open>expect\<close>, or an overflowing decimal operator) is \<open>None\<close>.
\<close>

section \<open>Decimals\<close>

datatype Decimal = Decimal (is_sign_negative: bool) (mantissa: nat) (scale: nat)

definition dec_from_parts :: "nat \<Rightarrow> nat \<Rightarrow> nat \<Rightarrow> bool \<Rightarrow> nat \<Rightarrow> Decimal" where
  "dec_from_parts lo mid hi negative s = Decimal negative (lo + mid * 2 ^ 32 + hi * 2 ^ 64) s"

definition dec_value :: "Decimal \<Rightarrow> rat" where
  "dec_value d = (if is_sign_negative d then - 1 else 1) * of_nat (mantissa d) / 10 ^ scale d"

text \<open>\<^verbatim>\<open>dec!(n)\<close> for a whole number.\<close>

definition dec_lit :: "nat \<Rightarrow> Decimal" where
  "dec_lit n = Decimal False n 0"

text \<open>The numbers a \<^verbatim>\<open>Decimal\<close> can hold.\<close>

definition representable :: "rat \<Rightarrow> bool" where
  "representable r \<longleftrightarrow> (\<exists>m s. m < 2 ^ 96 \<and> s \<le> 28 \<and> \<bar>r\<bar> = of_nat m / 10 ^ s)"

record decimal_ops =
  dec_from_u64 :: "u64 \<Rightarrow> Decimal"
  dec_to_u64 :: "Decimal \<Rightarrow> u64 option"
  dec_checked_add :: "Decimal \<Rightarrow> Decimal \<Rightarrow> Decimal option"
  dec_checked_sub :: "Decimal \<Rightarrow> Decimal \<Rightarrow> Decimal option"
  dec_checked_mul :: "Decimal \<Rightarrow> Decimal \<Rightarrow> Decimal option"
  dec_checked_div :: "Decimal \<Rightarrow> Decimal \<Rightarrow> Decimal option"
  dec_round :: "Decimal \<Rightarrow> Decimal"
  dec_from_str :: "string \<Rightarrow> Decimal option"

text \<open>\<open>exact ops f r\<close>: when \<open>r\<close> is representable the operation returns it, not as a negative zero.\<close>

definition exact :: "Decimal option \<Rightarrow> rat \<Rightarrow> bool" where
  "exact res r \<longleftrightarrow> (representable r \<longrightarrow>
     (\<exists>d. res = Some d \<and> dec_value d = r \<and> (r = 0 \<longrightarrow> \<not> is_sign_negative d)))"

definition decimal_laws :: "decimal_ops \<Rightarrow> bool" where
  "decimal_laws ops \<longleftrightarrow>
     (\<forall>n. dec_value (dec_from_u64 ops n) = of_nat (unat n) \<and>
          \<not> is_sign_negative (dec_from_u64 ops n)) \<and>
     (\<forall>d n. dec_value d = of_nat (unat n) \<longrightarrow> dec_to_u64 ops d = Some n) \<and>
     (\<forall>a b. \<not> is_sign_negative a \<and> \<not> is_sign_negative b \<longrightarrow>
        exact (dec_checked_add ops a b) (dec_value a + dec_value b) \<and>
        (dec_value a \<noteq> dec_value b \<longrightarrow>
           exact (dec_checked_sub ops a b) (dec_value a - dec_value b)) \<and>
        exact (dec_checked_mul ops a b) (dec_value a * dec_value b) \<and>
        (dec_value b \<noteq> 0 \<longrightarrow> exact (dec_checked_div ops a b) (dec_value a / dec_value b)))"

section \<open>Model\<close>

datatype AmountError = Negative | TooLarge

datatype Amount = Amount (inner: Decimal)

definition amount_max :: Amount where
  "amount_max = Amount (dec_from_parts 4294967295 4294967295 0 False 3)"

definition amount_zero :: Amount where
  "amount_zero = Amount (dec_lit 0)"

definition max_bitcoin_supply :: Amount where
  "max_bitcoin_supply = Amount (dec_lit 2100000000000000)"

definition max_bitcoin_supply_msats_u64 :: u64 where
  "max_bitcoin_supply_msats_u64 = 2100000000000000000"

definition invoice_max_amount_msats_u64 :: u64 where
  "invoice_max_amount_msats_u64 = (- 1) div 10"

definition try_from_inner :: "Decimal \<Rightarrow> AmountError + Amount" where
  "try_from_inner d =
     (if is_sign_negative d then Inl Negative
      else if dec_value (inner amount_max) < dec_value d then Inl TooLarge
      else Inr (Amount d))"

definition from_msat :: "decimal_ops \<Rightarrow> u64 \<Rightarrow> Amount option" where
  "from_msat ops msats =
     map_option Amount (dec_checked_div ops (dec_from_u64 ops msats) (dec_lit 1000))"

text \<open>\<^verbatim>\<open>u64::from(sats_u32) * 1000\<close>; the product fits in 64 bits.\<close>

definition from_sats_u32 :: "decimal_ops \<Rightarrow> u32 \<Rightarrow> Amount option" where
  "from_sats_u32 ops sats = from_msat ops (ucast sats * 1000)"

definition try_from_satoshis :: "Decimal \<Rightarrow> AmountError + Amount" where
  "try_from_satoshis sats = try_from_inner sats"

definition try_from_sats_u64 :: "decimal_ops \<Rightarrow> u64 \<Rightarrow> AmountError + Amount" where
  "try_from_sats_u64 ops sats = try_from_satoshis (dec_from_u64 ops sats)"

definition try_from_btc :: "decimal_ops \<Rightarrow> Decimal \<Rightarrow> (AmountError + Amount) option" where
  "try_from_btc ops btc =
     map_option try_from_inner (dec_checked_mul ops btc (dec_lit 100000000))"

definition msat :: "decimal_ops \<Rightarrow> Amount \<Rightarrow> u64 option" where
  "msat ops a = Option.bind (dec_checked_mul ops (inner a) (dec_lit 1000)) (dec_to_u64 ops)"

definition invoice_safe_msat :: "decimal_ops \<Rightarrow> Amount \<Rightarrow> (AmountError + u64) option" where
  "invoice_safe_msat ops a =
     map_option (\<lambda>m. if m \<le> invoice_max_amount_msats_u64 then Inr m else Inl TooLarge) (msat ops a)"

definition satoshis :: "Amount \<Rightarrow> Decimal" where
  "satoshis a = inner a"

definition sats_u64 :: "decimal_ops \<Rightarrow> Amount \<Rightarrow> u64 option" where
  "sats_u64 ops a = dec_to_u64 ops (satoshis a)"

definition btc :: "decimal_ops \<Rightarrow> Amount \<Rightarrow> Decimal option" where
  "btc ops a = dec_checked_div ops (inner a) (dec_lit 100000000)"

definition round_sat :: "decimal_ops \<Rightarrow> Amount \<Rightarrow> Amount" where
  "round_sat ops a = Amount (dec_round ops (inner a))"

definition ok :: "('e + 'a) \<Rightarrow> 'a option" where
  "ok r = (case r of Inl _ \<Rightarrow> None | Inr x \<Rightarrow> Some x)"

definition amount_checked_add :: "decimal_ops \<Rightarrow> Amount \<Rightarrow> Amount \<Rightarrow> Amount option" where
  "amount_checked_add ops a b =
     Option.bind (dec_checked_add ops (inner a) (inner b)) (ok \<circ> try_from_inner)"

definition amount_checked_sub :: "decimal_ops \<Rightarrow> Amount \<Rightarrow> Amount \<Rightarrow> Amount option" where
  "amount_checked_sub ops a b =
     Option.bind (dec_checked_sub ops (inner a) (inner b)) (ok \<circ> try_from_inner)"

definition amount_checked_mul :: "decimal_ops \<Rightarrow> Amount \<Rightarrow> Decimal \<Rightarrow> Amount option" where
  "amount_checked_mul ops a k =
     Option.bind (dec_checked_mul ops (inner a) k) (ok \<circ> try_from_inner)"

definition amount_checked_div :: "decimal_ops \<Rightarrow> Amount \<Rightarrow> Decimal \<Rightarrow> Amount option" where
  "amount_checked_div ops a k =
     Option.bind (dec_checked_div ops (inner a) k) (ok \<circ> try_from_inner)"

text \<open>
  \<^verbatim>\<open>Add\<close> and \<^verbatim>\<open>Sub\<close> panic (\<open>None\<close>) where the decimal operator panics or \<^verbatim>\<open>try_from_inner\<close> rejects the
  result.
\<close>

definition amount_add :: "decimal_ops \<Rightarrow> Amount \<Rightarrow> Amount \<Rightarrow> Amount option" where
  "amount_add ops a b =
     Option.bind (dec_checked_add ops (inner a) (inner b)) (\<lambda>d. ok (try_from_inner d))"

definition amount_sub :: "decimal_ops \<Rightarrow> Amount \<Rightarrow> Amount \<Rightarrow> Amount option" where
  "amount_sub ops a b =
     Option.bind (dec_checked_sub ops (inner a) (inner b)) (\<lambda>d. ok (try_from_inner d))"

text \<open>\<^verbatim>\<open>PartialEq\<close> and \<^verbatim>\<open>PartialOrd\<close> of \<^verbatim>\<open>Decimal\<close>, and so of \<^verbatim>\<open>Amount\<close>, compare the numbers.\<close>

definition amount_eq :: "Amount \<Rightarrow> Amount \<Rightarrow> bool" where
  "amount_eq a b \<longleftrightarrow> dec_value (inner a) = dec_value (inner b)"

definition amount_less :: "Amount \<Rightarrow> Amount \<Rightarrow> bool" where
  "amount_less a b \<longleftrightarrow> dec_value (inner a) < dec_value (inner b)"

definition amount_from_str :: "decimal_ops \<Rightarrow> string \<Rightarrow> (AmountError option) + Amount" where
  "amount_from_str ops s =
     (case dec_from_str ops s of
        None \<Rightarrow> Inl None
      | Some d \<Rightarrow> map_err Some (try_from_inner d))"

definition amount_deserialize :: "Decimal \<Rightarrow> AmountError + Amount" where
  "amount_deserialize d = try_from_inner d"

text \<open>The documented invariant of \<^verbatim>\<open>Amount\<close>.\<close>

definition amount_valid :: "Amount \<Rightarrow> bool" where
  "amount_valid a \<longleftrightarrow>
     \<not> is_sign_negative (inner a) \<and> dec_value (inner a) \<le> dec_value (inner amount_max)"

section \<open>Exact decimals\<close>

named_theorems decimal_intros \<open>operations of a lawful decimal library with a representable result\<close>

lemma representable_frac: "n < 2 ^ 96 \<Longrightarrow> s \<le> 28 \<Longrightarrow> representable (of_nat n / 10 ^ s)"
  unfolding representable_def by (intro exI [of _ n] exI [of _ s]) simp

lemma representable_neg: "representable r \<Longrightarrow> representable (- r)"
  by (simp add: representable_def)

lemma representable_milli: "n < 2 ^ 96 \<Longrightarrow> representable (of_nat n / 1000)"
  using representable_frac [of n 3] by simp

lemma unat_u64_less: "unat (n::u64) < 2 ^ 64"
  using unsigned_less [of n, where 'a = nat] by simp

lemma dec_value_lit [simp]: "dec_value (dec_lit n) = of_nat n"
  by (simp add: dec_value_def dec_lit_def)

lemma sign_lit [simp]: "\<not> is_sign_negative (dec_lit n)"
  by (simp add: dec_lit_def)

lemma dec_value_nonneg: "\<not> is_sign_negative d \<Longrightarrow> 0 \<le> dec_value d"
  by (simp add: dec_value_def)

lemma sign_of_pos: "0 < dec_value d \<Longrightarrow> \<not> is_sign_negative d"
  by (auto simp: dec_value_def zero_less_mult_iff divide_less_0_iff not_less)

lemma sign_of_neg: "dec_value d < 0 \<Longrightarrow> is_sign_negative d"
  using dec_value_nonneg by fastforce

lemma exactD:
  assumes "exact res r" and "representable r" and "0 \<le> r"
  shows "\<exists>d. res = Some d \<and> dec_value d = r \<and> \<not> is_sign_negative d"
  using assms sign_of_pos unfolding exact_def by (metis order_le_less)

lemma laws_from_u64:
  assumes "decimal_laws ops"
  shows "dec_value (dec_from_u64 ops n) = of_nat (unat n)" "\<not> is_sign_negative (dec_from_u64 ops n)"
  using assms unfolding decimal_laws_def by blast+

lemma laws_to_u64:
  "decimal_laws ops \<Longrightarrow> dec_value d = of_nat (unat n) \<Longrightarrow> dec_to_u64 ops d = Some n"
  unfolding decimal_laws_def by blast

lemma laws_arith:
  assumes "decimal_laws ops" and "\<not> is_sign_negative a" and "\<not> is_sign_negative b"
  shows "exact (dec_checked_add ops a b) (dec_value a + dec_value b)"
    and "dec_value a \<noteq> dec_value b \<Longrightarrow> exact (dec_checked_sub ops a b) (dec_value a - dec_value b)"
    and "exact (dec_checked_mul ops a b) (dec_value a * dec_value b)"
    and "dec_value b \<noteq> 0 \<Longrightarrow> exact (dec_checked_div ops a b) (dec_value a / dec_value b)"
  using assms unfolding decimal_laws_def by blast+

section \<open>Millisatoshi amounts\<close>

text \<open>\<open>amount_msats a n\<close>: the amount is a valid amount of exactly \<open>n\<close> millisatoshi.\<close>

definition amount_msats :: "Amount \<Rightarrow> nat \<Rightarrow> bool" where
  "amount_msats a n \<longleftrightarrow>
     \<not> is_sign_negative (inner a) \<and> dec_value (inner a) = of_nat n / 1000 \<and> n < 2 ^ 64"

lemma amount_max_value: "dec_value (inner amount_max) = of_nat (2 ^ 64 - 1) / 1000"
  by (simp add: amount_max_def dec_from_parts_def dec_value_def)

lemma amount_msats_valid: "amount_msats a n \<Longrightarrow> amount_valid a"
proof -
  assume a: "amount_msats a n"
  then have "n \<le> 2 ^ 64 - 1" by (simp add: amount_msats_def)
  then have "of_nat n \<le> (of_nat (2 ^ 64 - 1) :: rat)" by (rule of_nat_mono)
  then show ?thesis
    using a unfolding amount_valid_def amount_max_value amount_msats_def
    by (simp add: divide_right_mono)
qed

lemma amount_msats_unique: "amount_msats a m \<Longrightarrow> amount_msats a n \<Longrightarrow> m = n"
  by (simp add: amount_msats_def)

lemma amount_msats_eq_iff:
  "amount_msats a m \<Longrightarrow> amount_msats b n \<Longrightarrow> amount_eq a b \<longleftrightarrow> m = n"
  unfolding amount_msats_def amount_eq_def
  by (auto simp: nonzero_eq_divide_eq eq_divide_eq)

lemma try_from_inner_milli:
  assumes "\<not> is_sign_negative d" and "dec_value d = of_nat n / 1000"
  shows "try_from_inner d = (if n < 2 ^ 64 then Inr (Amount d) else Inl TooLarge)"
proof -
  have "dec_value (inner amount_max) < dec_value d \<longleftrightarrow> (of_nat (2 ^ 64 - 1) :: rat) < of_nat n"
    unfolding amount_max_value assms(2) by (simp add: divide_less_cancel)
  also have "\<dots> \<longleftrightarrow> 2 ^ 64 - 1 < n" by (rule of_nat_less_iff)
  finally show ?thesis using assms(1) by (auto simp: try_from_inner_def)
qed

lemma from_msat_ok:
  assumes "decimal_laws ops"
  shows "\<exists>a. from_msat ops n = Some a \<and> amount_msats a (unat n)"
proof -
  define k where "k = unat n"
  have k: "k < 2 ^ 64" using unat_u64_less [of n] by (simp add: k_def)
  have val: "dec_value (dec_from_u64 ops n) / dec_value (dec_lit 1000) = of_nat k / 1000"
    by (simp only: laws_from_u64 [OF assms] k_def dec_value_lit of_nat_numeral)
  have "representable (of_nat k / 1000)" using k by (intro representable_milli) simp
  moreover have "exact (dec_checked_div ops (dec_from_u64 ops n) (dec_lit 1000)) (of_nat k / 1000)"
    unfolding val [symmetric]
    by (rule laws_arith(4) [OF assms]) (simp_all add: laws_from_u64 [OF assms])
  ultimately obtain d where "dec_checked_div ops (dec_from_u64 ops n) (dec_lit 1000) = Some d"
      "dec_value d = of_nat k / 1000" "\<not> is_sign_negative d"
    using exactD by force
  then show ?thesis
    using k by (auto simp: from_msat_def amount_msats_def k_def [symmetric])
qed

lemma msat_ok:
  assumes "decimal_laws ops" and "amount_msats a (unat n)"
  shows "msat ops a = Some n"
proof -
  define k where "k = unat n"
  have v: "\<not> is_sign_negative (inner a)" "dec_value (inner a) = of_nat k / 1000" "k < 2 ^ 64"
    using assms(2) by (simp_all add: amount_msats_def k_def)
  have "representable (of_nat k)" using representable_frac [of k 0] v(3) by simp
  moreover have "exact (dec_checked_mul ops (inner a) (dec_lit 1000)) (of_nat k)"
    using laws_arith(3) [OF assms(1) v(1) sign_lit, of 1000] by (simp add: v(2))
  ultimately obtain d where d: "dec_checked_mul ops (inner a) (dec_lit 1000) = Some d"
      "dec_value d = of_nat k"
    using exactD by force
  then have "dec_to_u64 ops d = Some n" by (intro laws_to_u64 [OF assms(1)]) (simp only: k_def)
  with d show ?thesis by (simp add: msat_def)
qed

lemma checked_add_ok:
  assumes "decimal_laws ops" and "amount_msats a m" and "amount_msats b n"
  shows "if m + n < 2 ^ 64 then \<exists>c. amount_checked_add ops a b = Some c \<and> amount_msats c (m + n)
    else amount_checked_add ops a b = None"
proof -
  have v: "\<not> is_sign_negative (inner a)" "\<not> is_sign_negative (inner b)"
      "dec_value (inner a) + dec_value (inner b) = of_nat (m + n) / 1000"
    and lt: "m < 2 ^ 64" "n < 2 ^ 64"
    using assms(2,3) by (simp_all add: amount_msats_def add_divide_distrib)
  have "representable (of_nat (m + n) / 1000)"
    using lt by (intro representable_milli) simp
  then obtain d where d: "dec_checked_add ops (inner a) (inner b) = Some d"
      "dec_value d = of_nat (m + n) / 1000" "\<not> is_sign_negative d"
    using exactD [OF laws_arith(1) [OF assms(1) v(1,2)]] unfolding v(3) by auto
  then show ?thesis
    by (simp add: amount_checked_add_def try_from_inner_milli [OF d(3,2)] ok_def amount_msats_def)
qed

lemma checked_sub_ok:
  assumes "decimal_laws ops" and "amount_msats a m" and "amount_msats b n" and "m \<noteq> n"
  shows "if n < m then \<exists>c. amount_checked_sub ops a b = Some c \<and> amount_msats c (m - n)
    else amount_checked_sub ops a b = None"
proof -
  have v: "\<not> is_sign_negative (inner a)" "\<not> is_sign_negative (inner b)"
      "dec_value (inner a) - dec_value (inner b) = (of_nat m - of_nat n) / 1000"
      "dec_value (inner a) \<noteq> dec_value (inner b)"
    and lt: "m < 2 ^ 64" "n < 2 ^ 64"
    using assms(2-4) by (simp_all add: amount_msats_def diff_divide_distrib)
  note ex = laws_arith(2) [OF assms(1) v(1,2,4), unfolded v(3)]
  show ?thesis
  proof (cases "n < m")
    case True
    then have eq: "(of_nat m - of_nat n) / 1000 = (of_nat (m - n) / 1000 :: rat)"
      by (simp add: of_nat_diff)
    have "representable (of_nat (m - n) / 1000)"
      using lt by (intro representable_milli) simp
    then obtain d where d: "dec_checked_sub ops (inner a) (inner b) = Some d"
        "dec_value d = of_nat (m - n) / 1000" "\<not> is_sign_negative d"
      using exactD [OF ex] unfolding eq by auto
    then show ?thesis
      using True lt
      by (simp add: amount_checked_sub_def try_from_inner_milli [OF d(3,2)] ok_def amount_msats_def)
  next
    case False
    with assms(4) have "m < n" by simp
    then have eq: "(of_nat m - of_nat n) / 1000 = - (of_nat (n - m) / 1000 :: rat)"
      by (simp add: of_nat_diff diff_divide_distrib)
    have "representable (- (of_nat (n - m) / 1000))"
      using lt by (intro representable_neg representable_milli) simp
    then obtain d where d: "dec_checked_sub ops (inner a) (inner b) = Some d"
        "dec_value d = - (of_nat (n - m) / 1000)"
      using ex unfolding eq exact_def by auto
    moreover have "is_sign_negative d"
      using \<open>m < n\<close> by (intro sign_of_neg) (simp add: d(2))
    ultimately show ?thesis
      using False by (simp add: amount_checked_sub_def try_from_inner_def ok_def)
  qed
qed

section \<open>A lawful decimal library exists\<close>

text \<open>
  An exact implementation of the parameter: a result is returned at the smallest scale that
  holds it, and an operation whose result no scale holds fails.  It satisfies \<open>decimal_laws\<close> and
  serves the witnesses.
\<close>

definition integral :: "rat \<Rightarrow> bool" where
  "integral r \<longleftrightarrow> snd (quotient_of r) = 1"

definition to_decimal :: "rat \<Rightarrow> Decimal option" where
  "to_decimal r =
     (case find (\<lambda>s. integral (\<bar>r\<bar> * 10 ^ s)) [0..<29] of
        None \<Rightarrow> None
      | Some s \<Rightarrow>
          (let m = nat (fst (quotient_of (\<bar>r\<bar> * 10 ^ s)))
           in if m < 2 ^ 96 then Some (Decimal (r < 0) m s) else None))"

definition exact_ops :: decimal_ops where
  "exact_ops =
     \<lparr>dec_from_u64 = (\<lambda>n. Decimal False (unat n) 0),
      dec_to_u64 = (\<lambda>d. let k = \<lfloor>dec_value d\<rfloor>
                        in if 0 \<le> k \<and> k < 2 ^ 64 then Some (word_of_int k) else None),
      dec_checked_add = (\<lambda>a b. to_decimal (dec_value a + dec_value b)),
      dec_checked_sub = (\<lambda>a b. to_decimal (dec_value a - dec_value b)),
      dec_checked_mul = (\<lambda>a b. to_decimal (dec_value a * dec_value b)),
      dec_checked_div = (\<lambda>a b. if dec_value b = 0 then None
                               else to_decimal (dec_value a / dec_value b)),
      dec_round = (\<lambda>d. Decimal False (nat \<lfloor>dec_value d + 1 / 2\<rfloor>) 0),
      dec_from_str = (\<lambda>s. None)\<rparr>"

lemma integral_num:
  assumes "integral r"
  shows "of_int (fst (quotient_of r)) = r"
proof -
  have "quotient_of r = (fst (quotient_of r), 1)"
    using assms by (simp add: integral_def prod_eq_iff)
  from quotient_of_div [OF this] show ?thesis by simp
qed

lemma integral_iff: "integral r \<longleftrightarrow> r \<in> \<int>"
proof
  assume "integral r"
  then show "r \<in> \<int>" using integral_num by (metis Ints_of_int)
next
  assume "r \<in> \<int>"
  then obtain z where "r = of_int z" by (rule Ints_cases)
  then show "integral r" by (simp add: integral_def)
qed

lemma find_scale:
  assumes "representable r"
  obtains s m where "find (\<lambda>s. integral (\<bar>r\<bar> * 10 ^ s)) [0..<29] = Some s"
    and "\<bar>r\<bar> * 10 ^ s = of_nat m" and "m < 2 ^ 96"
proof -
  let ?P = "\<lambda>s. integral (\<bar>r\<bar> * 10 ^ s)"
  obtain m s where m: "m < 2 ^ 96" "s \<le> 28" "\<bar>r\<bar> = of_nat m / 10 ^ s"
    using assms by (auto simp: representable_def)
  have "?P s" unfolding integral_iff using m(3) by simp
  moreover have "s \<in> set [0..<29]" using m(2) by simp
  ultimately have "find ?P [0..<29] \<noteq> None" unfolding find_None_iff by blast
  then obtain t where t: "find ?P [0..<29] = Some t" by blast
  then have Pt: "?P t" and min: "\<And>u. u < t \<Longrightarrow> \<not> ?P u" and t29: "t < 29"
    by (auto simp: find_Some_iff)
  have ts: "t \<le> s" using \<open>?P s\<close> min by (meson not_le)
  obtain z where z: "\<bar>r\<bar> * 10 ^ t = of_int z" using Pt by (auto simp: integral_iff elim: Ints_cases)
  have z0: "0 \<le> z" using z by (metis abs_ge_zero of_int_0_le_iff zero_le_mult_iff zero_le_numeral zero_le_power)
  have "of_int z = (\<bar>r\<bar> * 10 ^ t :: rat)" using z by simp
  also have "\<dots> \<le> \<bar>r\<bar> * 10 ^ s" using ts by (intro mult_left_mono power_increasing) simp_all
  also have "\<dots> = of_nat m" by (simp add: m(3))
  finally have "of_int z \<le> (of_int (int m) :: rat)" by simp
  then have "z \<le> int m" by (simp only: of_int_le_iff)
  then have "nat z < 2 ^ 96" using m(1) z0 by linarith
  with t z z0 show ?thesis by (intro that [of t "nat z"]) simp_all
qed

lemma to_decimal_exact: "exact (to_decimal r) r"
proof (unfold exact_def, rule impI)
  assume "representable r"
  then obtain s m where s: "find (\<lambda>s. integral (\<bar>r\<bar> * 10 ^ s)) [0..<29] = Some s"
      "\<bar>r\<bar> * 10 ^ s = of_nat m" "m < 2 ^ 96"
    by (rule find_scale)
  have q: "quotient_of (\<bar>r\<bar> * 10 ^ s) = (int m, 1)"
    unfolding s(2) using quotient_of_int [of "int m"] by simp
  have "\<bar>r\<bar> = of_nat m / 10 ^ s" using s(2) by (simp add: eq_divide_eq)
  then show "\<exists>d. to_decimal r = Some d \<and> dec_value d = r \<and> (r = 0 \<longrightarrow> \<not> is_sign_negative d)"
    using s by (auto simp: to_decimal_def q dec_value_def)
qed

lemma exact_ops_lawful: "decimal_laws exact_ops"
proof -
  have to: "dec_to_u64 exact_ops d = Some n" if "dec_value d = of_nat (unat n)" for d n
  proof -
    have "\<lfloor>dec_value d\<rfloor> = int (unat n)" unfolding that by (rule floor_of_nat)
    moreover have "int (unat n) < 2 ^ 64" using uint_bounded [of n] by simp
    ultimately show ?thesis by (simp only: exact_ops_def decimal_ops.simps Let_def) simp
  qed
  show ?thesis
    unfolding decimal_laws_def using to
    by (simp add: exact_ops_def to_decimal_exact) (simp add: dec_value_def)
qed

section \<open>Properties\<close>

text \<open>\<^verbatim>\<open>Amount::from_msat\<close> never panics, gives a valid amount for every \<^verbatim>\<open>u64\<close>, and \<^verbatim>\<open>msat\<close> returns the
  very same \<^verbatim>\<open>u64\<close>: no precision is lost on any of the 2^64 millisatoshi values.\<close>

theorem amount_msat_roundtrip:
  assumes "decimal_laws ops"
  shows "\<exists>a. from_msat ops n = Some a \<and> amount_valid a \<and> msat ops a = Some n"
  using from_msat_ok [OF assms, of n] msat_ok [OF assms] amount_msats_valid by blast

theorem amount_msat_roundtrip_witness:
  "decimal_laws exact_ops \<and>
   (\<exists>a. from_msat exact_ops (- 1) = Some a \<and> amount_valid a \<and> msat exact_ops a = Some (- 1))"
  using exact_ops_lawful amount_msat_roundtrip [OF exact_ops_lawful] by blast



lemma btc_ok:
  assumes "decimal_laws ops" and "amount_msats a k"
  obtains d where "btc ops a = Some d" and "dec_value d = of_nat k / 10 ^ 11" and "\<not> is_sign_negative d"
    and "\<And>d'. dec_value d' = dec_value d \<Longrightarrow> \<not> is_sign_negative d' \<Longrightarrow>
      \<exists>b. try_from_btc ops d' = Some (Inr b) \<and> amount_msats b k"
proof -
  have a: "\<not> is_sign_negative (inner a)" "dec_value (inner a) = of_nat k / 1000" "k < 2 ^ 64"
    using assms(2) by (simp_all add: amount_msats_def)
  have val: "dec_value (inner a) / dec_value (dec_lit 100000000) = of_nat k / 10 ^ 11"
    by (simp add: a(2))
  have r: "representable (of_nat k / 10 ^ 11)" using a(3) by (intro representable_frac) simp_all
  have "exact (dec_checked_div ops (inner a) (dec_lit 100000000)) (of_nat k / 10 ^ 11)"
    unfolding val [symmetric] by (rule laws_arith(4) [OF assms(1) a(1)]) simp_all
  with r obtain d where d: "btc ops a = Some d" "dec_value d = of_nat k / 10 ^ 11" "\<not> is_sign_negative d"
    unfolding btc_def using exactD by force
  have undo: "\<exists>b. try_from_btc ops d' = Some (Inr b) \<and> amount_msats b k"
    if d': "dec_value d' = dec_value d" "\<not> is_sign_negative d'" for d'
  proof -
    have val': "dec_value d' * dec_value (dec_lit 100000000) = of_nat k / 1000"
      by (simp add: d' d(2))
    have "representable (of_nat k / 1000)" using a(3) by (intro representable_milli) simp
    moreover have "exact (dec_checked_mul ops d' (dec_lit 100000000)) (of_nat k / 1000)"
      unfolding val' [symmetric] by (rule laws_arith(3) [OF assms(1) d'(2)]) simp
    ultimately obtain e where e: "dec_checked_mul ops d' (dec_lit 100000000) = Some e"
        "dec_value e = of_nat k / 1000" "\<not> is_sign_negative e"
      using exactD by force
    then show ?thesis
      using a(3) by (simp add: try_from_btc_def try_from_inner_milli [OF e(3,2)] amount_msats_def)
  qed
  show thesis by (rule that [OF d undo])
qed



end
