(* ===== verification/Invoice.thy ===== *)
theory Invoice
  imports Payment_Ids Amounts
begin

text \<open>
  \<^verbatim>\<open>common/src/ln/invoice.rs\<close>: the \<^verbatim>\<open>LxInvoice\<close> wrapper around \<^verbatim>\<open>lightning_invoice::Bolt11Invoice\<close>.  The
  invoice library is not part of the repository: an invoice is identified with its BOLT11 text and
  the library's getters are the parameter \<open>lib\<close>.
\<close>

type_synonym Bolt11Invoice = string

datatype Bolt11InvoiceDescription = Direct string | DescHash bytes

record invoice_lib =
  bolt11_payment_hash :: "Bolt11Invoice \<Rightarrow> bytes"
  bolt11_payment_secret :: "Bolt11Invoice \<Rightarrow> bytes"
  bolt11_description :: "Bolt11Invoice \<Rightarrow> Bolt11InvoiceDescription"
  bolt11_amount_milli_satoshis :: "Bolt11Invoice \<Rightarrow> u64 option"
  bolt11_timestamp :: "Bolt11Invoice \<Rightarrow> SystemTime"
  bolt11_is_expired :: "Bolt11Invoice \<Rightarrow> SystemTime \<Rightarrow> bool"
  bolt11_would_expire :: "Bolt11Invoice \<Rightarrow> Duration \<Rightarrow> bool"
  bolt11_expires_at :: "Bolt11Invoice \<Rightarrow> Duration option"
  bolt11_payee_pub_key :: "Bolt11Invoice \<Rightarrow> bytes option"
  bolt11_recover_payee_pub_key :: "Bolt11Invoice \<Rightarrow> bytes"
  bolt11_min_final_cltv_expiry_delta :: "Bolt11Invoice \<Rightarrow> u64"

datatype LxInvoice = LxInvoice (bolt11: Bolt11Invoice)

definition invoice_payment_hash :: "invoice_lib \<Rightarrow> LxInvoice \<Rightarrow> LxPaymentHash" where
  "invoice_payment_hash lib i = LxPaymentHash (bolt11_payment_hash lib (bolt11 i))"

definition invoice_payment_secret :: "invoice_lib \<Rightarrow> LxInvoice \<Rightarrow> LxPaymentSecret" where
  "invoice_payment_secret lib i = LxPaymentSecret (bolt11_payment_secret lib (bolt11 i))"

definition invoice_payment_id :: "invoice_lib \<Rightarrow> LxInvoice \<Rightarrow> LxPaymentId" where
  "invoice_payment_id lib i = Lightning (invoice_payment_hash lib i)"

definition description_str :: "invoice_lib \<Rightarrow> LxInvoice \<Rightarrow> string option" where
  "description_str lib i =
     (case bolt11_description lib (bolt11 i) of
        Direct description \<Rightarrow> if description \<noteq> [] then Some description else None
      | _ \<Rightarrow> None)"

text \<open>The outer \<open>None\<close> is a panic of \<^verbatim>\<open>from_msat\<close> or \<^verbatim>\<open>sats_u64\<close>.\<close>

definition invoice_amount :: "invoice_lib \<Rightarrow> decimal_ops \<Rightarrow> LxInvoice \<Rightarrow> Amount option option" where
  "invoice_amount lib ops i =
     (case bolt11_amount_milli_satoshis lib (bolt11 i) of
        None \<Rightarrow> Some None
      | Some m \<Rightarrow> map_option Some (from_msat ops m))"

definition invoice_amount_sats :: "invoice_lib \<Rightarrow> decimal_ops \<Rightarrow> LxInvoice \<Rightarrow> u64 option option" where
  "invoice_amount_sats lib ops i =
     Option.bind (invoice_amount lib ops i)
       (\<lambda>a. case a of None \<Rightarrow> Some None | Some x \<Rightarrow> map_option Some (sats_u64 ops x))"

definition invoice_created_at :: "invoice_lib \<Rightarrow> LxInvoice \<Rightarrow> TimestampError + TimestampMs" where
  "invoice_created_at lib i = try_from_system_time (bolt11_timestamp lib (bolt11 i))"

definition unwrap_or :: "'a \<Rightarrow> ('e + 'a) \<Rightarrow> 'a" where
  "unwrap_or x r = (case r of Inl _ \<Rightarrow> x | Inr y \<Rightarrow> y)"

definition saturating_created_at :: "invoice_lib \<Rightarrow> LxInvoice \<Rightarrow> TimestampMs" where
  "saturating_created_at lib i = unwrap_or timestamp_max (invoice_created_at lib i)"

text \<open>\<^verbatim>\<open>is_expired\<close> reads the system clock.\<close>

definition invoice_is_expired :: "invoice_lib \<Rightarrow> SystemTime \<Rightarrow> LxInvoice \<Rightarrow> bool" where
  "invoice_is_expired lib clock i = bolt11_is_expired lib (bolt11 i) clock"

definition invoice_expires_at :: "invoice_lib \<Rightarrow> LxInvoice \<Rightarrow> TimestampError + TimestampMs" where
  "invoice_expires_at lib i =
     and_then (ok_or TimestampError.TooLarge (bolt11_expires_at lib (bolt11 i))) try_from_duration"

definition saturating_expires_at :: "invoice_lib \<Rightarrow> LxInvoice \<Rightarrow> TimestampMs" where
  "saturating_expires_at lib i = unwrap_or timestamp_max (invoice_expires_at lib i)"

definition payee_node_pk :: "invoice_lib \<Rightarrow> LxInvoice \<Rightarrow> bytes" where
  "payee_node_pk lib i =
     (case bolt11_payee_pub_key lib (bolt11 i) of
        Some pk \<Rightarrow> pk | None \<Rightarrow> bolt11_recover_payee_pub_key lib (bolt11 i))"

definition min_final_cltv_expiry_delta_u32 :: "invoice_lib \<Rightarrow> LxInvoice \<Rightarrow> unit + u32" where
  "min_final_cltv_expiry_delta_u32 lib i =
     (let d = bolt11_min_final_cltv_expiry_delta lib (bolt11 i)
      in if unat d < 2 ^ 32 then Inr (ucast d) else Inl ())"

lemma saturating_created_at_valid: "timestamp_valid (saturating_created_at lib i)"
proof (cases "invoice_created_at lib i")
  case (Inl e)
  then show ?thesis
    by (simp add: saturating_created_at_def unwrap_or_def timestamp_valid_def timestamp_max_def
        i64_max_def)
next
  case (Inr t)
  then show ?thesis
    by (auto simp: saturating_created_at_def unwrap_or_def invoice_created_at_def
        try_from_system_time_def split: sum.splits intro: try_from_valid)
qed

lemma saturating_expires_at_valid: "timestamp_valid (saturating_expires_at lib i)"
proof (cases "invoice_expires_at lib i")
  case (Inl e)
  then show ?thesis
    by (simp add: saturating_expires_at_def unwrap_or_def timestamp_valid_def timestamp_max_def
        i64_max_def)
next
  case (Inr t)
  then show ?thesis
    by (auto simp: saturating_expires_at_def unwrap_or_def invoice_expires_at_def result_simps
        intro: try_from_valid)
qed

section \<open>A small instance of the library\<close>

text \<open>The invoice text is the expiry time in seconds, in unary.\<close>

definition unary_lib :: invoice_lib where
  "unary_lib =
     \<lparr>bolt11_payment_hash = (\<lambda>_. [1]), bolt11_payment_secret = (\<lambda>_. [2]),
      bolt11_description = (\<lambda>_. Direct ''coffee''), bolt11_amount_milli_satoshis = (\<lambda>_. None),
      bolt11_timestamp = (\<lambda>_. 0),
      bolt11_is_expired = (\<lambda>i t. int (length i) * 1000000000 < t),
      bolt11_would_expire = (\<lambda>i d. length i < secs d),
      bolt11_expires_at = (\<lambda>i. Some \<lparr>secs = length i, nanos = 0\<rparr>),
      bolt11_payee_pub_key = (\<lambda>_. None), bolt11_recover_payee_pub_key = (\<lambda>_. [3]),
      bolt11_min_final_cltv_expiry_delta = (\<lambda>_. 18)\<rparr>"

end
