(* ===== verification/Basic_Payment.thy ===== *)
theory Basic_Payment
  imports Invoice
begin

text \<open>
  The user-facing payment types of \<^verbatim>\<open>common/src/ln/payments.rs\<close>: \<^verbatim>\<open>BasicPayment\<close>, \<^verbatim>\<open>DbPayment\<close> and the
  kind, direction and status enums with their textual forms.
\<close>

datatype PaymentKind = Onchain | Invoice | Spontaneous
datatype PaymentDirection = Inbound | Outbound
datatype PaymentStatus = Pending | Completed | Failed

record BasicPayment =
  bp_index :: PaymentIndex
  bp_kind :: PaymentKind
  bp_direction :: PaymentDirection
  bp_invoice :: "LxInvoice option"
  bp_replacement :: "LxTxid option"
  bp_amount :: "Amount option"
  bp_fees :: Amount
  bp_status :: PaymentStatus
  bp_status_str :: string
  bp_note :: "string option"
  bp_finalized_at :: "TimestampMs option"

record DbPayment =
  db_created_at :: int
  db_id :: string
  db_status :: string
  db_data :: bytes

definition bp_created_at :: "BasicPayment \<Rightarrow> TimestampMs" where
  "bp_created_at p = index_created_at (bp_index p)"

definition bp_payment_id :: "BasicPayment \<Rightarrow> LxPaymentId" where
  "bp_payment_id p = index_id (bp_index p)"

definition is_pending :: "BasicPayment \<Rightarrow> bool" where
  "is_pending p = (case bp_status p of Pending \<Rightarrow> True | Completed \<Rightarrow> False | Failed \<Rightarrow> False)"

definition is_finalized :: "BasicPayment \<Rightarrow> bool" where
  "is_finalized p = (\<not> is_pending p)"

text \<open>The user's note unless it is empty, else the invoice's description.\<close>

definition note_or_description :: "invoice_lib \<Rightarrow> BasicPayment \<Rightarrow> string option" where
  "note_or_description lib p =
     (case bp_note p of
        Some s \<Rightarrow> if s \<noteq> [] then Some s else Option.bind (bp_invoice p) (description_str lib)
      | None \<Rightarrow> Option.bind (bp_invoice p) (description_str lib))"

definition is_junk :: "invoice_lib \<Rightarrow> BasicPayment \<Rightarrow> bool" where
  "is_junk lib p \<longleftrightarrow>
     bp_status p \<noteq> Completed \<and> bp_kind p = Invoice \<and> bp_direction p = Inbound \<and>
     (bp_amount p = None \<or> note_or_description lib p = None)"

definition is_pending_not_junk :: "invoice_lib \<Rightarrow> BasicPayment \<Rightarrow> bool" where
  "is_pending_not_junk lib p \<longleftrightarrow> is_pending p \<and> \<not> is_junk lib p"

definition is_finalized_not_junk :: "invoice_lib \<Rightarrow> BasicPayment \<Rightarrow> bool" where
  "is_finalized_not_junk lib p \<longleftrightarrow> is_finalized p \<and> \<not> is_junk lib p"

definition bp_cmp :: "BasicPayment \<Rightarrow> BasicPayment \<Rightarrow> ordering" where
  "bp_cmp a b = index_cmp (bp_index a) (bp_index b)"

section \<open>Text of the enums\<close>

fun kind_display :: "PaymentKind \<Rightarrow> string" where
  "kind_display Onchain = ''onchain''"
| "kind_display Invoice = ''invoice''"
| "kind_display Spontaneous = ''spontaneous''"

definition kind_from_str :: "string \<Rightarrow> unit + PaymentKind" where
  "kind_from_str s =
     (if s = ''onchain'' then Inr Onchain
      else if s = ''invoice'' then Inr Invoice
      else if s = ''spontaneous'' then Inr Spontaneous
      else Inl ())"

fun direction_display :: "PaymentDirection \<Rightarrow> string" where
  "direction_display Inbound = ''inbound''"
| "direction_display Outbound = ''outbound''"

definition direction_from_str :: "string \<Rightarrow> unit + PaymentDirection" where
  "direction_from_str s =
     (if s = ''inbound'' then Inr Inbound
      else if s = ''outbound'' then Inr Outbound
      else Inl ())"

fun status_display :: "PaymentStatus \<Rightarrow> string" where
  "status_display Pending = ''pending''"
| "status_display Completed = ''completed''"
| "status_display Failed = ''failed''"

definition status_from_str :: "string \<Rightarrow> unit + PaymentStatus" where
  "status_from_str s =
     (if s = ''pending'' then Inr Pending
      else if s = ''completed'' then Inr Completed
      else if s = ''failed'' then Inr Failed
      else Inl ())"

interpretation kind: fromstr_display kind_display kind_from_str "\<lambda>_. True"
proof
  fix k show "kind_from_str (kind_display k) = Inr k" by (cases k) (simp_all add: kind_from_str_def)
qed

interpretation direction: fromstr_display direction_display direction_from_str "\<lambda>_. True"
proof
  fix d show "direction_from_str (direction_display d) = Inr d"
    by (cases d) (simp_all add: direction_from_str_def)
qed

interpretation status: fromstr_display status_display status_from_str "\<lambda>_. True"
proof
  fix s show "status_from_str (status_display s) = Inr s"
    by (cases s) (simp_all add: status_from_str_def)
qed

section \<open>Facts used by the payment lists\<close>

lemma pending_or_finalized: "is_pending p \<noteq> is_finalized p"
  by (simp add: is_finalized_def)

lemma junk_never_completed: "is_junk lib p \<Longrightarrow> bp_status p \<noteq> Completed"
  by (simp add: is_junk_def)

lemma not_junk_partition:
  "\<not> is_junk lib p \<longleftrightarrow> (is_pending_not_junk lib p \<noteq> is_finalized_not_junk lib p)"
  by (auto simp: is_pending_not_junk_def is_finalized_not_junk_def is_finalized_def)

lemma is_pending_iff: "is_pending p \<longleftrightarrow> bp_status p = Pending"
  by (simp add: is_pending_def split: PaymentStatus.split)

end
