(* ===== verification/Esplora.thy ===== *)
theory Esplora
  imports Basic_Payment
begin

text \<open>
  \<^verbatim>\<open>lexe-ln/src/esplora.rs\<close>: confirmation statuses of transactions, the cached fee estimates and batch
  broadcasts.  The \<^verbatim>\<open>esplora_client\<close> calls are the parameter \<open>client\<close>, whose fields give the response
  the client received (\<open>Inl\<close> is a transport error); the \<^verbatim>\<open>bitcoin\<close> types are kept to the parts this
  code reads.
\<close>

section \<open>Transactions and responses\<close>

record OutPoint =
  op_txid :: LxTxid
  op_vout :: u32

text \<open>\<open>tx_rest\<close> is everything of a transaction that the payment code never looks into.\<close>

record Transaction =
  tx_input :: "OutPoint list"
  tx_rest :: bytes

record TxConfQuery =
  q_txid :: LxTxid
  q_inputs :: "OutPoint list"
  q_created_at :: SystemTime

datatype TxConfStatus = ZeroConf | InBestChain u32 | HasReplacement u32 LxTxid | Dropped

text \<open>\<^verbatim>\<open>esplora_client::TxStatus\<close> and \<^verbatim>\<open>OutputStatus\<close>: the fields used here.\<close>

record TxStatus =
  block_height :: "u32 option"

record OutputStatus =
  os_txid :: "LxTxid option"
  os_status :: "TxStatus option"

record esplora_client =
  get_height :: "unit + u32"
  get_tx_status :: "LxTxid \<Rightarrow> unit + TxStatus option"
  get_output_status :: "OutPoint \<Rightarrow> unit + OutputStatus option"

datatype EsploraError =
    FetchBlockHeight | FetchTxStatus | TxidNotFound | BestHeightRace | FetchOutputStatus | InputTxNotFound

section \<open>Confirmation status\<close>

definition BITCOIN_CORE_MEMPOOL_EXPIRY :: int where
  "BITCOIN_CORE_MEMPOOL_EXPIRY = 60 * 60 * 24 * 14 * 1000000000"

text \<open>\<^verbatim>\<open>u32::checked_sub\<close>.\<close>

definition u32_checked_sub :: "u32 \<Rightarrow> u32 \<Rightarrow> u32 option" where
  "u32_checked_sub a b = (if b \<le> a then Some (a - b) else None)"

text \<open>\<^verbatim>\<open>Iterator::max_by_key\<close> keeps the last of several maximal elements.\<close>

fun max_by_key :: "('a \<Rightarrow> 'k::linorder) \<Rightarrow> 'a list \<Rightarrow> 'a option" where
  "max_by_key f [] = None"
| "max_by_key f (x # xs) =
     (case max_by_key f xs of None \<Rightarrow> Some x | Some y \<Rightarrow> if f y < f x then Some x else Some y)"

text \<open>The closure of the \<^verbatim>\<open>filter_map\<close> over the output statuses, with its early \<^verbatim>\<open>?\<close> returns.\<close>

definition replacement_of :: "u32 \<Rightarrow> OutputStatus \<Rightarrow> (LxTxid \<times> u32) option" where
  "replacement_of best_height output_status =
     Option.bind (os_txid output_status) (\<lambda>rp_txid.
     Option.bind (os_status output_status) (\<lambda>rp_tx_status.
     Option.bind (block_height rp_tx_status) (\<lambda>rp_height.
     Option.bind (u32_checked_sub best_height rp_height) (\<lambda>rp_height_diff.
       Some (rp_txid, rp_height_diff + 1)))))"

text \<open>\<^verbatim>\<open>now.duration_since(created_at).unwrap_or(Duration::ZERO)\<close>.\<close>

definition tx_age :: "SystemTime \<Rightarrow> SystemTime \<Rightarrow> int" where
  "tx_age now created_at = (if created_at \<le> now then now - created_at else 0)"

definition fetch_output_status :: "esplora_client \<Rightarrow> OutPoint \<Rightarrow> EsploraError + OutputStatus" where
  "fetch_output_status client outpoint =
     and_then (map_err (\<lambda>_. FetchOutputStatus) (get_output_status client outpoint))
       (ok_or InputTxNotFound)"

definition get_tx_conf_status ::
    "esplora_client \<Rightarrow> u32 \<Rightarrow> SystemTime \<Rightarrow> TxConfQuery \<Rightarrow> EsploraError + TxConfStatus" where
  "get_tx_conf_status client best_height now query =
     and_then (map_err (\<lambda>_. FetchTxStatus) (get_tx_status client (q_txid query))) (\<lambda>maybe_status.
     and_then (ok_or TxidNotFound maybe_status) (\<lambda>tx_status.
       case block_height tx_status of
         Some height \<Rightarrow>
           and_then (ok_or BestHeightRace (u32_checked_sub best_height height)) (\<lambda>height_diff.
             Inr (InBestChain (height_diff + 1)))
       | None \<Rightarrow>
           and_then (collect_results (map (fetch_output_status client) (q_inputs query)))
             (\<lambda>output_statuses.
               case max_by_key snd (List.map_filter (replacement_of best_height) output_statuses) of
                 Some (rp_txid, confs) \<Rightarrow> Inr (HasReplacement confs rp_txid)
               | None \<Rightarrow>
                   if BITCOIN_CORE_MEMPOOL_EXPIRY < tx_age now (q_created_at query)
                   then Inr TxConfStatus.Dropped
                   else Inr ZeroConf)))"

text \<open>
  The queries run concurrently; a failing one makes the whole call fail.  (Which of several errors is
  reported depends on which response arrives first; the model reports the first in query order.)
\<close>

definition get_tx_conf_statuses ::
    "esplora_client \<Rightarrow> SystemTime \<Rightarrow> TxConfQuery list \<Rightarrow> EsploraError + TxConfStatus list" where
  "get_tx_conf_statuses client now queries =
     and_then (map_err (\<lambda>_. FetchBlockHeight) (get_height client)) (\<lambda>best_height.
       collect_results (map (get_tx_conf_status client best_height now) queries))"

section \<open>Fee estimates\<close>

datatype ConfirmationTarget = HighPriority | Normal | Background | MempoolMinimum

datatype ConfirmationPriority = PHigh | PNormal | PBackground

fun priority_target :: "ConfirmationPriority \<Rightarrow> ConfirmationTarget" where
  "priority_target PHigh = HighPriority"
| "priority_target PNormal = Normal"
| "priority_target PBackground = Background"

fun priority_display :: "ConfirmationPriority \<Rightarrow> string" where
  "priority_display PHigh = ''high''"
| "priority_display PNormal = ''normal''"
| "priority_display PBackground = ''background''"

definition priority_from_str :: "string \<Rightarrow> unit + ConfirmationPriority" where
  "priority_from_str s =
     (if s = ''high'' then Inr PHigh
      else if s = ''normal'' then Inr PNormal
      else if s = ''background'' then Inr PBackground
      else Inl ())"

interpretation priority: fromstr_display priority_display priority_from_str "\<lambda>_. True"
proof
  fix p show "priority_from_str (priority_display p) = Inr p"
    by (cases p) (simp_all add: priority_from_str_def)
qed

definition ALL_CONF_TARGETS :: "ConfirmationTarget list" where
  "ALL_CONF_TARGETS = [HighPriority, Normal, Background, MempoolMinimum]"

text \<open>The four atomics of \<^verbatim>\<open>LexeEsplora\<close>.\<close>

record fee_cache =
  high_prio_fees :: u32
  normal_fees :: u32
  background_fees :: u32
  mempool_minimum_fees :: u32

text \<open>
  What the fee code takes from other crates: LDK's fee floor and \<^verbatim>\<open>bdk\<close>'s conversion of a rate in
  sats/vbyte (after the \<^verbatim>\<open>as f32\<close> cast) to sats per 1000 weight units.  Rates are floats that this
  code only selects and forwards, so they are left abstract.
\<close>

record 'f fee_lib =
  FEERATE_FLOOR_SATS_PER_KW :: u32
  rate_one :: 'f
  fee_wu_1000 :: "'f \<Rightarrow> u32"

definition init_fees :: "'f fee_lib \<Rightarrow> fee_cache" where
  "init_fees lib =
     \<lparr>high_prio_fees = 13000, normal_fees = 6000, background_fees = 1000,
      mempool_minimum_fees = FEERATE_FLOOR_SATS_PER_KW lib\<rparr>"

fun num_blocks_target :: "ConfirmationTarget \<Rightarrow> nat" where
  "num_blocks_target HighPriority = 1"
| "num_blocks_target Normal = 3"
| "num_blocks_target Background = 72"
| "num_blocks_target MempoolMinimum = 1008"

text \<open>\<^verbatim>\<open>str::parse::<usize>()\<close>: one optional plus sign, digits, checked for overflow.\<close>

fun parse_usize_digits :: "nat \<Rightarrow> string \<Rightarrow> nat option" where
  "parse_usize_digits acc [] = Some acc"
| "parse_usize_digits acc (c # cs) =
     (case to_digit c of
        None \<Rightarrow> None
      | Some d \<Rightarrow>
          if acc * 10 + d \<le> u64_max then parse_usize_digits (acc * 10 + d) cs else None)"

definition usize_from_str :: "string \<Rightarrow> nat option" where
  "usize_from_str s =
     (case s of
        [] \<Rightarrow> None
      | c # cs \<Rightarrow>
          if c = CHR ''+'' then (if cs = [] then None else parse_usize_digits 0 cs)
          else parse_usize_digits 0 s)"

definition convert_fee_rate :: "'f fee_lib \<Rightarrow> nat \<Rightarrow> (string \<times> 'f) list \<Rightarrow> 'f" where
  "convert_fee_rate lib target estimates =
     (let pairs = List.map_filter (\<lambda>(k, v). map_option (\<lambda>n. (n, v)) (usize_from_str k)) estimates;
          sorted = rev (sort_key fst pairs)
      in case find (\<lambda>(k, _). k \<le> target) sorted of
           Some (_, v) \<Rightarrow> v
         | None \<Rightarrow> rate_one lib)"

fun store_fee :: "ConfirmationTarget \<Rightarrow> u32 \<Rightarrow> fee_cache \<Rightarrow> fee_cache" where
  "store_fee HighPriority n c = c\<lparr>high_prio_fees := n\<rparr>"
| "store_fee Normal n c = c\<lparr>normal_fees := n\<rparr>"
| "store_fee Background n c = c\<lparr>background_fees := n\<rparr>"
| "store_fee MempoolMinimum n c = c\<lparr>mempool_minimum_fees := n\<rparr>"

definition refresh_single_fee_estimate ::
    "'f fee_lib \<Rightarrow> (string \<times> 'f) list \<Rightarrow> ConfirmationTarget \<Rightarrow> fee_cache \<Rightarrow> fee_cache" where
  "refresh_single_fee_estimate lib estimates conf_target c =
     (let rate = convert_fee_rate lib (num_blocks_target conf_target) estimates;
          fee = max (fee_wu_1000 lib rate) (FEERATE_FLOOR_SATS_PER_KW lib)
      in store_fee conf_target fee c)"

definition refresh_all_fee_estimates ::
    "'f fee_lib \<Rightarrow> unit + (string \<times> 'f) list \<Rightarrow> fee_cache \<Rightarrow> (unit + unit) \<times> fee_cache" where
  "refresh_all_fee_estimates lib response c =
     (case response of
        Inl _ \<Rightarrow> (Inl (), c)
      | Inr estimates \<Rightarrow> (Inr (), fold (refresh_single_fee_estimate lib estimates) ALL_CONF_TARGETS c))"

fun get_est_sat_per_1000_weight :: "fee_cache \<Rightarrow> ConfirmationTarget \<Rightarrow> u32" where
  "get_est_sat_per_1000_weight c HighPriority = high_prio_fees c"
| "get_est_sat_per_1000_weight c Normal = normal_fees c"
| "get_est_sat_per_1000_weight c Background = background_fees c"
| "get_est_sat_per_1000_weight c MempoolMinimum = mempool_minimum_fees c"

section \<open>Broadcast\<close>

datatype BroadcastError = NoTransactions | BatchFailed "(Transaction \<times> string) list"

text \<open>
  \<open>broadcast\<close> is the client's answer for each transaction.  Every transaction of the batch is sent,
  and the batch fails with all the error messages if one of them was refused.
\<close>

definition broadcast_txs_inner ::
    "(Transaction \<Rightarrow> string + unit) \<Rightarrow> Transaction list \<Rightarrow> BroadcastError + unit" where
  "broadcast_txs_inner broadcast txs =
     (if txs = [] then Inl NoTransactions
      else
        (let err_msgs = List.map_filter (\<lambda>tx. case broadcast tx of Inl e \<Rightarrow> Some (tx, e) | Inr _ \<Rightarrow> None) txs
         in if err_msgs \<noteq> [] then Inl (BatchFailed err_msgs) else Inr ()))"

section \<open>Lemmas\<close>

lemma max_by_key_None [simp]: "max_by_key f xs = None \<longleftrightarrow> xs = []"
  by (cases xs) (auto split: option.splits)

lemma max_by_key_Some:
  "max_by_key f xs = Some y \<Longrightarrow> y \<in> set xs \<and> (\<forall>x \<in> set xs. f x \<le> f y)"
proof (induction xs arbitrary: y)
  case (Cons x xs)
  then show ?case
    by (cases "max_by_key f xs") (force split: if_splits)+
qed simp

lemma set_map_filter: "set (List.map_filter f xs) = {y. \<exists>x \<in> set xs. f x = Some y}"
  by (force simp: List.map_filter_def)

lemma u32_checked_sub_Some: "u32_checked_sub a b = Some d \<longleftrightarrow> b \<le> a \<and> d = a - b"
  by (auto simp: u32_checked_sub_def)

lemma u32_confs:
  fixes best h :: u32
  assumes "h \<le> best" and "best \<noteq> - 1"
  shows "unat (best - h + 1) = unat best - unat h + 1"
proof -
  have max: "unat best < 2 ^ 32 - 1"
    using assms(2) unsigned_less [of best, where 'a = nat] by (simp add: word_unat_eq_iff unsigned_minus_1_eq_mask mask_eq_exp_minus_1)
  have le: "unat h \<le> unat best"
    using assms(1) by (simp add: word_le_nat_alt)
  have "unat (best - h) = unat best - unat h"
    using assms(1) by (simp add: unat_sub)
  with max le show ?thesis
    by (simp add: unat_word_ariths)
qed

section \<open>What the confirmation status means\<close>

text \<open>
  The explorer's view: \<open>mined_at\<close> is the height of the best-chain block containing the transaction;
  \<open>spender\<close> says that an input is spent by a transaction mined at or below the known tip.
\<close>

definition mined_at :: "esplora_client \<Rightarrow> LxTxid \<Rightarrow> u32 option" where
  "mined_at client t =
     (case get_tx_status client t of Inr (Some st) \<Rightarrow> block_height st | _ \<Rightarrow> None)"

definition spender :: "esplora_client \<Rightarrow> u32 \<Rightarrow> OutPoint \<Rightarrow> LxTxid \<Rightarrow> u32 \<Rightarrow> bool" where
  "spender client best_height op t h \<longleftrightarrow>
     (\<exists>os st. get_output_status client op = Inr (Some os) \<and> os_txid os = Some t \<and>
       os_status os = Some st \<and> block_height st = Some h \<and> h \<le> best_height)"

definition confirmations :: "u32 \<Rightarrow> u32 \<Rightarrow> nat" where
  "confirmations best_height h = unat best_height - unat h + 1"

definition all_answered :: "esplora_client \<Rightarrow> TxConfQuery \<Rightarrow> bool" where
  "all_answered client q \<longleftrightarrow>
     (\<exists>st. get_tx_status client (q_txid q) = Inr (Some st)) \<and>
     (\<forall>op \<in> set (q_inputs q). \<exists>os. get_output_status client op = Inr (Some os))"

fun conf_meaning :: "esplora_client \<Rightarrow> u32 \<Rightarrow> SystemTime \<Rightarrow> TxConfQuery \<Rightarrow> TxConfStatus \<Rightarrow> bool" where
  "conf_meaning client best now q (InBestChain confs) \<longleftrightarrow>
     (\<exists>h. mined_at client (q_txid q) = Some h \<and> h \<le> best \<and> unat confs = confirmations best h)"
| "conf_meaning client best now q (HasReplacement confs rp) \<longleftrightarrow>
     mined_at client (q_txid q) = None \<and>
     (\<exists>op \<in> set (q_inputs q). \<exists>h. spender client best op rp h \<and> unat confs = confirmations best h) \<and>
     (\<forall>op \<in> set (q_inputs q). \<forall>t h. spender client best op t h \<longrightarrow>
        confirmations best h \<le> unat confs)"
| "conf_meaning client best now q TxConfStatus.Dropped \<longleftrightarrow>
     mined_at client (q_txid q) = None \<and>
     (\<forall>op \<in> set (q_inputs q). \<forall>t h. \<not> spender client best op t h) \<and>
     now - q_created_at q > BITCOIN_CORE_MEMPOOL_EXPIRY"
| "conf_meaning client best now q ZeroConf \<longleftrightarrow>
     mined_at client (q_txid q) = None \<and>
     (\<forall>op \<in> set (q_inputs q). \<forall>t h. \<not> spender client best op t h) \<and>
     now - q_created_at q \<le> BITCOIN_CORE_MEMPOOL_EXPIRY"

lemma replacement_of_Some:
  "replacement_of best os = Some (t, c) \<longleftrightarrow>
     (\<exists>st h. os_txid os = Some t \<and> os_status os = Some st \<and> block_height st = Some h \<and>
       h \<le> best \<and> c = best - h + 1)"
  by (auto simp: replacement_of_def u32_checked_sub_Some Option.bind_eq_Some_conv)

lemma collect_fetched:
  assumes "\<forall>op \<in> set ops. \<exists>os. get_output_status client op = Inr (Some os)"
  shows "\<exists>oss. collect_results (map (fetch_output_status client) ops) = Inr oss \<and>
    set oss = {os. \<exists>op \<in> set ops. get_output_status client op = Inr (Some os)}"
  using assms
proof (induction ops)
  case (Cons op ops)
  then obtain oss where "collect_results (map (fetch_output_status client) ops) = Inr oss"
    and "set oss = {os. \<exists>op \<in> set ops. get_output_status client op = Inr (Some os)}"
    by auto
  moreover obtain os where "get_output_status client op = Inr (Some os)"
    using Cons.prems by auto
  moreover have "fetch_output_status client op = Inr os"
    using calculation(3) by (simp add: fetch_output_status_def)
  ultimately show ?case
    by auto
qed simp

lemma expired_age: "BITCOIN_CORE_MEMPOOL_EXPIRY < tx_age now c \<longleftrightarrow> BITCOIN_CORE_MEMPOOL_EXPIRY < now - c"
  by (auto simp: tx_age_def BITCOIN_CORE_MEMPOOL_EXPIRY_def)

lemma replacements_spender:
  assumes "set oss = {os. \<exists>op \<in> ops. get_output_status client op = Inr (Some os)}"
  shows "(t, c) \<in> set (List.map_filter (replacement_of best) oss) \<longleftrightarrow>
    (\<exists>op \<in> ops. \<exists>h. spender client best op t h \<and> c = best - h + 1)"
  by (force simp: set_map_filter assms replacement_of_Some spender_def)

lemma get_tx_conf_status_mined:
  assumes "get_tx_status client (q_txid q) = Inr (Some st)" and "block_height st = Some h"
  shows "get_tx_conf_status client best now q =
    (if h \<le> best then Inr (InBestChain (best - h + 1)) else Inl BestHeightRace)"
  using assms by (simp add: get_tx_conf_status_def u32_checked_sub_def)

lemma get_tx_conf_status_unmined:
  assumes "get_tx_status client (q_txid q) = Inr (Some st)" and "block_height st = None"
    and "collect_results (map (fetch_output_status client) (q_inputs q)) = Inr oss"
  shows "get_tx_conf_status client best now q = Inr
    (case max_by_key snd (List.map_filter (replacement_of best) oss) of
       Some (rp, confs) \<Rightarrow> HasReplacement confs rp
     | None \<Rightarrow>
         if BITCOIN_CORE_MEMPOOL_EXPIRY < now - q_created_at q then TxConfStatus.Dropped
         else ZeroConf)"
  using assms by (simp add: get_tx_conf_status_def expired_age split: option.split)

text \<open>C21: Whenever the explorer answers and its tip is not older than the block of the transaction,
  \<^verbatim>\<open>get_tx_conf_status\<close> returns a status, and the status describes the chain: \<^verbatim>\<open>InBestChain\<close> carries the
  number of confirmations of the containing block, \<^verbatim>\<open>HasReplacement\<close> names a most-confirmed
  transaction spending one of the inputs, and \<^verbatim>\<open>Dropped\<close> is only reported for a transaction that is
  unmined, unreplaced and older than the mempool expiry.  (A block height of \<^verbatim>\<open>u32::MAX\<close>, where
  the count of confirmations would wrap, is excluded.)\<close>

theorem tx_conf_status_correct:
  assumes "all_answered client q" and "best \<noteq> - 1"
    and race: "\<And>h. mined_at client (q_txid q) = Some h \<Longrightarrow> h \<le> best"
  shows "\<exists>s. get_tx_conf_status client best now q = Inr s \<and> conf_meaning client best now q s"
proof -
  obtain st where st: "get_tx_status client (q_txid q) = Inr (Some st)"
    using assms(1) by (auto simp: all_answered_def)
  then have mined: "mined_at client (q_txid q) = block_height st"
    by (simp add: mined_at_def)
  show ?thesis
  proof (cases "block_height st")
    case (Some h)
    then show ?thesis
      using race u32_confs [OF _ assms(2)]
      by (simp add: get_tx_conf_status_mined [OF st] mined confirmations_def)
  next
    case None
    obtain oss where oss: "collect_results (map (fetch_output_status client) (q_inputs q)) = Inr oss"
      and set: "set oss = {os. \<exists>op \<in> set (q_inputs q). get_output_status client op = Inr (Some os)}"
      using collect_fetched assms(1) unfolding all_answered_def by blast
    note status = get_tx_conf_status_unmined [OF st None oss] and spent = replacements_spender [OF set]
    show ?thesis
    proof (cases "max_by_key snd (List.map_filter (replacement_of best) oss)")
      case None': None
      then have "(t, c) \<notin> set (List.map_filter (replacement_of best) oss)" for t c
        by simp
      then have "\<forall>op \<in> set (q_inputs q). \<forall>t h. \<not> spender client best op t h"
        unfolding spent by blast
      with None None' show ?thesis
        by (simp add: status mined)
    next
      case (Some r)
      obtain rp c where r: "r = (rp, c)" by force
      from max_by_key_Some [OF Some] obtain op h
        where "op \<in> set (q_inputs q)" "spender client best op rp h" "c = best - h + 1"
        and max: "\<And>op t h. op \<in> set (q_inputs q) \<Longrightarrow> spender client best op t h \<Longrightarrow> best - h + 1 \<le> c"
        unfolding r using spent by force
      moreover have "unat (best - h' + 1) = confirmations best h'" if "spender client best op' t h'" for op' t h'
        using that u32_confs [OF _ assms(2)] by (auto simp: spender_def confirmations_def)
      ultimately show ?thesis
        using Some None by (force simp: status mined r word_le_nat_alt)
    qed
  qed
qed

definition example_client :: esplora_client where
  "example_client =
     \<lparr>get_height = Inr 105,
      get_tx_status = (\<lambda>t. Inr (Some \<lparr>block_height = None\<rparr>)),
      get_output_status =
        (\<lambda>op. Inr (Some \<lparr>os_txid = Some (LxTxid [9]), os_status = Some \<lparr>block_height = Some 100\<rparr>\<rparr>))\<rparr>"

definition example_query :: TxConfQuery where
  "example_query =
     \<lparr>q_txid = LxTxid [1], q_inputs = [\<lparr>op_txid = LxTxid [2], op_vout = 0\<rparr>], q_created_at = 0\<rparr>"

theorem tx_conf_status_correct_witness:
  "\<exists>s. get_tx_conf_status example_client 105 1000 example_query = Inr s \<and>
     conf_meaning example_client 105 1000 example_query s"
  by (rule tx_conf_status_correct)
    (auto simp: all_answered_def example_client_def example_query_def mined_at_def)

section \<open>Fee estimates are never below the floor and always the best known target\<close>

lemma convert_fee_rate_find:
  fixes t :: nat
  assumes "sorted_wrt (\<lambda>p q. fst q \<le> fst p) ps" and "find (\<lambda>(k, _). k \<le> t) ps = Some (k, v)"
  shows "(k, v) \<in> set ps \<and> k \<le> t \<and> (\<forall>k' v'. (k', v') \<in> set ps \<and> k' \<le> t \<longrightarrow> k' \<le> k)"
  using assms by (induction ps) (auto split: if_splits)

lemma sorted_rev_sort: "sorted_wrt (\<lambda>p q. fst q \<le> fst p) (rev (sort_key fst ps))"
proof -
  have "sorted_wrt (\<lambda>p q. fst p \<le> fst q) (sort_key fst ps)"
    using sorted_sort_key [of fst ps] by (simp add: sorted_map)
  then show ?thesis by (simp add: sorted_wrt_rev)
qed

definition known_estimate :: "(string \<times> 'f) list \<Rightarrow> nat \<Rightarrow> 'f \<Rightarrow> bool" where
  "known_estimate estimates k v \<longleftrightarrow> (\<exists>s. (s, v) \<in> set estimates \<and> usize_from_str s = Some k)"

text \<open>\<^verbatim>\<open>convert_fee_rate\<close> returns the estimate of the largest known target that is at most the
  requested one, and the default rate when there is none, whatever the iteration order of the map.\<close>

theorem convert_fee_rate_best:
  "(\<exists>k. known_estimate estimates k (convert_fee_rate lib target estimates) \<and> k \<le> target \<and>
      (\<forall>k' v. known_estimate estimates k' v \<and> k' \<le> target \<longrightarrow> k' \<le> k)) \<or>
   (\<forall>k v. known_estimate estimates k v \<longrightarrow> target < k) \<and>
     convert_fee_rate lib target estimates = rate_one lib"
proof -
  define pairs where
    "pairs = List.map_filter (\<lambda>(k, v). map_option (\<lambda>n. (n, v)) (usize_from_str k)) estimates"
  have known: "known_estimate estimates k v \<longleftrightarrow> (k, v) \<in> set (rev (sort_key fst pairs))" for k v
    by (force simp: known_estimate_def pairs_def set_map_filter)
  show ?thesis
  proof (cases "find (\<lambda>(k, _). k \<le> target) (rev (sort_key fst pairs))")
    case None
    then have "\<forall>k v. known_estimate estimates k v \<longrightarrow> target < k"
      unfolding known by (fastforce simp: find_None_iff)
    moreover have "convert_fee_rate lib target estimates = rate_one lib"
      using None by (simp add: convert_fee_rate_def pairs_def [symmetric])
    ultimately show ?thesis by blast
  next
    case (Some p)
    obtain k v where p: "p = (k, v)" by force
    then have "convert_fee_rate lib target estimates = v"
      using Some by (simp add: convert_fee_rate_def pairs_def [symmetric])
    with convert_fee_rate_find [OF sorted_rev_sort Some [unfolded p]] show ?thesis
      unfolding known by blast
  qed
qed

definition example_fee_lib :: "nat fee_lib" where
  "example_fee_lib = \<lparr>FEERATE_FLOOR_SATS_PER_KW = 253, rate_one = 1, fee_wu_1000 = of_nat\<rparr>"

definition example_estimates :: "(string \<times> nat) list" where
  "example_estimates = [(''3'', 7), (''x'', 2), (''10'', 9)]"

theorem convert_fee_rate_best_witness:
  "convert_fee_rate example_fee_lib 5 example_estimates = 7 \<and>
   (\<exists>k. known_estimate example_estimates k 7 \<and> k \<le> 5)"
proof -
  have rate: "convert_fee_rate example_fee_lib 5 example_estimates = 7"
    by (simp add: convert_fee_rate_def example_estimates_def usize_from_str_def to_digit_def
        u64_max_def List.map_filter_def)
  have "7 \<noteq> rate_one example_fee_lib" by (simp add: example_fee_lib_def)
  with rate convert_fee_rate_best [of example_estimates example_fee_lib 5] show ?thesis by metis
qed

definition feerate :: "'f fee_lib \<Rightarrow> (string \<times> 'f) list \<Rightarrow> ConfirmationTarget \<Rightarrow> u32" where
  "feerate lib estimates t =
     max (fee_wu_1000 lib (convert_fee_rate lib (num_blocks_target t) estimates)) (FEERATE_FLOOR_SATS_PER_KW lib)"

lemma get_store_fee:
  "get_est_sat_per_1000_weight (store_fee t n c) t' =
     (if t = t' then n else get_est_sat_per_1000_weight c t')"
  by (cases t; cases t') simp_all

text \<open>After a successful refresh every target reads the estimate computed for that target, never
  below LDK's fee floor; a failed request leaves the cache as it was.\<close>

theorem refresh_all_fee_estimates_correct:
  "get_est_sat_per_1000_weight (snd (refresh_all_fee_estimates lib (Inr estimates) c)) t =
     feerate lib estimates t \<and>
   FEERATE_FLOOR_SATS_PER_KW lib
     \<le> get_est_sat_per_1000_weight (snd (refresh_all_fee_estimates lib (Inr estimates) c)) t \<and>
   refresh_all_fee_estimates lib (Inl ()) c = (Inl (), c)"
  by (cases t)
    (simp_all add: refresh_all_fee_estimates_def ALL_CONF_TARGETS_def refresh_single_fee_estimate_def
      get_store_fee feerate_def)

end
