(* ===== verification/Payment_Lifecycle.thy ===== *)
theory Payment_Lifecycle
  imports Esplora
begin

text \<open>
  The contract that every payment type of \<^verbatim>\<open>lexe-ln/src/payments\<close> keeps and that the payments manager
  relies on.  A payment type offers an id, a creation time, a general status, a finalization time
  and a relation of the state transitions its \<^verbatim>\<open>check_*\<close> methods allow.
\<close>

section \<open>The invariant of \<^verbatim>\<open>assert_invariants\<close>\<close>

definition finalized_iff :: "PaymentStatus \<Rightarrow> TimestampMs option \<Rightarrow> bool" where
  "finalized_iff status finalized_at =
     (case status of
        Pending \<Rightarrow> finalized_at = None
      | Completed \<Rightarrow> finalized_at \<noteq> None
      | Failed \<Rightarrow> finalized_at \<noteq> None)"

lemma finalized_iff_simps [simp]:
  "finalized_iff Pending f \<longleftrightarrow> f = None"
  "finalized_iff Completed f \<longleftrightarrow> f \<noteq> None"
  "finalized_iff Failed f \<longleftrightarrow> f \<noteq> None"
  by (simp_all add: finalized_iff_def)

lemma finalized_iff_alt: "finalized_iff s f \<longleftrightarrow> (s = Pending \<longleftrightarrow> f = None)"
  by (cases s) auto

section \<open>Lifecycles\<close>

locale payment_lifecycle =
  fixes pid :: "'p \<Rightarrow> LxPaymentId"
    and pcreated :: "'p \<Rightarrow> TimestampMs"
    and pstatus :: "'p \<Rightarrow> PaymentStatus"
    and pfinalized :: "'p \<Rightarrow> TimestampMs option"
    and step :: "'p \<Rightarrow> 'p \<Rightarrow> bool"
  assumes step_id: "step p q \<Longrightarrow> pid q = pid p"
    and step_created: "step p q \<Longrightarrow> pcreated q = pcreated p"
    and step_pending: "step p q \<Longrightarrow> pstatus p = Pending"
    and step_sound:
      "step p q \<Longrightarrow> finalized_iff (pstatus p) (pfinalized p) \<Longrightarrow> finalized_iff (pstatus q) (pfinalized q)"
begin

lemma steps_id: "step\<^sup>*\<^sup>* p q \<Longrightarrow> pid q = pid p"
  by (induction rule: rtranclp_induct) (auto dest: step_id)

lemma steps_created: "step\<^sup>*\<^sup>* p q \<Longrightarrow> pcreated q = pcreated p"
  by (induction rule: rtranclp_induct) (auto dest: step_created)

lemma steps_sound:
  "step\<^sup>*\<^sup>* p q \<Longrightarrow> finalized_iff (pstatus p) (pfinalized p) \<Longrightarrow> finalized_iff (pstatus q) (pfinalized q)"
  by (induction rule: rtranclp_induct) (auto intro: step_sound)

lemma final_stuck: "pstatus p \<noteq> Pending \<Longrightarrow> \<not> step p q"
  using step_pending by blast

lemma final_forever: "step\<^sup>*\<^sup>* p q \<Longrightarrow> pstatus p \<noteq> Pending \<Longrightarrow> q = p"
  by (induction rule: converse_rtranclp_induct) (auto dest: step_pending)

text \<open>A completed payment never fails, a failed one never completes.\<close>

lemma outcome_unique:
  "step\<^sup>*\<^sup>* p q \<Longrightarrow> step\<^sup>*\<^sup>* q r \<Longrightarrow> pstatus q \<noteq> Pending \<Longrightarrow> pstatus r = pstatus q"
  using final_forever by blast

lemma steps_pending_before: "step\<^sup>+\<^sup>+ p q \<Longrightarrow> pstatus p = Pending"
  by (drule tranclpD) (auto dest: step_pending)

end

end
