(* ===== verification/Onchain.thy ===== *)
theory Onchain
  imports Payment_Lifecycle
begin

text \<open>
  \<^verbatim>\<open>lexe-ln/src/payments/onchain.rs\<close>: on-chain sends and receives.  \<open>txid_of\<close> stands for
  \<^verbatim>\<open>Transaction::txid\<close> of the \<^verbatim>\<open>bitcoin\<close> crate and \<open>now\<close> for the value \<^verbatim>\<open>TimestampMs::now()\<close> returns.
\<close>

definition ONCHAIN_CONFIRMATION_THRESHOLD :: u32 where
  "ONCHAIN_CONFIRMATION_THRESHOLD = 6"

section \<open>On-chain sends\<close>

datatype OnchainSendStatus =
    Created | Broadcasted | ReplacementBroadcasted | PartiallyConfirmed | PartiallyReplaced
  | FullyConfirmed | FullyReplaced | Dropped

record OnchainSend =
  os_cid :: ClientPaymentId
  os_txid :: LxTxid
  os_tx :: Transaction
  os_replacement :: "LxTxid option"
  os_priority :: ConfirmationPriority
  os_amount :: Amount
  os_fees :: Amount
  os_status :: OnchainSendStatus
  os_created_at :: TimestampMs
  os_note :: "string option"
  os_finalized_at :: "TimestampMs option"

datatype OnchainError =
    TxidsDontMatch | AlreadyHasConfirmations | WasBeingReplaced | AlreadyPartiallyReplaced
  | TxWasFinal | AlreadyFinalized

record PayOnchainRequest =
  req_cid :: ClientPaymentId
  req_address :: string
  req_amount :: Amount
  req_priority :: ConfirmationPriority
  req_note :: "string option"

definition os_new ::
    "(Transaction \<Rightarrow> LxTxid) \<Rightarrow> TimestampMs \<Rightarrow> Transaction \<Rightarrow> PayOnchainRequest \<Rightarrow> Amount \<Rightarrow> OnchainSend" where
  "os_new txid_of now tx req fees =
     \<lparr>os_cid = req_cid req, os_txid = txid_of tx, os_tx = tx, os_replacement = None,
      os_priority = req_priority req, os_amount = req_amount req, os_fees = fees,
      os_status = Created, os_created_at = now, os_note = req_note req, os_finalized_at = None\<rparr>"

definition os_id :: "OnchainSend \<Rightarrow> LxPaymentId" where
  "os_id p = LxPaymentId.OnchainSend (os_cid p)"

definition os_broadcasted :: "LxTxid \<Rightarrow> OnchainSend \<Rightarrow> OnchainError + OnchainSend" where
  "os_broadcasted broadcasted_txid p =
     ensure (broadcasted_txid = os_txid p) TxidsDontMatch
       (let ok = Inr (p\<lparr>os_status := Broadcasted\<rparr>)
        in case os_status p of
             Created \<Rightarrow> ok
           | Broadcasted \<Rightarrow> ok
           | PartiallyConfirmed \<Rightarrow> Inl AlreadyHasConfirmations
           | ReplacementBroadcasted \<Rightarrow> Inl WasBeingReplaced
           | PartiallyReplaced \<Rightarrow> Inl AlreadyPartiallyReplaced
           | FullyConfirmed \<Rightarrow> Inl TxWasFinal
           | FullyReplaced \<Rightarrow> Inl TxWasFinal
           | OnchainSendStatus.Dropped \<Rightarrow> Inl TxWasFinal)"

fun conf_replacement :: "TxConfStatus \<Rightarrow> LxTxid option" where
  "conf_replacement (HasReplacement _ rp_txid) = Some rp_txid"
| "conf_replacement _ = None"

fun os_new_status :: "OnchainSendStatus \<Rightarrow> TxConfStatus \<Rightarrow> OnchainSendStatus" where
  "os_new_status s ZeroConf =
     (case s of
        Broadcasted \<Rightarrow> Broadcasted
      | ReplacementBroadcasted \<Rightarrow> ReplacementBroadcasted
      | _ \<Rightarrow> Broadcasted)"
| "os_new_status s (InBestChain confs) =
     (if confs < ONCHAIN_CONFIRMATION_THRESHOLD then PartiallyConfirmed else FullyConfirmed)"
| "os_new_status s (HasReplacement confs _) =
     (if confs < ONCHAIN_CONFIRMATION_THRESHOLD then PartiallyReplaced else FullyReplaced)"
| "os_new_status s TxConfStatus.Dropped = OnchainSendStatus.Dropped"

definition os_update :: "TimestampMs \<Rightarrow> TxConfStatus \<Rightarrow> OnchainSend \<Rightarrow> OnchainSend option" where
  "os_update now conf_status p =
     (let new_status = os_new_status (os_status p) conf_status;
          new_replacement = conf_replacement conf_status
      in if os_status p = new_status \<and> os_replacement p = new_replacement then None
         else
           (let clone = p\<lparr>os_status := new_status, os_replacement := new_replacement\<rparr>
            in Some
                 (if new_status \<in> {FullyConfirmed, FullyReplaced, OnchainSendStatus.Dropped}
                  then clone\<lparr>os_finalized_at := Some now\<rparr> else clone)))"

definition os_check_onchain_conf ::
    "TimestampMs \<Rightarrow> TxConfStatus \<Rightarrow> OnchainSend \<Rightarrow> OnchainError + OnchainSend option" where
  "os_check_onchain_conf now conf_status p =
     (case os_status p of
        Created \<Rightarrow> Inr None
      | Broadcasted \<Rightarrow> Inr (os_update now conf_status p)
      | PartiallyConfirmed \<Rightarrow> Inr (os_update now conf_status p)
      | ReplacementBroadcasted \<Rightarrow> Inr (os_update now conf_status p)
      | PartiallyReplaced \<Rightarrow> Inr (os_update now conf_status p)
      | FullyConfirmed \<Rightarrow> Inl AlreadyFinalized
      | FullyReplaced \<Rightarrow> Inl AlreadyFinalized
      | OnchainSendStatus.Dropped \<Rightarrow> Inl AlreadyFinalized)"

text \<open>\<open>None\<close> is the panic of converting an out-of-range timestamp.\<close>

definition os_to_tx_conf_query :: "OnchainSend \<Rightarrow> TxConfQuery option" where
  "os_to_tx_conf_query p =
     map_option (\<lambda>t. \<lparr>q_txid = os_txid p, q_inputs = tx_input (os_tx p), q_created_at = t\<rparr>)
       (into_system_time (os_created_at p))"

fun os_payment_status :: "OnchainSendStatus \<Rightarrow> PaymentStatus" where
  "os_payment_status Created = Pending"
| "os_payment_status Broadcasted = Pending"
| "os_payment_status PartiallyConfirmed = Pending"
| "os_payment_status ReplacementBroadcasted = Pending"
| "os_payment_status PartiallyReplaced = Pending"
| "os_payment_status FullyConfirmed = Completed"
| "os_payment_status FullyReplaced = Failed"
| "os_payment_status OnchainSendStatus.Dropped = Failed"

fun os_status_str :: "OnchainSendStatus \<Rightarrow> string" where
  "os_status_str Created = ''created''"
| "os_status_str Broadcasted = ''broadcasted''"
| "os_status_str PartiallyConfirmed = ''partially confirmed (1-5 confirmations)''"
| "os_status_str ReplacementBroadcasted = ''being replaced''"
| "os_status_str PartiallyReplaced = ''being replaced (replacement has 1-5 confirmations)''"
| "os_status_str FullyConfirmed = ''fully confirmed (6+ confirmations)''"
| "os_status_str FullyReplaced = ''fully replaced (replacement has 6+ confirmations)''"
| "os_status_str OnchainSendStatus.Dropped = ''dropped from mempool''"

text \<open>The transitions of a send: the two \<^verbatim>\<open>check\<close>-style methods.\<close>

inductive os_step :: "OnchainSend \<Rightarrow> OnchainSend \<Rightarrow> bool" where
  broadcast: "os_broadcasted txid p = Inr q \<Longrightarrow> os_step p q"
| conf: "os_check_onchain_conf now conf_status p = Inr (Some q) \<Longrightarrow> os_step p q"

section \<open>On-chain receives\<close>

datatype OnchainReceiveStatus =
    Zeroconf | PartiallyConfirmed | PartiallyReplaced | FullyConfirmed | FullyReplaced | Dropped

record OnchainReceive =
  or_txid :: LxTxid
  or_tx :: Transaction
  or_replacement :: "LxTxid option"
  or_amount :: Amount
  or_status :: OnchainReceiveStatus
  or_created_at :: TimestampMs
  or_note :: "string option"
  or_finalized_at :: "TimestampMs option"

definition or_new ::
    "(Transaction \<Rightarrow> LxTxid) \<Rightarrow> TimestampMs \<Rightarrow> Transaction \<Rightarrow> Amount \<Rightarrow> OnchainReceive" where
  "or_new txid_of now tx amount =
     \<lparr>or_txid = txid_of tx, or_tx = tx, or_replacement = None, or_amount = amount,
      or_status = Zeroconf, or_created_at = now, or_note = None, or_finalized_at = None\<rparr>"

definition or_id :: "OnchainReceive \<Rightarrow> LxPaymentId" where
  "or_id p = OnchainRecv (or_txid p)"

fun or_new_status :: "TxConfStatus \<Rightarrow> OnchainReceiveStatus" where
  "or_new_status ZeroConf = Zeroconf"
| "or_new_status (InBestChain confs) =
     (if confs < ONCHAIN_CONFIRMATION_THRESHOLD then OnchainReceiveStatus.PartiallyConfirmed
      else OnchainReceiveStatus.FullyConfirmed)"
| "or_new_status (HasReplacement confs _) =
     (if confs < ONCHAIN_CONFIRMATION_THRESHOLD then OnchainReceiveStatus.PartiallyReplaced
      else OnchainReceiveStatus.FullyReplaced)"
| "or_new_status TxConfStatus.Dropped = OnchainReceiveStatus.Dropped"

definition or_update :: "TimestampMs \<Rightarrow> TxConfStatus \<Rightarrow> OnchainReceive \<Rightarrow> OnchainReceive option" where
  "or_update now conf_status p =
     (let new_status = or_new_status conf_status;
          new_replacement = conf_replacement conf_status
      in if or_status p = new_status \<and> or_replacement p = new_replacement then None
         else
           (let clone = p\<lparr>or_status := new_status, or_replacement := new_replacement\<rparr>
            in Some
                 (if new_status \<in> {OnchainReceiveStatus.FullyConfirmed,
                     OnchainReceiveStatus.FullyReplaced, OnchainReceiveStatus.Dropped}
                  then clone\<lparr>or_finalized_at := Some now\<rparr> else clone)))"

definition or_check_onchain_conf ::
    "TimestampMs \<Rightarrow> TxConfStatus \<Rightarrow> OnchainReceive \<Rightarrow> OnchainError + OnchainReceive option" where
  "or_check_onchain_conf now conf_status p =
     (case or_status p of
        Zeroconf \<Rightarrow> Inr (or_update now conf_status p)
      | OnchainReceiveStatus.PartiallyConfirmed \<Rightarrow> Inr (or_update now conf_status p)
      | OnchainReceiveStatus.PartiallyReplaced \<Rightarrow> Inr (or_update now conf_status p)
      | OnchainReceiveStatus.FullyConfirmed \<Rightarrow> Inl AlreadyFinalized
      | OnchainReceiveStatus.FullyReplaced \<Rightarrow> Inl AlreadyFinalized
      | OnchainReceiveStatus.Dropped \<Rightarrow> Inl AlreadyFinalized)"

definition or_to_tx_conf_query :: "OnchainReceive \<Rightarrow> TxConfQuery option" where
  "or_to_tx_conf_query p =
     map_option (\<lambda>t. \<lparr>q_txid = or_txid p, q_inputs = tx_input (or_tx p), q_created_at = t\<rparr>)
       (into_system_time (or_created_at p))"

fun or_payment_status :: "OnchainReceiveStatus \<Rightarrow> PaymentStatus" where
  "or_payment_status Zeroconf = Pending"
| "or_payment_status OnchainReceiveStatus.PartiallyConfirmed = Pending"
| "or_payment_status OnchainReceiveStatus.PartiallyReplaced = Pending"
| "or_payment_status OnchainReceiveStatus.FullyConfirmed = Completed"
| "or_payment_status OnchainReceiveStatus.FullyReplaced = Failed"
| "or_payment_status OnchainReceiveStatus.Dropped = Failed"

fun or_status_str :: "OnchainReceiveStatus \<Rightarrow> string" where
  "or_status_str Zeroconf = ''in mempool awaiting confirmations''"
| "or_status_str OnchainReceiveStatus.PartiallyConfirmed = ''partially confirmed (1-5 confirmations)''"
| "or_status_str OnchainReceiveStatus.PartiallyReplaced =
     ''being replaced (replacement has 1-5 confirmations)''"
| "or_status_str OnchainReceiveStatus.FullyConfirmed = ''fully confirmed (6+ confirmations)''"
| "or_status_str OnchainReceiveStatus.FullyReplaced =
     ''fully replaced (replacement has 6+ confirmations)''"
| "or_status_str OnchainReceiveStatus.Dropped = ''dropped from mempool''"

inductive or_step :: "OnchainReceive \<Rightarrow> OnchainReceive \<Rightarrow> bool" where
  conf: "or_check_onchain_conf now conf_status p = Inr (Some q) \<Longrightarrow> or_step p q"

section \<open>What a confirmation status does to a payment\<close>

text \<open>The general status that a confirmation status entails.\<close>

fun conf_outcome :: "TxConfStatus \<Rightarrow> PaymentStatus" where
  "conf_outcome ZeroConf = Pending"
| "conf_outcome (InBestChain confs) = (if unat confs < 6 then Pending else Completed)"
| "conf_outcome (HasReplacement confs _) = (if unat confs < 6 then Pending else Failed)"
| "conf_outcome TxConfStatus.Dropped = Failed"

lemma threshold_less: "confs < ONCHAIN_CONFIRMATION_THRESHOLD \<longleftrightarrow> unat confs < 6"
  by (simp add: ONCHAIN_CONFIRMATION_THRESHOLD_def word_less_nat_alt)

lemma os_new_status_outcome: "os_payment_status (os_new_status s c) = conf_outcome c"
  by (cases c) (auto simp: threshold_less split: OnchainSendStatus.split)

lemma or_new_status_outcome: "or_payment_status (or_new_status c) = conf_outcome c"
  by (cases c) (auto simp: threshold_less)

lemma os_final_iff:
  "s \<in> {OnchainSendStatus.FullyConfirmed, OnchainSendStatus.FullyReplaced, OnchainSendStatus.Dropped}
     \<longleftrightarrow> os_payment_status s \<noteq> Pending"
  by (cases s) simp_all

lemma or_final_iff:
  "s \<in> {OnchainReceiveStatus.FullyConfirmed, OnchainReceiveStatus.FullyReplaced,
      OnchainReceiveStatus.Dropped} \<longleftrightarrow> or_payment_status s \<noteq> Pending"
  by (cases s) simp_all

lemma os_update_eq:
  "os_update now c p =
     (if os_status p = os_new_status (os_status p) c \<and> os_replacement p = conf_replacement c then None
      else Some (p\<lparr>os_status := os_new_status (os_status p) c, os_replacement := conf_replacement c,
        os_finalized_at := if conf_outcome c = Pending then os_finalized_at p else Some now\<rparr>))"
  unfolding os_update_def os_final_iff Let_def os_new_status_outcome by simp

lemma or_update_eq:
  "or_update now c p =
     (if or_status p = or_new_status c \<and> or_replacement p = conf_replacement c then None
      else Some (p\<lparr>or_status := or_new_status c, or_replacement := conf_replacement c,
        or_finalized_at := if conf_outcome c = Pending then or_finalized_at p else Some now\<rparr>))"
  unfolding or_update_def or_final_iff Let_def or_new_status_outcome by simp

lemma os_check_onchain_conf_eq:
  "os_check_onchain_conf now c p =
     (if os_payment_status (os_status p) \<noteq> Pending then Inl AlreadyFinalized
      else if os_status p = Created then Inr None
      else Inr (os_update now c p))"
  by (cases "os_status p") (simp_all add: os_check_onchain_conf_def)

lemma or_check_onchain_conf_eq:
  "or_check_onchain_conf now c p =
     (if or_payment_status (or_status p) \<noteq> Pending then Inl AlreadyFinalized
      else Inr (or_update now c p))"
  by (cases "or_status p") (simp_all add: or_check_onchain_conf_def)

lemma os_broadcasted_ok:
  "os_broadcasted t p = Inr q \<longleftrightarrow>
     t = os_txid p \<and> (os_status p = Created \<or> os_status p = Broadcasted) \<and>
     q = p\<lparr>os_status := Broadcasted\<rparr>"
  by (cases "os_status p") (auto simp: os_broadcasted_def)

lemma os_new_status_again:
  "conf_outcome c = Pending \<Longrightarrow> os_new_status (os_new_status s c) c = os_new_status s c"
  by (cases c) (auto simp: threshold_less split: OnchainSendStatus.split)

interpretation onchain_send: payment_lifecycle
  os_id os_created_at "\<lambda>p. os_payment_status (os_status p)" os_finalized_at os_step
  by unfold_locales
    (auto simp: os_id_def os_broadcasted_ok os_check_onchain_conf_eq os_update_eq
      os_new_status_outcome finalized_iff_alt elim!: os_step.cases split: if_splits)

interpretation onchain_recv: payment_lifecycle
  or_id or_created_at "\<lambda>p. or_payment_status (or_status p)" or_finalized_at or_step
  by unfold_locales
    (auto simp: or_id_def or_check_onchain_conf_eq or_update_eq or_new_status_outcome
      finalized_iff_alt elim!: or_step.cases split: if_splits)

text \<open>C22: A pending on-chain send that was broadcasted always accepts a confirmation status; the
  payment it leaves has the outcome the status entails (completed with 6 or more confirmations,
  failed when dropped or replaced with 6 or more, pending otherwise) and records the replacement,
  a finalization time is set exactly when it becomes final, nothing else changes, and checking the
  same status again changes nothing.\<close>

theorem os_check_onchain_conf_correct:
  assumes "os_payment_status (os_status p) = Pending" and "os_status p \<noteq> Created"
    and "os_finalized_at p = None"
  shows "\<exists>r. os_check_onchain_conf now c p = Inr r \<and>
    (let q = (case r of None \<Rightarrow> p | Some q \<Rightarrow> q) in
       os_payment_status (os_status q) = conf_outcome c \<and> os_replacement q = conf_replacement c \<and>
       os_finalized_at q = (if conf_outcome c = Pending then None else Some now) \<and>
       q\<lparr>os_status := os_status p, os_replacement := os_replacement p, os_finalized_at := None\<rparr> = p \<and>
       (conf_outcome c = Pending \<longrightarrow> os_check_onchain_conf now' c q = Inr None))"
proof (cases "os_update now c p")
  case None
  then have same: "os_status p = os_new_status (os_status p) c" "os_replacement p = conf_replacement c"
    by (auto simp: os_update_eq split: if_splits)
  then have "conf_outcome c = Pending"
    using assms(1) os_new_status_outcome by metis
  with same None assms show ?thesis
    by (simp add: os_check_onchain_conf_eq os_update_eq)
next
  case (Some q)
  then have q: "q = p\<lparr>os_status := os_new_status (os_status p) c, os_replacement := conf_replacement c,
      os_finalized_at := if conf_outcome c = Pending then None else Some now\<rparr>"
    using assms(3) by (auto simp: os_update_eq split: if_splits)
  have "os_new_status (os_status p) c \<noteq> Created"
    by (cases c) (auto split: OnchainSendStatus.split)
  with Some q assms show ?thesis
    by (simp add: os_check_onchain_conf_eq os_update_eq os_new_status_outcome os_new_status_again)
qed

definition example_send :: OnchainSend where
  "example_send =
     (os_new (\<lambda>_. LxTxid [7]) (TimestampMs 5) \<lparr>tx_input = [], tx_rest = []\<rparr>
       \<lparr>req_cid = ClientPaymentId [1], req_address = ''bc1q'', req_amount = amount_zero,
        req_priority = PNormal, req_note = None\<rparr> amount_zero)\<lparr>os_status := Broadcasted\<rparr>"

theorem os_check_onchain_conf_correct_witness:
  "\<exists>q. os_check_onchain_conf (TimestampMs 9) (InBestChain 6) example_send = Inr (Some q) \<and>
     os_payment_status (os_status q) = Completed \<and> os_replacement q = None \<and>
     os_finalized_at q = Some (TimestampMs 9)"
proof -
  have "os_payment_status (os_status example_send) = Pending" "os_status example_send \<noteq> Created"
    "os_finalized_at example_send = None"
    by (simp_all add: example_send_def os_new_def)
  note facts = this
  from os_check_onchain_conf_correct [OF this, where now = "TimestampMs 9" and c = "InBestChain 6" and now' = "TimestampMs 10"]
  obtain r where "os_check_onchain_conf (TimestampMs 9) (InBestChain 6) example_send = Inr r"
    and "os_payment_status (os_status (case r of None \<Rightarrow> example_send | Some q \<Rightarrow> q)) = Completed"
    and "os_replacement (case r of None \<Rightarrow> example_send | Some q \<Rightarrow> q) = None"
    and "os_finalized_at (case r of None \<Rightarrow> example_send | Some q \<Rightarrow> q) = Some (TimestampMs 9)"
    by (auto simp: Let_def)
  with facts show ?thesis by (cases r) auto
qed

text \<open>The same for a pending on-chain receive: every confirmation status is accepted, decides the
  outcome, sets the replacement and the finalization time, and is idempotent while pending.\<close>

theorem or_check_onchain_conf_correct:
  assumes "or_payment_status (or_status p) = Pending" and "or_finalized_at p = None"
  shows "\<exists>r. or_check_onchain_conf now c p = Inr r \<and>
    (let q = (case r of None \<Rightarrow> p | Some q \<Rightarrow> q) in
       or_payment_status (or_status q) = conf_outcome c \<and> or_replacement q = conf_replacement c \<and>
       or_finalized_at q = (if conf_outcome c = Pending then None else Some now) \<and>
       q\<lparr>or_status := or_status p, or_replacement := or_replacement p, or_finalized_at := None\<rparr> = p \<and>
       (conf_outcome c = Pending \<longrightarrow> or_check_onchain_conf now' c q = Inr None))"
proof (cases "or_update now c p")
  case None
  then have same: "or_status p = or_new_status c" "or_replacement p = conf_replacement c"
    by (auto simp: or_update_eq split: if_splits)
  then have "conf_outcome c = Pending"
    using assms(1) or_new_status_outcome by metis
  with same None assms show ?thesis
    by (simp add: or_check_onchain_conf_eq or_update_eq)
next
  case (Some q)
  then have "q = p\<lparr>or_status := or_new_status c, or_replacement := conf_replacement c,
      or_finalized_at := if conf_outcome c = Pending then None else Some now\<rparr>"
    using assms(2) by (auto simp: or_update_eq split: if_splits)
  with Some assms show ?thesis
    by (simp add: or_check_onchain_conf_eq or_update_eq or_new_status_outcome)
qed

definition example_recv :: OnchainReceive where
  "example_recv =
     or_new (\<lambda>_. LxTxid [8]) (TimestampMs 5) \<lparr>tx_input = [], tx_rest = []\<rparr> amount_zero"

theorem or_check_onchain_conf_correct_witness:
  "\<exists>q. or_check_onchain_conf (TimestampMs 9) (HasReplacement 2 (LxTxid [3])) example_recv = Inr (Some q) \<and>
     or_payment_status (or_status q) = Pending \<and> or_replacement q = Some (LxTxid [3]) \<and>
     or_finalized_at q = None"
proof -
  have "or_payment_status (or_status example_recv) = Pending" "or_finalized_at example_recv = None"
    and "or_replacement example_recv = None"
    by (simp_all add: example_recv_def or_new_def)
  note facts = this
  from or_check_onchain_conf_correct [OF this(1,2), where now = "TimestampMs 9"
      and c = "HasReplacement 2 (LxTxid [3])" and now' = "TimestampMs 10"]
  obtain r where "or_check_onchain_conf (TimestampMs 9) (HasReplacement 2 (LxTxid [3])) example_recv = Inr r"
    and "or_payment_status (or_status (case r of None \<Rightarrow> example_recv | Some q \<Rightarrow> q)) = Pending"
    and "or_replacement (case r of None \<Rightarrow> example_recv | Some q \<Rightarrow> q) = Some (LxTxid [3])"
    and "or_finalized_at (case r of None \<Rightarrow> example_recv | Some q \<Rightarrow> q) = None"
    by (auto simp: Let_def)
  with facts show ?thesis by (cases r) auto
qed

end
