(* ===== verification/Inbound.thy ===== *)
theory Inbound
  imports Payment_Lifecycle
begin

text \<open>
  \<^verbatim>\<open>lexe-ln/src/payments/inbound.rs\<close>: inbound Lightning payments.  \<open>lib\<close> is the invoice library,
  \<open>clock\<close> the system time that \<^verbatim>\<open>is_expired\<close> reads and \<open>now\<close> the value of \<^verbatim>\<open>TimestampMs::now()\<close>.
\<close>

section \<open>Purpose\<close>

text \<open>LDK's \<^verbatim>\<open>PaymentPurpose\<close>, as it arrives with the events.\<close>

datatype PaymentPurpose =
    InvoicePayment "bytes option" bytes
  | SpontaneousPayment bytes

datatype LxPaymentPurpose =
    Invoice (preimage: LxPaymentPreimage) LxPaymentSecret
  | Spontaneous (preimage: LxPaymentPreimage)

datatype InboundError =
    MissingPreimage | HashesDontMatch | PreimagesDontMatch | SecretsDontMatch | AmountsDontMatch
  | InvoiceAlreadyExpired | AlreadyFinal | AlreadyClaimed | AlreadyExpired

fun purpose_try_from :: "PaymentPurpose \<Rightarrow> InboundError + LxPaymentPurpose" where
  "purpose_try_from (InvoicePayment payment_preimage payment_secret) =
     and_then (ok_or MissingPreimage (map_option LxPaymentPreimage payment_preimage)) (\<lambda>pre.
       Inr (LxPaymentPurpose.Invoice pre (LxPaymentSecret payment_secret)))"
| "purpose_try_from (SpontaneousPayment payment_preimage) =
     Inr (LxPaymentPurpose.Spontaneous (LxPaymentPreimage payment_preimage))"

section \<open>Inbound invoice payments\<close>

datatype InboundInvoicePaymentStatus = InvoiceGenerated | Claiming | Completed | Expired

record InboundInvoicePayment =
  iip_invoice :: LxInvoice
  iip_hash :: LxPaymentHash
  iip_secret :: LxPaymentSecret
  iip_preimage :: LxPaymentPreimage
  iip_invoice_amount :: "Amount option"
  iip_recvd_amount :: "Amount option"
  iip_onchain_fees :: "Amount option"
  iip_status :: InboundInvoicePaymentStatus
  iip_note :: "string option"
  iip_created_at :: TimestampMs
  iip_finalized_at :: "TimestampMs option"

text \<open>\<open>None\<close> is a panic of \<^verbatim>\<open>Amount::from_msat\<close>.\<close>

definition iip_new ::
    "invoice_lib \<Rightarrow> decimal_ops \<Rightarrow> TimestampMs \<Rightarrow> LxInvoice \<Rightarrow> LxPaymentHash \<Rightarrow> LxPaymentSecret \<Rightarrow>
     LxPaymentPreimage \<Rightarrow> InboundInvoicePayment option" where
  "iip_new lib ops now invoice hash secret pre =
     map_option (\<lambda>invoice_amount.
       \<lparr>iip_invoice = invoice, iip_hash = hash, iip_secret = secret, iip_preimage = pre,
        iip_invoice_amount = invoice_amount, iip_recvd_amount = None, iip_onchain_fees = None,
        iip_status = InvoiceGenerated, iip_note = None, iip_created_at = now,
        iip_finalized_at = None\<rparr>)
       (case bolt11_amount_milli_satoshis lib (bolt11 invoice) of
          None \<Rightarrow> Some None
        | Some m \<Rightarrow> map_option Some (from_msat ops m))"

definition iip_id :: "InboundInvoicePayment \<Rightarrow> LxPaymentId" where
  "iip_id p = Lightning (iip_hash p)"

definition iip_check_payment_claimable ::
    "invoice_lib \<Rightarrow> SystemTime \<Rightarrow> LxPaymentHash \<Rightarrow> LxPaymentSecret \<Rightarrow> LxPaymentPreimage \<Rightarrow> Amount \<Rightarrow>
     InboundInvoicePayment \<Rightarrow> InboundError + InboundInvoicePayment" where
  "iip_check_payment_claimable lib clock hash secret pre amount p =
     ensure (hash = iip_hash p) HashesDontMatch (
     ensure (pre = iip_preimage p) PreimagesDontMatch (
     ensure (secret = iip_secret p) SecretsDontMatch (
     ensure (\<not> invoice_is_expired lib clock (iip_invoice p)) InvoiceAlreadyExpired (
       let clone = Inr (p\<lparr>iip_recvd_amount := Some amount, iip_status := Claiming\<rparr>)
       in case iip_status p of
            InvoiceGenerated \<Rightarrow> clone
          | Claiming \<Rightarrow> clone
          | InboundInvoicePaymentStatus.Completed \<Rightarrow> Inl AlreadyFinal
          | InboundInvoicePaymentStatus.Expired \<Rightarrow> Inl AlreadyFinal))))"

definition iip_check_payment_claimed ::
    "TimestampMs \<Rightarrow> LxPaymentHash \<Rightarrow> LxPaymentSecret \<Rightarrow> LxPaymentPreimage \<Rightarrow> Amount \<Rightarrow>
     InboundInvoicePayment \<Rightarrow> InboundError + InboundInvoicePayment" where
  "iip_check_payment_claimed now hash secret pre amount p =
     ensure (hash = iip_hash p) HashesDontMatch (
     ensure (pre = iip_preimage p) PreimagesDontMatch (
     ensure (secret = iip_secret p) SecretsDontMatch (
       let clone = Inr (p\<lparr>iip_recvd_amount := Some amount,
             iip_status := InboundInvoicePaymentStatus.Completed, iip_finalized_at := Some now\<rparr>)
       in case iip_status p of
            InvoiceGenerated \<Rightarrow> clone
          | Claiming \<Rightarrow> clone
          | InboundInvoicePaymentStatus.Completed \<Rightarrow> Inl AlreadyClaimed
          | InboundInvoicePaymentStatus.Expired \<Rightarrow> Inl AlreadyExpired)))"

definition iip_check_invoice_expiry ::
    "invoice_lib \<Rightarrow> TimestampMs \<Rightarrow> Duration \<Rightarrow> InboundInvoicePayment \<Rightarrow> InboundInvoicePayment option" where
  "iip_check_invoice_expiry lib now unix_duration p =
     (if \<not> bolt11_would_expire lib (bolt11 (iip_invoice p)) unix_duration then None
      else case iip_status p of
        InvoiceGenerated \<Rightarrow>
          Some (p\<lparr>iip_status := InboundInvoicePaymentStatus.Expired, iip_finalized_at := Some now\<rparr>)
      | Claiming \<Rightarrow> None
      | InboundInvoicePaymentStatus.Completed \<Rightarrow> None
      | InboundInvoicePaymentStatus.Expired \<Rightarrow> None)"

fun iip_payment_status :: "InboundInvoicePaymentStatus \<Rightarrow> PaymentStatus" where
  "iip_payment_status InvoiceGenerated = Pending"
| "iip_payment_status Claiming = Pending"
| "iip_payment_status InboundInvoicePaymentStatus.Completed = PaymentStatus.Completed"
| "iip_payment_status InboundInvoicePaymentStatus.Expired = Failed"

fun iip_status_str :: "InboundInvoicePaymentStatus \<Rightarrow> string" where
  "iip_status_str InvoiceGenerated = ''invoice generated''"
| "iip_status_str Claiming = ''claiming''"
| "iip_status_str InboundInvoicePaymentStatus.Completed = ''completed''"
| "iip_status_str InboundInvoicePaymentStatus.Expired = ''invoice expired''"

inductive iip_step :: "InboundInvoicePayment \<Rightarrow> InboundInvoicePayment \<Rightarrow> bool" where
  claimable: "iip_check_payment_claimable lib clock hash secret pre amount p = Inr q \<Longrightarrow> iip_step p q"
| claimed: "iip_check_payment_claimed now hash secret pre amount p = Inr q \<Longrightarrow> iip_step p q"
| expiry: "iip_check_invoice_expiry lib now unix_duration p = Some q \<Longrightarrow> iip_step p q"

section \<open>Inbound spontaneous payments\<close>

datatype InboundSpontaneousPaymentStatus = Claiming | Completed

record InboundSpontaneousPayment =
  isp_hash :: LxPaymentHash
  isp_preimage :: LxPaymentPreimage
  isp_amount :: Amount
  isp_onchain_fees :: "Amount option"
  isp_status :: InboundSpontaneousPaymentStatus
  isp_note :: "string option"
  isp_created_at :: TimestampMs
  isp_finalized_at :: "TimestampMs option"

definition isp_new ::
    "TimestampMs \<Rightarrow> LxPaymentHash \<Rightarrow> LxPaymentPreimage \<Rightarrow> Amount \<Rightarrow> InboundSpontaneousPayment" where
  "isp_new now hash pre amount =
     \<lparr>isp_hash = hash, isp_preimage = pre, isp_amount = amount, isp_onchain_fees = None,
      isp_status = InboundSpontaneousPaymentStatus.Claiming, isp_note = None, isp_created_at = now,
      isp_finalized_at = None\<rparr>"

definition isp_id :: "InboundSpontaneousPayment \<Rightarrow> LxPaymentId" where
  "isp_id p = Lightning (isp_hash p)"

definition isp_check_payment_claimable ::
    "LxPaymentHash \<Rightarrow> LxPaymentPreimage \<Rightarrow> Amount \<Rightarrow> InboundSpontaneousPayment \<Rightarrow>
     InboundError + InboundSpontaneousPayment" where
  "isp_check_payment_claimable hash pre amount p =
     ensure (hash = isp_hash p) HashesDontMatch (
     ensure (amount_eq amount (isp_amount p)) AmountsDontMatch (
     ensure (pre = isp_preimage p) PreimagesDontMatch (
     ensure (isp_status p = InboundSpontaneousPaymentStatus.Claiming) AlreadyFinal (Inr p))))"

definition isp_check_payment_claimed ::
    "TimestampMs \<Rightarrow> LxPaymentHash \<Rightarrow> LxPaymentPreimage \<Rightarrow> Amount \<Rightarrow> InboundSpontaneousPayment \<Rightarrow>
     InboundError + InboundSpontaneousPayment" where
  "isp_check_payment_claimed now hash pre amount p =
     ensure (hash = isp_hash p) HashesDontMatch (
     ensure (pre = isp_preimage p) PreimagesDontMatch (
     ensure (amount_eq amount (isp_amount p)) AmountsDontMatch (
       case isp_status p of
         InboundSpontaneousPaymentStatus.Claiming \<Rightarrow>
           Inr (p\<lparr>isp_status := InboundSpontaneousPaymentStatus.Completed,
             isp_finalized_at := Some now\<rparr>)
       | InboundSpontaneousPaymentStatus.Completed \<Rightarrow> Inl AlreadyClaimed)))"

fun isp_payment_status :: "InboundSpontaneousPaymentStatus \<Rightarrow> PaymentStatus" where
  "isp_payment_status InboundSpontaneousPaymentStatus.Claiming = Pending"
| "isp_payment_status InboundSpontaneousPaymentStatus.Completed = PaymentStatus.Completed"

fun isp_status_str :: "InboundSpontaneousPaymentStatus \<Rightarrow> string" where
  "isp_status_str InboundSpontaneousPaymentStatus.Claiming = ''claiming''"
| "isp_status_str InboundSpontaneousPaymentStatus.Completed = ''completed''"

inductive isp_step :: "InboundSpontaneousPayment \<Rightarrow> InboundSpontaneousPayment \<Rightarrow> bool" where
  claimable: "isp_check_payment_claimable hash pre amount p = Inr q \<Longrightarrow> isp_step p q"
| claimed: "isp_check_payment_claimed now hash pre amount p = Inr q \<Longrightarrow> isp_step p q"

section \<open>Lifecycle\<close>

abbreviation iip_general :: "InboundInvoicePayment \<Rightarrow> PaymentStatus" where
  "iip_general p \<equiv> iip_payment_status (iip_status p)"

lemma iip_claimable_ok:
  "iip_check_payment_claimable lib clock hash secret pre amount p = Inr q \<longleftrightarrow>
     hash = iip_hash p \<and> pre = iip_preimage p \<and> secret = iip_secret p \<and>
     \<not> invoice_is_expired lib clock (iip_invoice p) \<and> iip_general p = Pending \<and>
     q = p\<lparr>iip_recvd_amount := Some amount, iip_status := InboundInvoicePaymentStatus.Claiming\<rparr>"
  by (cases "iip_status p") (auto simp: iip_check_payment_claimable_def)

lemma iip_claimed_ok:
  "iip_check_payment_claimed now hash secret pre amount p = Inr q \<longleftrightarrow>
     hash = iip_hash p \<and> pre = iip_preimage p \<and> secret = iip_secret p \<and> iip_general p = Pending \<and>
     q = p\<lparr>iip_recvd_amount := Some amount, iip_status := InboundInvoicePaymentStatus.Completed,
           iip_finalized_at := Some now\<rparr>"
  by (cases "iip_status p") (auto simp: iip_check_payment_claimed_def)

lemma iip_expiry_some:
  "iip_check_invoice_expiry lib now d p = Some q \<longleftrightarrow>
     bolt11_would_expire lib (bolt11 (iip_invoice p)) d \<and> iip_status p = InvoiceGenerated \<and>
     q = p\<lparr>iip_status := InboundInvoicePaymentStatus.Expired, iip_finalized_at := Some now\<rparr>"
  by (cases "iip_status p") (auto simp: iip_check_invoice_expiry_def)

lemma isp_claimable_ok:
  "isp_check_payment_claimable hash pre amount p = Inr q \<longleftrightarrow>
     hash = isp_hash p \<and> pre = isp_preimage p \<and> amount_eq amount (isp_amount p) \<and>
     isp_payment_status (isp_status p) = Pending \<and> q = p"
  by (cases "isp_status p") (auto simp: isp_check_payment_claimable_def)

lemma isp_claimed_ok:
  "isp_check_payment_claimed now hash pre amount p = Inr q \<longleftrightarrow>
     hash = isp_hash p \<and> pre = isp_preimage p \<and> amount_eq amount (isp_amount p) \<and>
     isp_payment_status (isp_status p) = Pending \<and>
     q = p\<lparr>isp_status := InboundSpontaneousPaymentStatus.Completed, isp_finalized_at := Some now\<rparr>"
  by (cases "isp_status p") (auto simp: isp_check_payment_claimed_def)

lemmas inbound_ok = iip_claimable_ok iip_claimed_ok iip_expiry_some isp_claimable_ok isp_claimed_ok

interpretation inbound_invoice: payment_lifecycle
  iip_id iip_created_at iip_general iip_finalized_at iip_step
  by unfold_locales
    (auto simp: iip_id_def inbound_ok finalized_iff_alt elim!: iip_step.cases)

interpretation inbound_spontaneous: payment_lifecycle
  isp_id isp_created_at "\<lambda>p. isp_payment_status (isp_status p)" isp_finalized_at isp_step
  by unfold_locales
    (auto simp: isp_id_def inbound_ok finalized_iff_alt elim!: isp_step.cases)

section \<open>Reachable inbound invoice payments\<close>

definition iip_details :: "InboundInvoicePayment \<Rightarrow>
    LxInvoice \<times> LxPaymentHash \<times> LxPaymentSecret \<times> LxPaymentPreimage \<times> Amount option" where
  "iip_details p = (iip_invoice p, iip_hash p, iip_secret p, iip_preimage p, iip_invoice_amount p)"

definition iip_received :: "InboundInvoicePayment \<Rightarrow> bool" where
  "iip_received p \<longleftrightarrow>
     iip_status p \<in> {InboundInvoicePaymentStatus.Claiming, InboundInvoicePaymentStatus.Completed}"

lemma iip_step_inv:
  assumes "iip_step p q" and "iip_recvd_amount p \<noteq> None \<longleftrightarrow> iip_received p"
  shows "iip_details q = iip_details p \<and> (iip_recvd_amount q \<noteq> None \<longleftrightarrow> iip_received q)"
  using assms
  by (auto simp: inbound_ok iip_details_def iip_received_def elim!: iip_step.cases)

lemma iip_steps_inv:
  assumes "iip_step\<^sup>*\<^sup>* p q" and "iip_recvd_amount p \<noteq> None \<longleftrightarrow> iip_received p"
  shows "iip_details q = iip_details p \<and> (iip_recvd_amount q \<noteq> None \<longleftrightarrow> iip_received q)"
  using assms(1)
proof (induction rule: rtranclp_induct)
  case base
  then show ?case using assms(2) by simp
next
  case (step q r)
  then show ?case using iip_step_inv by metis
qed

lemma iip_new_Some:
  "iip_new lib ops now invoice hash secret pre = Some p \<Longrightarrow>
     iip_status p = InvoiceGenerated \<and> iip_recvd_amount p = None \<and> iip_finalized_at p = None \<and>
     iip_details p = (invoice, hash, secret, pre, iip_invoice_amount p)"
  by (auto simp: iip_new_def iip_details_def)


definition example_iip :: InboundInvoicePayment where
  "example_iip =
     \<lparr>iip_invoice = LxInvoice ''lnbc'', iip_hash = LxPaymentHash [1], iip_secret = LxPaymentSecret [2],
      iip_preimage = LxPaymentPreimage [4], iip_invoice_amount = None, iip_recvd_amount = None,
      iip_onchain_fees = None, iip_status = InvoiceGenerated, iip_note = None,
      iip_created_at = TimestampMs 5, iip_finalized_at = None\<rparr>"

lemma example_iip_new:
  "iip_new unary_lib exact_ops (TimestampMs 5) (LxInvoice ''lnbc'') (LxPaymentHash [1])
     (LxPaymentSecret [2]) (LxPaymentPreimage [4]) = Some example_iip"
  by (simp add: iip_new_def unary_lib_def example_iip_def)

lemma example_iip_claims:
  "iip_step example_iip (example_iip\<lparr>iip_recvd_amount := Some amount_zero,
     iip_status := InboundInvoicePaymentStatus.Claiming\<rparr>)"
  by (rule iip_step.claimable
      [where lib = unary_lib and clock = 0 and hash = "LxPaymentHash [1]" and
        secret = "LxPaymentSecret [2]" and pre = "LxPaymentPreimage [4]" and amount = amount_zero])
    (simp add: iip_claimable_ok example_iip_def unary_lib_def invoice_is_expired_def)


end
