(* ===== verification/Outbound.thy ===== *)
theory Outbound
  imports Payment_Lifecycle
begin

text \<open>
  \<^verbatim>\<open>lexe-ln/src/payments/outbound.rs\<close>: outbound Lightning payments.  \<open>sha256\<close> is the hash function
  behind \<^verbatim>\<open>compute_hash\<close>; of LDK's \<^verbatim>\<open>Route\<close> only the two totals matter.
\<close>

section \<open>Failures\<close>

datatype PaymentFailureReason =
    RecipientRejected | UserAbandoned | RetriesExhausted | PaymentExpired | RouteNotFound
  | UnexpectedError

datatype LxOutboundPaymentFailure =
    NoRetries | Rejected | Abandoned | Expired | NoRoute | LexeErr | Unknown

fun failure_str :: "LxOutboundPaymentFailure \<Rightarrow> string" where
  "failure_str NoRetries = ''no successful payment after all retry attempts''"
| "failure_str Rejected = ''the recipient rejected our payment''"
| "failure_str Abandoned = ''the payment was canceled''"
| "failure_str LxOutboundPaymentFailure.Expired =
     ''the invoice expired before we could complete the payment''"
| "failure_str NoRoute = ''could not find usable route to send payment over''"
| "failure_str LexeErr = ''probable bug in LEXE user node payment router''"
| "failure_str Unknown = ''unknown error, app is likely out-of-date''"

fun failure_from_reason :: "PaymentFailureReason \<Rightarrow> LxOutboundPaymentFailure" where
  "failure_from_reason RecipientRejected = Rejected"
| "failure_from_reason UserAbandoned = Abandoned"
| "failure_from_reason RetriesExhausted = NoRetries"
| "failure_from_reason PaymentExpired = LxOutboundPaymentFailure.Expired"
| "failure_from_reason RouteNotFound = NoRoute"
| "failure_from_reason UnexpectedError = LexeErr"

section \<open>Outbound invoice payments\<close>

datatype OutboundInvoicePaymentStatus = Pending | Abandoning | Completed | Failed

record OutboundInvoicePayment =
  oip_invoice :: LxInvoice
  oip_hash :: LxPaymentHash
  oip_secret :: LxPaymentSecret
  oip_preimage :: "LxPaymentPreimage option"
  oip_amount :: Amount
  oip_fees :: Amount
  oip_status :: OutboundInvoicePaymentStatus
  oip_failure :: "LxOutboundPaymentFailure option"
  oip_note :: "string option"
  oip_created_at :: TimestampMs
  oip_finalized_at :: "TimestampMs option"

record Route =
  get_total_amount :: u64
  get_total_fees :: u64

datatype OutboundError = HashesDontMatch | PreimageDoesntCorrespond | AlreadyFinal

text \<open>\<open>None\<close> is a panic of \<^verbatim>\<open>Amount::from_msat\<close>.\<close>

definition oip_new ::
    "invoice_lib \<Rightarrow> decimal_ops \<Rightarrow> TimestampMs \<Rightarrow> LxInvoice \<Rightarrow> Route \<Rightarrow> string option \<Rightarrow>
     OutboundInvoicePayment option" where
  "oip_new lib ops now invoice route note =
     Option.bind (from_msat ops (get_total_amount route)) (\<lambda>amount.
     Option.bind (from_msat ops (get_total_fees route)) (\<lambda>fees.
       Some \<lparr>oip_invoice = invoice, oip_hash = invoice_payment_hash lib invoice,
         oip_secret = invoice_payment_secret lib invoice, oip_preimage = None,
         oip_amount = amount, oip_fees = fees,
         oip_status = OutboundInvoicePaymentStatus.Pending, oip_failure = None, oip_note = note,
         oip_created_at = now, oip_finalized_at = None\<rparr>))"

definition oip_id :: "OutboundInvoicePayment \<Rightarrow> LxPaymentId" where
  "oip_id p = Lightning (oip_hash p)"

definition oip_check_payment_sent ::
    "(bytes \<Rightarrow> bytes) \<Rightarrow> TimestampMs \<Rightarrow> LxPaymentHash \<Rightarrow> LxPaymentPreimage \<Rightarrow> Amount option \<Rightarrow>
     OutboundInvoicePayment \<Rightarrow> OutboundError + OutboundInvoicePayment" where
  "oip_check_payment_sent sha256 now hash pre maybe_fees_paid p =
     ensure (hash = oip_hash p) OutboundError.HashesDontMatch (
     ensure (hash = compute_hash sha256 pre) PreimageDoesntCorrespond (
       let final_fees = (case maybe_fees_paid of Some fees_paid \<Rightarrow> fees_paid | None \<Rightarrow> oip_fees p);
           clone = Inr (p\<lparr>oip_preimage := Some pre, oip_fees := final_fees,
             oip_status := OutboundInvoicePaymentStatus.Completed, oip_finalized_at := Some now\<rparr>)
       in case oip_status p of
            OutboundInvoicePaymentStatus.Pending \<Rightarrow> clone
          | Abandoning \<Rightarrow> clone
          | OutboundInvoicePaymentStatus.Completed \<Rightarrow> Inl OutboundError.AlreadyFinal
          | OutboundInvoicePaymentStatus.Failed \<Rightarrow> Inl OutboundError.AlreadyFinal))"

definition oip_check_payment_failed ::
    "TimestampMs \<Rightarrow> LxPaymentHash \<Rightarrow> LxOutboundPaymentFailure \<Rightarrow> OutboundInvoicePayment \<Rightarrow>
     OutboundError + OutboundInvoicePayment" where
  "oip_check_payment_failed now hash failure p =
     ensure (hash = oip_hash p) OutboundError.HashesDontMatch (
       let clone = Inr (p\<lparr>oip_status := OutboundInvoicePaymentStatus.Failed,
             oip_failure := Some failure, oip_finalized_at := Some now\<rparr>)
       in case oip_status p of
            OutboundInvoicePaymentStatus.Pending \<Rightarrow> clone
          | Abandoning \<Rightarrow> clone
          | OutboundInvoicePaymentStatus.Completed \<Rightarrow> Inl OutboundError.AlreadyFinal
          | OutboundInvoicePaymentStatus.Failed \<Rightarrow> Inl OutboundError.AlreadyFinal)"

definition oip_check_invoice_expiry ::
    "invoice_lib \<Rightarrow> Duration \<Rightarrow> OutboundInvoicePayment \<Rightarrow> OutboundInvoicePayment option" where
  "oip_check_invoice_expiry lib unix_duration p =
     (if \<not> bolt11_would_expire lib (bolt11 (oip_invoice p)) unix_duration then None
      else case oip_status p of
        OutboundInvoicePaymentStatus.Pending \<Rightarrow> Some (p\<lparr>oip_status := Abandoning\<rparr>)
      | Abandoning \<Rightarrow> None
      | OutboundInvoicePaymentStatus.Completed \<Rightarrow> None
      | OutboundInvoicePaymentStatus.Failed \<Rightarrow> None)"

fun oip_payment_status :: "OutboundInvoicePaymentStatus \<Rightarrow> PaymentStatus" where
  "oip_payment_status OutboundInvoicePaymentStatus.Pending = PaymentStatus.Pending"
| "oip_payment_status Abandoning = PaymentStatus.Pending"
| "oip_payment_status OutboundInvoicePaymentStatus.Completed = PaymentStatus.Completed"
| "oip_payment_status OutboundInvoicePaymentStatus.Failed = PaymentStatus.Failed"

fun oip_status_str :: "OutboundInvoicePaymentStatus \<Rightarrow> string" where
  "oip_status_str OutboundInvoicePaymentStatus.Pending = ''pending''"
| "oip_status_str Abandoning = ''abandoning''"
| "oip_status_str OutboundInvoicePaymentStatus.Completed = ''completed''"
| "oip_status_str OutboundInvoicePaymentStatus.Failed = ''failed''"

inductive oip_step :: "(bytes \<Rightarrow> bytes) \<Rightarrow> OutboundInvoicePayment \<Rightarrow> OutboundInvoicePayment \<Rightarrow> bool"
  for sha256 where
  sent: "oip_check_payment_sent sha256 now hash pre fees p = Inr q \<Longrightarrow> oip_step sha256 p q"
| failed: "oip_check_payment_failed now hash failure p = Inr q \<Longrightarrow> oip_step sha256 p q"
| expiry: "oip_check_invoice_expiry lib unix_duration p = Some q \<Longrightarrow> oip_step sha256 p q"

section \<open>Outbound spontaneous payments\<close>

text \<open>Sending spontaneous payments is not implemented in the code: the type has no transitions.\<close>

datatype OutboundSpontaneousPaymentStatus = Pending | Completed | Failed

record OutboundSpontaneousPayment =
  osp_hash :: LxPaymentHash
  osp_preimage :: LxPaymentPreimage
  osp_amount :: Amount
  osp_fees :: Amount
  osp_status :: OutboundSpontaneousPaymentStatus
  osp_note :: "string option"
  osp_created_at :: TimestampMs
  osp_finalized_at :: "TimestampMs option"

definition osp_id :: "OutboundSpontaneousPayment \<Rightarrow> LxPaymentId" where
  "osp_id p = Lightning (osp_hash p)"

fun osp_payment_status :: "OutboundSpontaneousPaymentStatus \<Rightarrow> PaymentStatus" where
  "osp_payment_status OutboundSpontaneousPaymentStatus.Pending = PaymentStatus.Pending"
| "osp_payment_status OutboundSpontaneousPaymentStatus.Completed = PaymentStatus.Completed"
| "osp_payment_status OutboundSpontaneousPaymentStatus.Failed = PaymentStatus.Failed"

fun osp_status_str :: "OutboundSpontaneousPaymentStatus \<Rightarrow> string" where
  "osp_status_str OutboundSpontaneousPaymentStatus.Pending = ''pending''"
| "osp_status_str OutboundSpontaneousPaymentStatus.Completed = ''completed''"
| "osp_status_str OutboundSpontaneousPaymentStatus.Failed = ''failed''"

section \<open>Lifecycle\<close>

abbreviation oip_general :: "OutboundInvoicePayment \<Rightarrow> PaymentStatus" where
  "oip_general p \<equiv> oip_payment_status (oip_status p)"

lemma oip_sent_ok:
  "oip_check_payment_sent sha256 now hash pre fees p = Inr q \<longleftrightarrow>
     hash = oip_hash p \<and> compute_hash sha256 pre = hash \<and> oip_general p = PaymentStatus.Pending \<and>
     q = p\<lparr>oip_preimage := Some pre, oip_fees := (case fees of Some f \<Rightarrow> f | None \<Rightarrow> oip_fees p),
           oip_status := OutboundInvoicePaymentStatus.Completed, oip_finalized_at := Some now\<rparr>"
  by (cases "oip_status p") (auto simp: oip_check_payment_sent_def)

lemma oip_failed_ok:
  "oip_check_payment_failed now hash failure p = Inr q \<longleftrightarrow>
     hash = oip_hash p \<and> oip_general p = PaymentStatus.Pending \<and>
     q = p\<lparr>oip_status := OutboundInvoicePaymentStatus.Failed, oip_failure := Some failure,
           oip_finalized_at := Some now\<rparr>"
  by (cases "oip_status p") (auto simp: oip_check_payment_failed_def)

lemma oip_expiry_some:
  "oip_check_invoice_expiry lib d p = Some q \<longleftrightarrow>
     bolt11_would_expire lib (bolt11 (oip_invoice p)) d \<and>
     oip_status p = OutboundInvoicePaymentStatus.Pending \<and> q = p\<lparr>oip_status := Abandoning\<rparr>"
  by (cases "oip_status p") (auto simp: oip_check_invoice_expiry_def)

lemmas outbound_ok = oip_sent_ok oip_failed_ok oip_expiry_some

interpretation outbound_invoice: payment_lifecycle
  oip_id oip_created_at oip_general oip_finalized_at "oip_step sha256" for sha256
  by unfold_locales
    (auto simp: oip_id_def outbound_ok finalized_iff_alt elim!: oip_step.cases)

section \<open>Reachable outbound invoice payments\<close>

text \<open>
  The documented field invariants: a preimage exactly when completed, and then it hashes to the
  payment hash; a failure reason exactly when failed.
\<close>

definition oip_inv :: "(bytes \<Rightarrow> bytes) \<Rightarrow> OutboundInvoicePayment \<Rightarrow> bool" where
  "oip_inv sha256 p \<longleftrightarrow>
     (oip_preimage p \<noteq> None \<longleftrightarrow> oip_general p = PaymentStatus.Completed) \<and>
     (\<forall>pre. oip_preimage p = Some pre \<longrightarrow> compute_hash sha256 pre = oip_hash p) \<and>
     (oip_failure p \<noteq> None \<longleftrightarrow> oip_general p = PaymentStatus.Failed)"

lemma oip_step_inv: "oip_step sha256 p q \<Longrightarrow> oip_inv sha256 p \<Longrightarrow> oip_inv sha256 q"
  by (auto simp: outbound_ok oip_inv_def elim!: oip_step.cases)

lemma oip_steps_inv: "(oip_step sha256)\<^sup>*\<^sup>* p q \<Longrightarrow> oip_inv sha256 p \<Longrightarrow> oip_inv sha256 q"
  by (induction rule: rtranclp_induct) (auto intro: oip_step_inv)

lemma oip_new_Some:
  "oip_new lib ops now invoice route note = Some p \<Longrightarrow>
     oip_inv sha256 p \<and> oip_finalized_at p = None \<and> oip_general p = PaymentStatus.Pending \<and>
     oip_id p = invoice_payment_id lib invoice"
  by (auto simp: oip_new_def oip_inv_def oip_id_def invoice_payment_id_def Option.bind_eq_Some_conv)

text \<open>C24: In every state an outbound invoice payment can reach from its creation, the preimage is
  recorded exactly when the payment is completed and is then a preimage of the payment hash (a proof
  of payment), a failure reason is recorded exactly when it failed, and the finalization time is
  set exactly when it is final; the id stays that of the invoice.\<close>

theorem outbound_invoice_reachable:
  assumes "oip_new lib ops now invoice route note = Some p" and "(oip_step sha256)\<^sup>*\<^sup>* p q"
  shows "oip_inv sha256 q \<and> finalized_iff (oip_payment_status (oip_status q)) (oip_finalized_at q) \<and>
    oip_id q = invoice_payment_id lib invoice"
  using oip_new_Some [OF assms(1), of sha256] oip_steps_inv [OF assms(2)]
    outbound_invoice.steps_sound [OF assms(2)] outbound_invoice.steps_id [OF assms(2)]
  by simp

lemma oip_new_exact:
  "\<exists>p. oip_new lib exact_ops now invoice route note = Some p \<and>
     oip_hash p = invoice_payment_hash lib invoice"
  using from_msat_ok [OF exact_ops_lawful, of "get_total_amount route"]
    from_msat_ok [OF exact_ops_lawful, of "get_total_fees route"]
  by (auto simp: oip_new_def)

theorem outbound_invoice_reachable_witness:
  "\<exists>p q. oip_new unary_lib exact_ops (TimestampMs 5) (LxInvoice ''lnbc'')
         \<lparr>get_total_amount = 1000, get_total_fees = 7\<rparr> None = Some p \<and>
     oip_check_payment_sent (\<lambda>_. [1]) (TimestampMs 9) (LxPaymentHash [1]) (LxPaymentPreimage [4]) None p
       = Inr q \<and>
     oip_inv (\<lambda>_. [1]) q \<and> finalized_iff (oip_payment_status (oip_status q)) (oip_finalized_at q) \<and>
     oip_id q = invoice_payment_id unary_lib (LxInvoice ''lnbc'')"
proof -
  obtain p where new: "oip_new unary_lib exact_ops (TimestampMs 5) (LxInvoice ''lnbc'')
         \<lparr>get_total_amount = 1000, get_total_fees = 7\<rparr> None = Some p"
    and hash: "oip_hash p = LxPaymentHash [1]"
    using oip_new_exact by (metis invoice_lib.select_convs(1) invoice_payment_hash_def unary_lib_def)
  obtain q where sent: "oip_check_payment_sent (\<lambda>_. [1]) (TimestampMs 9) (LxPaymentHash [1])
      (LxPaymentPreimage [4]) None p = Inr q"
    using oip_new_Some [OF new] hash by (simp add: oip_sent_ok compute_hash_def)
  from outbound_invoice_reachable [OF new r_into_rtranclp, OF oip_step.sent, OF sent] new sent
  show ?thesis by blast
qed

end
