(* ===== verification/Aes.thy ===== *)
theory Aes
  imports Lexe_Prelude
begin

text \<open>
  \<^verbatim>\<open>common/src/aes.rs\<close>: authenticated encryption of blobs with keys derived per message.  HKDF and
  AES-256-GCM (from \<^verbatim>\<open>ring\<close>) and the BCS serialization of the associated data are the parameter
  \<open>lib\<close>; \<open>aead_laws\<close> states what AES-256-GCM under the fixed zero nonce guarantees as a function.
\<close>

section \<open>The scheme\<close>

definition VERSION_LEN :: nat where "VERSION_LEN = 1"
definition KEY_ID_LEN :: nat where "KEY_ID_LEN = 32"
definition TAG_LEN :: nat where "TAG_LEN = 16"

definition encrypted_len :: "nat \<Rightarrow> nat" where
  "encrypted_len plaintext_len = VERSION_LEN + KEY_ID_LEN + plaintext_len + TAG_LEN"

record Aad =
  aad_version :: u8
  aad_key_id :: bytes
  aad_segments :: "bytes list"

text \<open>
  \<open>aead_seal key aad plaintext\<close> gives ciphertext and tag, or nothing for an over-long plaintext;
  \<open>aead_open\<close> takes ciphertext and tag concatenated.
\<close>

record aead_lib =
  hkdf_extract :: "bytes \<Rightarrow> bytes \<Rightarrow> bytes"
  hkdf_expand :: "bytes \<Rightarrow> bytes \<Rightarrow> bytes"
  bcs_serialize :: "Aad \<Rightarrow> bytes"
  aead_seal :: "bytes \<Rightarrow> bytes \<Rightarrow> bytes \<Rightarrow> (bytes \<times> bytes) option"
  aead_open :: "bytes \<Rightarrow> bytes \<Rightarrow> bytes \<Rightarrow> bytes option"
  aead_max_plaintext :: nat

definition aead_laws :: "aead_lib \<Rightarrow> bool" where
  "aead_laws lib \<longleftrightarrow>
     (\<forall>k a p. length p \<le> aead_max_plaintext lib \<longrightarrow> aead_seal lib k a p \<noteq> None) \<and>
     (\<forall>k a p c t. aead_seal lib k a p = Some (c, t) \<longrightarrow>
        length c = length p \<and> length t = TAG_LEN \<and> aead_open lib k a (c @ t) = Some p) \<and>
     (\<forall>k a d p. aead_open lib k a d = Some p \<longrightarrow>
        (\<exists>c t. aead_seal lib k a p = Some (c, t) \<and> d = c @ t))"

text \<open>\<^verbatim>\<open>array::pad\<close> from \<^verbatim>\<open>common/src/array.rs\<close>: zero bytes up to the target length.\<close>

definition array_pad :: "nat \<Rightarrow> bytes \<Rightarrow> bytes" where
  "array_pad n input = input @ replicate (n - length input) 0"

definition HKDF_SALT :: bytes where
  "HKDF_SALT = array_pad 32 (map (\<lambda>c. of_char c) ''LEXE-REALM::AesMasterKey'')"

datatype AesMasterKey = AesMasterKey (prk: bytes)

definition aes_new :: "aead_lib \<Rightarrow> bytes \<Rightarrow> AesMasterKey" where
  "aes_new lib root_seed_derived_secret =
     AesMasterKey (hkdf_extract lib HKDF_SALT root_seed_derived_secret)"

definition derive_unbound_key :: "aead_lib \<Rightarrow> AesMasterKey \<Rightarrow> bytes \<Rightarrow> bytes" where
  "derive_unbound_key lib mk key_id = hkdf_expand lib (prk mk) key_id"

definition aad_serialize :: "aead_lib \<Rightarrow> u8 \<Rightarrow> bytes \<Rightarrow> bytes list \<Rightarrow> bytes" where
  "aad_serialize lib version key_id aad =
     bcs_serialize lib \<lparr>aad_version = version, aad_key_id = key_id, aad_segments = aad\<rparr>"

text \<open>\<open>None\<close> is a panic (the \<^verbatim>\<open>assert!\<close> or the \<^verbatim>\<open>expect\<close>).\<close>

definition encrypt_in_place :: "aead_lib \<Rightarrow> bytes \<Rightarrow> bytes \<Rightarrow> bytes \<Rightarrow> nat \<Rightarrow> bytes option" where
  "encrypt_in_place lib key aad data plaintext_offset =
     (if plaintext_offset \<le> length data
      then map_option (\<lambda>(ciphertext, tag). take plaintext_offset data @ ciphertext @ tag)
             (aead_seal lib key aad (drop plaintext_offset data))
      else None)"

text \<open>\<open>key_id\<close> is the 32 random bytes drawn from the generator.\<close>

definition aes_encrypt ::
    "aead_lib \<Rightarrow> AesMasterKey \<Rightarrow> bytes \<Rightarrow> bytes list \<Rightarrow> (bytes \<Rightarrow> bytes) \<Rightarrow> bytes option" where
  "aes_encrypt lib mk key_id aad write_data_cb =
     (let version = 0;
          aad' = aad_serialize lib version key_id aad;
          header = version # key_id;
          plaintext_offset = length header;
          data = write_data_cb header
      in encrypt_in_place lib (derive_unbound_key lib mk key_id) aad' data plaintext_offset)"

datatype DecryptError = DecryptError

definition decrypt_in_place ::
    "aead_lib \<Rightarrow> bytes \<Rightarrow> bytes \<Rightarrow> bytes \<Rightarrow> nat \<Rightarrow> DecryptError + bytes" where
  "decrypt_in_place lib key aad data ciphertext_and_tag_offset =
     ok_or DecryptError (aead_open lib key aad (drop ciphertext_and_tag_offset data))"

definition aes_decrypt ::
    "aead_lib \<Rightarrow> AesMasterKey \<Rightarrow> bytes list \<Rightarrow> bytes \<Rightarrow> DecryptError + bytes" where
  "aes_decrypt lib mk aad data =
     (if length data < encrypted_len 0 then Inl DecryptError
      else
        (let version = hd data;
             key_id = take KEY_ID_LEN (drop VERSION_LEN data)
         in if version \<noteq> 0 then Inl DecryptError
            else
              decrypt_in_place lib (derive_unbound_key lib mk key_id)
                (aad_serialize lib version key_id aad) data (VERSION_LEN + KEY_ID_LEN)))"

section \<open>Round trip and authenticity\<close>

lemmas len_defs = VERSION_LEN_def KEY_ID_LEN_def TAG_LEN_def encrypted_len_def

lemma aead_seal_Some:
  assumes "aead_laws lib" and "aead_seal lib k a p = Some (c, t)"
  shows "length c = length p" and "length t = 16" and "aead_open lib k a (c @ t) = Some p"
  using assms unfolding aead_laws_def TAG_LEN_def by blast+

lemma aead_seal_total:
  assumes "aead_laws lib" and "length p \<le> aead_max_plaintext lib"
  shows "\<exists>c t. aead_seal lib k a p = Some (c, t)"
proof -
  have "aead_seal lib k a p \<noteq> None"
    using assms unfolding aead_laws_def by blast
  then show ?thesis by (cases "aead_seal lib k a p") auto
qed

lemma aead_open_Some:
  assumes "aead_laws lib" and "aead_open lib k a d = Some p"
  obtains c t where "aead_seal lib k a p = Some (c, t)" and "d = c @ t"
  using assms unfolding aead_laws_def by blast

lemma aes_encrypt_append:
  "aes_encrypt lib mk key_id aad (\<lambda>v. v @ p) =
     map_option (\<lambda>(c, t). 0 # key_id @ c @ t)
       (aead_seal lib (derive_unbound_key lib mk key_id) (aad_serialize lib 0 key_id aad) p)"
  by (simp add: aes_encrypt_def encrypt_in_place_def Let_def split: prod.split)

lemma aes_decrypt_header:
  assumes "length key_id = 32" and "16 \<le> length d"
  shows "aes_decrypt lib mk aad (0 # key_id @ d) =
    ok_or DecryptError
      (aead_open lib (derive_unbound_key lib mk key_id) (aad_serialize lib 0 key_id aad) d)"
  using assms by (simp add: aes_decrypt_def decrypt_in_place_def len_defs)

lemma aes_encrypt_decrypt:
  assumes "aead_laws lib" and "length key_id = 32" and "length p \<le> aead_max_plaintext lib"
  shows "\<exists>d. aes_encrypt lib mk key_id aad (\<lambda>v. v @ p) = Some d \<and>
    length d = encrypted_len (length p) \<and> aes_decrypt lib mk aad d = Inr p"
proof -
  obtain c t where seal: "aead_seal lib (derive_unbound_key lib mk key_id)
      (aad_serialize lib 0 key_id aad) p = Some (c, t)"
    using aead_seal_total [OF assms(1,3)] by blast
  note facts = aead_seal_Some [OF assms(1) seal]
  show ?thesis
    using facts assms(2)
    by (simp add: aes_encrypt_append seal aes_decrypt_header [OF assms(2)] len_defs)
qed

text \<open>C25: Encrypting a blob that is not over-long always succeeds, the output has the announced
  length, and decrypting it under the same master key and associated data gives the plaintext back.\<close>

theorem aes_roundtrip:
  assumes "aead_laws lib" and "length key_id = 32" and "length p \<le> aead_max_plaintext lib"
  shows "\<exists>d. aes_encrypt lib mk key_id aad (\<lambda>v. v @ p) = Some d \<and>
    length d = encrypted_len (length p) \<and> aes_decrypt lib mk aad d = Inr p"
  by (rule aes_encrypt_decrypt [OF assms])

lemma split_blob:
  assumes "33 \<le> length d" and "hd d = 0"
  shows "d = 0 # take 32 (drop 1 d) @ drop 33 d"
proof (cases d)
  case (Cons x xs)
  then show ?thesis using assms by simp
qed (use assms in simp)

lemma aes_decrypt_encrypted:
  assumes "aead_laws lib" and "length key_id = 32"
    and "aes_encrypt lib mk key_id aad (\<lambda>v. v @ p) = Some d"
  shows "aes_decrypt lib mk aad d = Inr p"
proof -
  obtain c t where "d = 0 # key_id @ c @ t"
    and seal: "aead_seal lib (derive_unbound_key lib mk key_id) (aad_serialize lib 0 key_id aad) p = Some (c, t)"
    using assms(3) by (auto simp: aes_encrypt_append)
  with aead_seal_Some [OF assms(1) seal] assms(2) show ?thesis
    by (simp add: aes_decrypt_header)
qed

text \<open>C26: Decryption accepts exactly the blobs that encryption under this master key and this associated
  data produces, for some key id: every other blob is rejected as an error, whatever its length,
  version byte or contents.\<close>

theorem aes_decrypt_iff_encrypted:
  assumes "aead_laws lib"
  shows "aes_decrypt lib mk aad d = Inr p \<longleftrightarrow>
    (\<exists>key_id. length key_id = 32 \<and> aes_encrypt lib mk key_id aad (\<lambda>v. v @ p) = Some d)"
proof
  assume dec: "aes_decrypt lib mk aad d = Inr p"
  then have len: "49 \<le> length d" and "hd d = 0"
    by (auto simp: aes_decrypt_def len_defs Let_def split: if_splits)
  define key_id where "key_id = take 32 (drop 1 d)"
  define rest where "rest = drop 33 d"
  have d: "d = 0 # key_id @ rest"
    using split_blob [of d] len \<open>hd d = 0\<close> by (simp add: key_id_def rest_def)
  have lens: "length key_id = 32" "16 \<le> length rest"
    using len by (simp_all add: key_id_def rest_def)
  with dec have "aead_open lib (derive_unbound_key lib mk key_id) (aad_serialize lib 0 key_id aad) rest = Some p"
    by (simp add: d aes_decrypt_header result_simps)
  then obtain c t where "aead_seal lib (derive_unbound_key lib mk key_id)
      (aad_serialize lib 0 key_id aad) p = Some (c, t)" "rest = c @ t"
    by (rule aead_open_Some [OF assms])
  with lens(1) show "\<exists>key_id. length key_id = 32 \<and> aes_encrypt lib mk key_id aad (\<lambda>v. v @ p) = Some d"
    by (auto simp: aes_encrypt_append d)
next
  assume "\<exists>key_id. length key_id = 32 \<and> aes_encrypt lib mk key_id aad (\<lambda>v. v @ p) = Some d"
  then show "aes_decrypt lib mk aad d = Inr p"
    using aes_decrypt_encrypted [OF assms] by blast
qed

section \<open>A lawful instance\<close>

text \<open>A cipher that hides nothing but obeys the functional laws: the tag is sixteen zero bytes.\<close>

definition plain_lib :: aead_lib where
  "plain_lib =
     \<lparr>hkdf_extract = (\<lambda>salt ikm. ikm), hkdf_expand = (\<lambda>k info. info), bcs_serialize = aad_key_id,
      aead_seal = (\<lambda>k a p. Some (p, replicate 16 0)),
      aead_open = (\<lambda>k a d.
        if 16 \<le> length d \<and> drop (length d - 16) d = replicate 16 0
        then Some (take (length d - 16) d) else None),
      aead_max_plaintext = 1000\<rparr>"

lemma plain_lib_lawful: "aead_laws plain_lib"
  unfolding aead_laws_def
proof (intro conjI allI impI)
  fix k a d p
  assume "aead_open plain_lib k a d = Some p"
  then have "p = take (length d - 16) d" "drop (length d - 16) d = replicate 16 0"
    by (auto simp: plain_lib_def split: if_splits)
  moreover have "d = take (length d - 16) d @ drop (length d - 16) d"
    by simp
  ultimately show "\<exists>c t. aead_seal plain_lib k a p = Some (c, t) \<and> d = c @ t"
    by (simp add: plain_lib_def)
qed (auto simp: plain_lib_def TAG_LEN_def split: if_splits)

theorem aes_roundtrip_witness:
  "\<exists>d. aes_encrypt plain_lib (AesMasterKey [1]) (replicate 32 7) [] (\<lambda>v. v @ [1, 2, 3]) = Some d \<and>
    length d = encrypted_len (length [1::u8, 2, 3]) \<and>
    aes_decrypt plain_lib (AesMasterKey [1]) [] d = Inr [1, 2, 3]"
  by (rule aes_roundtrip [OF plain_lib_lawful]) (simp_all add: plain_lib_def)

theorem aes_decrypt_iff_encrypted_witness:
  "\<exists>d. aes_encrypt plain_lib (AesMasterKey [1]) (replicate 32 7) [] (\<lambda>v. v @ [1, 2, 3]) = Some d \<and>
    aes_decrypt plain_lib (AesMasterKey [1]) [] d = Inr [1, 2, 3]"
proof -
  obtain d where d: "aes_encrypt plain_lib (AesMasterKey [1]) (replicate 32 7) [] (\<lambda>v. v @ [1, 2, 3]) = Some d"
    by (simp add: aes_encrypt_def encrypt_in_place_def plain_lib_def len_defs Let_def)
  then have "\<exists>key_id. length key_id = 32 \<and>
      aes_encrypt plain_lib (AesMasterKey [1]) key_id [] (\<lambda>v. v @ [1, 2, 3]) = Some d"
    by (intro exI [of _ "replicate 32 7"]) simp
  with aes_decrypt_iff_encrypted [OF plain_lib_lawful] d show ?thesis by blast
qed

end
