(* ===== verification/Payments.thy ===== *)
theory Payments
  imports Onchain Inbound Outbound Aes
begin

text \<open>
  \<^verbatim>\<open>lexe-ln/src/payments/mod.rs\<close>: the top-level \<^verbatim>\<open>Payment\<close> type, its getters, the conversion to
  \<^verbatim>\<open>BasicPayment\<close> and the encrypted database form.  \<open>ops\<close> is the decimal library, \<open>json\<close> the
  \<^verbatim>\<open>serde_json\<close> pair for \<^verbatim>\<open>Payment\<close>.
\<close>

datatype Payment =
    OnchainSend OnchainSend
  | OnchainReceive OnchainReceive
  | InboundInvoice InboundInvoicePayment
  | InboundSpontaneous InboundSpontaneousPayment
  | OutboundInvoice OutboundInvoicePayment
  | OutboundSpontaneous OutboundSpontaneousPayment

section \<open>Getters\<close>

fun payment_id :: "Payment \<Rightarrow> LxPaymentId" where
  "payment_id (Payment.OnchainSend os) = LxPaymentId.OnchainSend (os_cid os)"
| "payment_id (OnchainReceive orx) = OnchainRecv (or_txid orx)"
| "payment_id (InboundInvoice iip) = Lightning (iip_hash iip)"
| "payment_id (InboundSpontaneous isp) = Lightning (isp_hash isp)"
| "payment_id (OutboundInvoice oip) = Lightning (oip_hash oip)"
| "payment_id (OutboundSpontaneous osp) = Lightning (osp_hash osp)"

fun payment_created_at :: "Payment \<Rightarrow> TimestampMs" where
  "payment_created_at (Payment.OnchainSend os) = os_created_at os"
| "payment_created_at (OnchainReceive orx) = or_created_at orx"
| "payment_created_at (InboundInvoice iip) = iip_created_at iip"
| "payment_created_at (InboundSpontaneous isp) = isp_created_at isp"
| "payment_created_at (OutboundInvoice oip) = oip_created_at oip"
| "payment_created_at (OutboundSpontaneous osp) = osp_created_at osp"

definition payment_index :: "Payment \<Rightarrow> PaymentIndex" where
  "payment_index p = \<lparr>index_created_at = payment_created_at p, index_id = payment_id p\<rparr>"

fun payment_kind :: "Payment \<Rightarrow> PaymentKind" where
  "payment_kind (Payment.OnchainSend _) = Onchain"
| "payment_kind (OnchainReceive _) = Onchain"
| "payment_kind (InboundInvoice _) = PaymentKind.Invoice"
| "payment_kind (InboundSpontaneous _) = PaymentKind.Spontaneous"
| "payment_kind (OutboundInvoice _) = PaymentKind.Invoice"
| "payment_kind (OutboundSpontaneous _) = PaymentKind.Spontaneous"

fun payment_direction :: "Payment \<Rightarrow> PaymentDirection" where
  "payment_direction (Payment.OnchainSend _) = Outbound"
| "payment_direction (OnchainReceive _) = Inbound"
| "payment_direction (InboundInvoice _) = Inbound"
| "payment_direction (InboundSpontaneous _) = Inbound"
| "payment_direction (OutboundInvoice _) = Outbound"
| "payment_direction (OutboundSpontaneous _) = Outbound"

fun payment_invoice :: "Payment \<Rightarrow> LxInvoice option" where
  "payment_invoice (InboundInvoice iip) = Some (iip_invoice iip)"
| "payment_invoice (OutboundInvoice oip) = Some (oip_invoice oip)"
| "payment_invoice _ = None"

fun payment_replacement :: "Payment \<Rightarrow> LxTxid option" where
  "payment_replacement (Payment.OnchainSend os) = os_replacement os"
| "payment_replacement (OnchainReceive orx) = or_replacement orx"
| "payment_replacement _ = None"

fun payment_amount :: "Payment \<Rightarrow> Amount option" where
  "payment_amount (Payment.OnchainSend os) = Some (os_amount os)"
| "payment_amount (OnchainReceive orx) = Some (or_amount orx)"
| "payment_amount (InboundInvoice iip) =
     (case iip_recvd_amount iip of Some a \<Rightarrow> Some a | None \<Rightarrow> iip_invoice_amount iip)"
| "payment_amount (InboundSpontaneous isp) = Some (isp_amount isp)"
| "payment_amount (OutboundInvoice oip) = Some (oip_amount oip)"
| "payment_amount (OutboundSpontaneous osp) = Some (osp_amount osp)"

text \<open>
  \<^verbatim>\<open>unwrap_or(Amount::from_msat(0))\<close> evaluates its argument even when the value is present; \<open>None\<close> is
  a panic of \<^verbatim>\<open>from_msat\<close>.
\<close>

fun payment_fees :: "decimal_ops \<Rightarrow> Payment \<Rightarrow> Amount option" where
  "payment_fees ops (Payment.OnchainSend os) = Some (os_fees os)"
| "payment_fees ops (OnchainReceive _) = Some amount_zero"
| "payment_fees ops (InboundInvoice iip) =
     map_option (\<lambda>zero. case iip_onchain_fees iip of Some f \<Rightarrow> f | None \<Rightarrow> zero) (from_msat ops 0)"
| "payment_fees ops (InboundSpontaneous isp) =
     map_option (\<lambda>zero. case isp_onchain_fees isp of Some f \<Rightarrow> f | None \<Rightarrow> zero) (from_msat ops 0)"
| "payment_fees ops (OutboundInvoice oip) = Some (oip_fees oip)"
| "payment_fees ops (OutboundSpontaneous osp) = Some (osp_fees osp)"

fun payment_status :: "Payment \<Rightarrow> PaymentStatus" where
  "payment_status (Payment.OnchainSend os) = os_payment_status (os_status os)"
| "payment_status (OnchainReceive orx) = or_payment_status (or_status orx)"
| "payment_status (InboundInvoice iip) = iip_payment_status (iip_status iip)"
| "payment_status (InboundSpontaneous isp) = isp_payment_status (isp_status isp)"
| "payment_status (OutboundInvoice oip) = oip_payment_status (oip_status oip)"
| "payment_status (OutboundSpontaneous osp) = osp_payment_status (osp_status osp)"

fun payment_status_str :: "Payment \<Rightarrow> string" where
  "payment_status_str (Payment.OnchainSend os) = os_status_str (os_status os)"
| "payment_status_str (OnchainReceive orx) = or_status_str (or_status orx)"
| "payment_status_str (InboundInvoice iip) = iip_status_str (iip_status iip)"
| "payment_status_str (InboundSpontaneous isp) = isp_status_str (isp_status isp)"
| "payment_status_str (OutboundInvoice oip) =
     (case oip_failure oip of Some f \<Rightarrow> failure_str f | None \<Rightarrow> oip_status_str (oip_status oip))"
| "payment_status_str (OutboundSpontaneous osp) = osp_status_str (osp_status osp)"

fun payment_note :: "Payment \<Rightarrow> string option" where
  "payment_note (Payment.OnchainSend os) = os_note os"
| "payment_note (OnchainReceive orx) = or_note orx"
| "payment_note (InboundInvoice iip) = iip_note iip"
| "payment_note (InboundSpontaneous isp) = isp_note isp"
| "payment_note (OutboundInvoice oip) = oip_note oip"
| "payment_note (OutboundSpontaneous osp) = osp_note osp"

fun set_note :: "string option \<Rightarrow> Payment \<Rightarrow> Payment" where
  "set_note n (Payment.OnchainSend os) = Payment.OnchainSend (os\<lparr>os_note := n\<rparr>)"
| "set_note n (OnchainReceive orx) = OnchainReceive (orx\<lparr>or_note := n\<rparr>)"
| "set_note n (InboundInvoice iip) = InboundInvoice (iip\<lparr>iip_note := n\<rparr>)"
| "set_note n (InboundSpontaneous isp) = InboundSpontaneous (isp\<lparr>isp_note := n\<rparr>)"
| "set_note n (OutboundInvoice oip) = OutboundInvoice (oip\<lparr>oip_note := n\<rparr>)"
| "set_note n (OutboundSpontaneous osp) = OutboundSpontaneous (osp\<lparr>osp_note := n\<rparr>)"

fun payment_finalized_at :: "Payment \<Rightarrow> TimestampMs option" where
  "payment_finalized_at (Payment.OnchainSend os) = os_finalized_at os"
| "payment_finalized_at (OnchainReceive orx) = or_finalized_at orx"
| "payment_finalized_at (InboundInvoice iip) = iip_finalized_at iip"
| "payment_finalized_at (InboundSpontaneous isp) = isp_finalized_at isp"
| "payment_finalized_at (OutboundInvoice oip) = oip_finalized_at oip"
| "payment_finalized_at (OutboundSpontaneous osp) = osp_finalized_at osp"

text \<open>\<^verbatim>\<open>assert_invariants\<close>: true when none of its assertions fires.\<close>

definition assert_invariants :: "Payment \<Rightarrow> bool" where
  "assert_invariants p = finalized_iff (payment_status p) (payment_finalized_at p)"

section \<open>Conversions\<close>

definition basic_payment :: "decimal_ops \<Rightarrow> Payment \<Rightarrow> BasicPayment option" where
  "basic_payment ops p =
     map_option (\<lambda>fees.
       \<lparr>bp_index = payment_index p, bp_kind = payment_kind p, bp_direction = payment_direction p,
        bp_invoice = payment_invoice p, bp_replacement = payment_replacement p,
        bp_amount = payment_amount p, bp_fees = fees, bp_status = payment_status p,
        bp_status_str = payment_status_str p, bp_note = payment_note p,
        bp_finalized_at = payment_finalized_at p\<rparr>) (payment_fees ops p)"

record payment_json =
  to_writer :: "Payment \<Rightarrow> bytes"
  from_slice :: "bytes \<Rightarrow> Payment option"

datatype DecryptPaymentError = CouldNotDecrypt | CouldNotDeserialize

definition payment_encrypt ::
    "aead_lib \<Rightarrow> payment_json \<Rightarrow> txid_lib \<Rightarrow> bytes \<Rightarrow> AesMasterKey \<Rightarrow> Payment \<Rightarrow> DbPayment option" where
  "payment_encrypt lib json txids key_id vfs_master_key p =
     map_option (\<lambda>data.
       \<lparr>db_created_at = as_i64 (payment_created_at p), db_id = id_display txids (payment_id p),
        db_status = status_display (payment_status p), db_data = data\<rparr>)
       (aes_encrypt lib vfs_master_key key_id [] (\<lambda>v. v @ to_writer json p))"

definition payment_decrypt ::
    "aead_lib \<Rightarrow> payment_json \<Rightarrow> AesMasterKey \<Rightarrow> DbPayment \<Rightarrow> DecryptPaymentError + Payment" where
  "payment_decrypt lib json vfs_master_key db =
     and_then (map_err (\<lambda>_. CouldNotDecrypt) (aes_decrypt lib vfs_master_key [] (db_data db)))
       (\<lambda>plaintext. ok_or CouldNotDeserialize (from_slice json plaintext))"

section \<open>Delegation to the payment types\<close>

datatype PurposeError = Inner InboundError | NotInboundOrPurposeMismatch

fun payment_check_claimable ::
    "invoice_lib \<Rightarrow> SystemTime \<Rightarrow> Payment \<Rightarrow> LxPaymentHash \<Rightarrow> Amount \<Rightarrow> LxPaymentPurpose \<Rightarrow>
     PurposeError + Payment" where
  "payment_check_claimable lib clock (InboundInvoice iip) hash amount (LxPaymentPurpose.Invoice pre secret) =
     map_err Inner
       (map_ok InboundInvoice (iip_check_payment_claimable lib clock hash secret pre amount iip))"
| "payment_check_claimable lib clock (InboundSpontaneous isp) hash amount (LxPaymentPurpose.Spontaneous pre) =
     map_err Inner (map_ok InboundSpontaneous (isp_check_payment_claimable hash pre amount isp))"
| "payment_check_claimable lib clock _ hash amount _ = Inl NotInboundOrPurposeMismatch"

section \<open>Steps of a payment\<close>

inductive payment_step :: "(bytes \<Rightarrow> bytes) \<Rightarrow> Payment \<Rightarrow> Payment \<Rightarrow> bool" for sha256 where
  onchain_send: "os_step p q \<Longrightarrow> payment_step sha256 (Payment.OnchainSend p) (Payment.OnchainSend q)"
| onchain_receive: "or_step p q \<Longrightarrow> payment_step sha256 (OnchainReceive p) (OnchainReceive q)"
| inbound_invoice: "iip_step p q \<Longrightarrow> payment_step sha256 (InboundInvoice p) (InboundInvoice q)"
| inbound_spontaneous:
    "isp_step p q \<Longrightarrow> payment_step sha256 (InboundSpontaneous p) (InboundSpontaneous q)"
| outbound_invoice: "oip_step sha256 p q \<Longrightarrow> payment_step sha256 (OutboundInvoice p) (OutboundInvoice q)"

lemma payment_step_id: "payment_step h p q \<Longrightarrow> payment_id q = payment_id p"
  by (induction rule: payment_step.induct)
    (auto dest: onchain_send.step_id onchain_recv.step_id inbound_invoice.step_id
      inbound_spontaneous.step_id outbound_invoice.step_id
      simp: os_id_def or_id_def iip_id_def isp_id_def oip_id_def)

interpretation payment: payment_lifecycle
  payment_id payment_created_at payment_status payment_finalized_at "payment_step sha256" for sha256
proof
  fix p q assume step: "payment_step sha256 p q"
  then show "payment_id q = payment_id p"
    by (rule payment_step_id)
  from step show "payment_created_at q = payment_created_at p"
    "payment_status p = PaymentStatus.Pending"
    by (auto elim!: payment_step.cases
        dest: onchain_send.step_created onchain_recv.step_created inbound_invoice.step_created
        inbound_spontaneous.step_created outbound_invoice.step_created onchain_send.step_pending
        onchain_recv.step_pending inbound_invoice.step_pending inbound_spontaneous.step_pending
        outbound_invoice.step_pending)
next
  fix p q assume "payment_step sha256 p q" and "finalized_iff (payment_status p) (payment_finalized_at p)"
  then show "finalized_iff (payment_status q) (payment_finalized_at q)"
    by (auto elim!: payment_step.cases dest: onchain_send.step_sound onchain_recv.step_sound
        inbound_invoice.step_sound inbound_spontaneous.step_sound outbound_invoice.step_sound)
qed

lemma set_note_same [simp]:
  "payment_id (set_note n p) = payment_id p"
  "payment_created_at (set_note n p) = payment_created_at p"
  "payment_status (set_note n p) = payment_status p"
  "payment_finalized_at (set_note n p) = payment_finalized_at p"
  "payment_note (set_note n p) = n"
  by (cases p; simp)+

lemma assert_invariants_set_note [simp]: "assert_invariants (set_note n p) = assert_invariants p"
  by (simp add: assert_invariants_def)

lemma assert_invariants_step: "payment_step sha256 p q \<Longrightarrow> assert_invariants p \<Longrightarrow> assert_invariants q"
  unfolding assert_invariants_def by (rule payment.step_sound)

section \<open>Lifecycle of a payment\<close>

text \<open>C19: Along every sequence of state transitions of a payment its id and creation time (and so its
  index) never change, the assertion of \<^verbatim>\<open>assert_invariants\<close> never fires, and once the payment is
  completed or failed no transition is accepted any more.\<close>

theorem payment_lifecycle_sound:
  assumes "(payment_step sha256)\<^sup>*\<^sup>* p q" and "assert_invariants p"
  shows "payment_index q = payment_index p \<and> assert_invariants q \<and>
    (payment_status p \<noteq> PaymentStatus.Pending \<longrightarrow> q = p \<and> (\<forall>r. \<not> payment_step sha256 p r))"
  using payment.steps_id [OF assms(1)] payment.steps_created [OF assms(1)]
    payment.steps_sound [OF assms(1)] payment.final_forever [OF assms(1)] payment.final_stuck assms(2)
  by (auto simp: payment_index_def assert_invariants_def)

theorem payment_lifecycle_sound_witness:
  "let p = InboundInvoice example_iip;
       q = InboundInvoice (example_iip\<lparr>iip_recvd_amount := Some amount_zero,
             iip_status := InboundInvoicePaymentStatus.Claiming\<rparr>) in
     payment_index q = payment_index p \<and> assert_invariants q"
proof -
  have "assert_invariants (InboundInvoice example_iip)"
    by (simp add: assert_invariants_def example_iip_def)
  from payment_lifecycle_sound [OF r_into_rtranclp, OF payment_step.inbound_invoice, OF example_iip_claims this]
  show ?thesis by (simp add: Let_def)
qed

section \<open>Database form\<close>

text \<open>C20: A payment encrypted for the database decrypts to the same payment, and the clear-text columns
  beside the ciphertext name its id, creation time and general status.\<close>

theorem payment_encrypt_roundtrip:
  assumes "aead_laws lib" and "bitcoin_txid txids" and "length key_id = 32"
    and "length (to_writer json p) \<le> aead_max_plaintext lib"
    and "from_slice json (to_writer json p) = Some p" and "id_valid (payment_id p)"
  shows "\<exists>db. payment_encrypt lib json txids key_id mk p = Some db \<and>
    payment_decrypt lib json mk db = Inr p \<and>
    id_from_str txids (db_id db) = Inr (payment_id p) \<and>
    db_created_at db = as_i64 (payment_created_at p) \<and>
    status_from_str (db_status db) = Inr (payment_status p)"
proof -
  obtain d where "aes_encrypt lib mk key_id [] (\<lambda>v. v @ to_writer json p) = Some d"
    and "aes_decrypt lib mk [] d = Inr (to_writer json p)"
    using aes_encrypt_decrypt [OF assms(1,3,4)] by blast
  with assms(5) bitcoin_txid.id_roundtrip [OF assms(2,6)] status.roundtrip show ?thesis
    by (simp add: payment_encrypt_def payment_decrypt_def)
qed

end
