(* ===== verification/Payment_Store.thy ===== *)
theory Payment_Store
  imports Payments
begin

text \<open>
  The payment part of the \<^verbatim>\<open>LexeInnerPersister\<close> trait (\<^verbatim>\<open>lexe-ln/src/traits.rs\<close>) and the contract the
  payments manager relies on.  A persister acts on a state of type \<open>'w\<close> (the outside world: backend,
  random generator, tokens) and returns a result and the new state.
\<close>

datatype PersistError =
    EncryptPanic | NoToken | ApiFailed | CouldNotDecryptPayment DecryptPaymentError | IdMismatch
  | FeesPanic

record 'w persister =
  read_pending_payments :: "'w \<Rightarrow> (PersistError + Payment list) \<times> 'w"
  read_finalized_payment_ids :: "'w \<Rightarrow> (PersistError + LxPaymentId list) \<times> 'w"
  create_payment :: "Payment \<Rightarrow> 'w \<Rightarrow> (PersistError + Payment) \<times> 'w"
  persist_payment :: "Payment \<Rightarrow> 'w \<Rightarrow> (PersistError + Payment) \<times> 'w"
  persist_payment_batch :: "Payment list \<Rightarrow> 'w \<Rightarrow> (PersistError + Payment list) \<times> 'w"
  get_payment :: "PaymentIndex \<Rightarrow> 'w \<Rightarrow> (PersistError + Payment option) \<times> 'w"

text \<open>A stored payment has a well-formed id and creation time (as every Rust value has).\<close>

definition storable :: "Payment \<Rightarrow> bool" where
  "storable p \<longleftrightarrow> id_valid (payment_id p) \<and> timestamp_valid (payment_created_at p)"

definition put_payment :: "Payment \<Rightarrow> (LxPaymentId \<rightharpoonup> Payment) \<Rightarrow> LxPaymentId \<rightharpoonup> Payment" where
  "put_payment p v = v(payment_id p \<mapsto> p)"

text \<open>A payment may overwrite the stored payment of the same id only if it has the same index.\<close>

definition same_index :: "(LxPaymentId \<rightharpoonup> Payment) \<Rightarrow> Payment \<Rightarrow> bool" where
  "same_index v p \<longleftrightarrow>
     (\<forall>p0. v (payment_id p) = Some p0 \<longrightarrow> payment_created_at p0 = payment_created_at p)"

definition is_pending_payment :: "Payment \<Rightarrow> bool" where
  "is_pending_payment p \<longleftrightarrow> payment_status p = PaymentStatus.Pending"

text \<open>
  \<open>view\<close> is what the store holds, by payment id, and \<open>wok\<close> an invariant of the world.  A successful
  write stores exactly the payment it was given and returns it; a failed call leaves the stored
  payments alone; reads report what is stored.
\<close>

locale payment_store =
  fixes ps :: "'w persister"
    and view :: "'w \<Rightarrow> LxPaymentId \<rightharpoonup> Payment"
    and wok :: "'w \<Rightarrow> bool"
  assumes create: "wok w \<Longrightarrow> storable p \<Longrightarrow> view w (payment_id p) = None \<Longrightarrow>
      create_payment ps p w = (r, w') \<Longrightarrow>
      wok w' \<and> (case r of Inl e \<Rightarrow> view w' = view w | Inr q \<Rightarrow> q = p \<and> view w' = put_payment p (view w))"
    and persist: "wok w \<Longrightarrow> storable p \<Longrightarrow> same_index (view w) p \<Longrightarrow>
      persist_payment ps p w = (r, w') \<Longrightarrow>
      wok w' \<and> (case r of Inl e \<Rightarrow> view w' = view w | Inr q \<Rightarrow> q = p \<and> view w' = put_payment p (view w))"
    and persist_batch: "wok w \<Longrightarrow> \<forall>p \<in> set qs. storable p \<and> same_index (view w) p \<Longrightarrow>
      distinct (map payment_id qs) \<Longrightarrow> persist_payment_batch ps qs w = (rb, w') \<Longrightarrow>
      wok w' \<and> (case rb of Inl e \<Rightarrow> view w' = view w | Inr qs' \<Rightarrow> qs' = qs \<and> view w' = fold put_payment qs (view w))"
    and get: "wok w \<Longrightarrow> get_payment ps idx w = (ro, w') \<Longrightarrow>
      wok w' \<and> view w' = view w \<and>
      (\<forall>q. ro = Inr q \<longrightarrow> id_valid (index_id idx) \<longrightarrow> q = view w (index_id idx))"
    and read_pending: "wok w \<Longrightarrow> read_pending_payments ps w = (Inr l, w') \<Longrightarrow>
      set l = {p. \<exists>i. view w i = Some p \<and> is_pending_payment p} \<and> view w' = view w \<and> wok w'"
    and read_finalized: "wok w \<Longrightarrow> read_finalized_payment_ids ps w = (Inr ids, w') \<Longrightarrow>
      set ids = {i. \<exists>p. view w i = Some p \<and> \<not> is_pending_payment p} \<and> view w' = view w \<and> wok w'"
    and view_ok: "wok w \<Longrightarrow> view w i = Some p \<Longrightarrow> payment_id p = i \<and> storable p"

lemma put_payment_same [simp]: "put_payment p v (payment_id p) = Some p"
  by (simp add: put_payment_def)

lemma put_payment_other: "i \<noteq> payment_id p \<Longrightarrow> put_payment p v i = v i"
  by (simp add: put_payment_def)

lemma put_payment_Some:
  "put_payment p v i = Some q \<longleftrightarrow> (i = payment_id p \<and> q = p) \<or> (i \<noteq> payment_id p \<and> v i = Some q)"
  by (auto simp: put_payment_def)

lemma fold_put_payment_notin:
  "i \<notin> payment_id ` set qs \<Longrightarrow> fold put_payment qs v i = v i"
  by (induction qs arbitrary: v) (auto simp: put_payment_other)

lemma fold_put_payment_in:
  "distinct (map payment_id qs) \<Longrightarrow> p \<in> set qs \<Longrightarrow> fold put_payment qs v (payment_id p) = Some p"
proof (induction qs arbitrary: v)
  case (Cons q qs)
  then show ?case
    by (cases "p = q") (auto simp: fold_put_payment_notin)
qed simp

end
