(* ===== verification/Manager.thy ===== *)
theory Manager
  imports Payment_Store
begin

text \<open>
  \<^verbatim>\<open>lexe-ln/src/payments/manager.rs\<close>: \<^verbatim>\<open>PaymentsData\<close> with its \<^verbatim>\<open>check_*\<close> methods and the handlers of
  \<^verbatim>\<open>PaymentsManager\<close>.  A handler runs under the lock on \<^verbatim>\<open>PaymentsData\<close>, so it is one step from a
  manager state to a result and a new state; calls into LDK's channel manager and the test-event
  channel are recorded in order in a log.  The iteration order of a hash map is an argument
  (\<open>order\<close>), as are clock readings.  The model is of a release build: \<^verbatim>\<open>debug_assert!\<close> and
  \<^verbatim>\<open>assert_invariants\<close> are not executed (the lemmas show that they would not fire).
\<close>

section \<open>State\<close>

datatype FailureCode = TemporaryNodeFailure | IncorrectOrUnknownPaymentDetails

datatype TestEvent = PaymentClaimable | PaymentClaimed | PaymentSent

datatype effect =
    FailHtlcBackwards LxPaymentHash FailureCode
  | ClaimFunds LxPaymentPreimage
  | AbandonPayment LxPaymentHash
  | SendTestEvent TestEvent

record PaymentsData =
  pending :: "LxPaymentId \<rightharpoonup> Payment"
  finalized :: "LxPaymentId set"

record 'w manager =
  mdata :: PaymentsData
  world :: 'w
  effects :: "effect list"

text \<open>What the manager takes from outside: invoices, decimals and SHA-256.\<close>

record externs =
  ext_invoice :: invoice_lib
  ext_decimal :: decimal_ops
  ext_sha256 :: "bytes \<Rightarrow> bytes"

datatype ManagerError =
    ExistsPending | ExistsFinalized | UpdateDoesNotExist | NotFoundInDb | Persist PersistError
  | BadPurpose InboundError | Claim PurposeError | DuplicateOrFinalized | NonexistentInvoicePayment
  | WasFinalized | NoPending | InboundCheck InboundError | NotInboundOrMismatch
  | OutboundCheck OutboundError | NotOutbound | TodoPanic | FromMsatPanic
  | SendFinalized | SendDoesNotExist | BadTransition OnchainError | NotOnchainSend
  | ConfMissing | ConfCheck OnchainError | NotOnchain | Esplora EsploraError | QueryPanic
  | WalletError | MissingTxDetails | RawTxMissing | ReceiveOverflowed

section \<open>PaymentsData\<close>

definition commit :: "Payment \<Rightarrow> PaymentsData \<Rightarrow> PaymentsData" where
  "commit payment d =
     (let id = payment_id payment
      in case payment_status payment of
           PaymentStatus.Pending \<Rightarrow> d\<lparr>pending := (pending d)(id \<mapsto> payment)\<rparr>
         | PaymentStatus.Completed \<Rightarrow>
             d\<lparr>pending := (pending d)(id := None), finalized := insert id (finalized d)\<rparr>
         | PaymentStatus.Failed \<Rightarrow>
             d\<lparr>pending := (pending d)(id := None), finalized := insert id (finalized d)\<rparr>)"

definition contains_payment_id :: "PaymentsData \<Rightarrow> LxPaymentId \<Rightarrow> bool" where
  "contains_payment_id d pid \<longleftrightarrow> pending d pid \<noteq> None \<or> pid \<in> finalized d"

definition check_new_payment :: "PaymentsData \<Rightarrow> Payment \<Rightarrow> ManagerError + Payment" where
  "check_new_payment d payment =
     (let id = payment_id payment
      in ensure (pending d id = None) ExistsPending (
         ensure (id \<notin> finalized d) ExistsFinalized (Inr payment)))"

definition check_payment_claimable ::
    "externs \<Rightarrow> SystemTime \<Rightarrow> TimestampMs \<Rightarrow> PaymentsData \<Rightarrow> LxPaymentHash \<Rightarrow> Amount \<Rightarrow> LxPaymentPurpose \<Rightarrow>
     ManagerError + Payment" where
  "check_payment_claimable ext clock now d hash amount purpose =
     (let id = id_from_hash hash
      in ensure (id \<notin> finalized d) DuplicateOrFinalized (
         case (pending d id, purpose) of
           (Some pending_payment, _) \<Rightarrow>
             map_err Claim
               (payment_check_claimable (ext_invoice ext) clock pending_payment hash amount purpose)
         | (None, LxPaymentPurpose.Spontaneous pre) \<Rightarrow>
             check_new_payment d (InboundSpontaneous (isp_new now hash pre amount))
         | (None, LxPaymentPurpose.Invoice _ _) \<Rightarrow> Inl NonexistentInvoicePayment))"

definition check_payment_claimed ::
    "TimestampMs \<Rightarrow> PaymentsData \<Rightarrow> LxPaymentHash \<Rightarrow> Amount \<Rightarrow> LxPaymentPurpose \<Rightarrow> ManagerError + Payment" where
  "check_payment_claimed now d hash amount purpose =
     (let id = id_from_hash hash
      in ensure (id \<notin> finalized d) WasFinalized (
         and_then (ok_or NoPending (pending d id)) (\<lambda>pending_payment.
           case (pending_payment, purpose) of
             (InboundInvoice iip, LxPaymentPurpose.Invoice pre secret) \<Rightarrow>
               map_err InboundCheck
                 (map_ok InboundInvoice (iip_check_payment_claimed now hash secret pre amount iip))
           | (InboundSpontaneous isp, LxPaymentPurpose.Spontaneous pre) \<Rightarrow>
               map_err InboundCheck
                 (map_ok InboundSpontaneous (isp_check_payment_claimed now hash pre amount isp))
           | _ \<Rightarrow> Inl NotInboundOrMismatch)))"

definition check_payment_sent ::
    "externs \<Rightarrow> TimestampMs \<Rightarrow> PaymentsData \<Rightarrow> LxPaymentHash \<Rightarrow> LxPaymentPreimage \<Rightarrow> Amount option \<Rightarrow>
     ManagerError + Payment" where
  "check_payment_sent ext now d hash pre maybe_fees_paid =
     (let id = id_from_hash hash
      in ensure (id \<notin> finalized d) WasFinalized (
         and_then (ok_or NoPending (pending d id)) (\<lambda>pending_payment.
           case pending_payment of
             OutboundInvoice oip \<Rightarrow>
               map_err OutboundCheck (map_ok OutboundInvoice
                 (oip_check_payment_sent (ext_sha256 ext) now hash pre maybe_fees_paid oip))
           | OutboundSpontaneous _ \<Rightarrow> Inl TodoPanic
           | _ \<Rightarrow> Inl NotOutbound)))"

definition check_payment_failed ::
    "TimestampMs \<Rightarrow> PaymentsData \<Rightarrow> LxPaymentHash \<Rightarrow> LxOutboundPaymentFailure \<Rightarrow> ManagerError + Payment" where
  "check_payment_failed now d hash failure =
     (let id = id_from_hash hash
      in ensure (id \<notin> finalized d) WasFinalized (
         and_then (ok_or NoPending (pending d id)) (\<lambda>pending_payment.
           case pending_payment of
             OutboundInvoice oip \<Rightarrow>
               map_err OutboundCheck
                 (map_ok OutboundInvoice (oip_check_payment_failed now hash failure oip))
           | OutboundSpontaneous _ \<Rightarrow> Inl TodoPanic
           | _ \<Rightarrow> Inl NotOutbound)))"

text \<open>The closure of the \<^verbatim>\<open>filter_map\<close>, and the hashes it pushes.\<close>

definition expire_payment ::
    "invoice_lib \<Rightarrow> (LxPaymentId \<Rightarrow> TimestampMs) \<Rightarrow> Duration \<Rightarrow> Payment \<Rightarrow> Payment option" where
  "expire_payment lib now unix_duration payment =
     (case payment of
        InboundInvoice iip \<Rightarrow>
          map_option InboundInvoice
            (iip_check_invoice_expiry lib (now (payment_id payment)) unix_duration iip)
      | OutboundInvoice oip \<Rightarrow>
          map_option OutboundInvoice (oip_check_invoice_expiry lib unix_duration oip)
      | _ \<Rightarrow> None)"

fun outbound_hash :: "Payment \<Rightarrow> LxPaymentHash option" where
  "outbound_hash (OutboundInvoice oip) = Some (oip_hash oip)"
| "outbound_hash _ = None"

definition data_check_invoice_expiries ::
    "invoice_lib \<Rightarrow> (LxPaymentId \<Rightarrow> TimestampMs) \<Rightarrow> LxPaymentId list \<Rightarrow> PaymentsData \<Rightarrow> Duration \<Rightarrow>
     Payment list \<times> LxPaymentHash list" where
  "data_check_invoice_expiries lib now order d unix_duration =
     (let values = List.map_filter (pending d) order;
          all_expired = List.map_filter (expire_payment lib now unix_duration) values
      in (all_expired, List.map_filter outbound_hash all_expired))"

definition check_one_conf ::
    "(LxPaymentId \<Rightarrow> TimestampMs) \<Rightarrow> PaymentsData \<Rightarrow> LxPaymentId \<times> TxConfStatus \<Rightarrow>
     ManagerError + Payment option" where
  "check_one_conf now d = (\<lambda>(id, conf_status).
     and_then (ok_or ConfMissing (pending d id)) (\<lambda>payment.
       case payment of
         Payment.OnchainSend os \<Rightarrow>
           map_err ConfCheck (map_ok (map_option Payment.OnchainSend)
             (os_check_onchain_conf (now id) conf_status os))
       | OnchainReceive orx \<Rightarrow>
           map_err ConfCheck (map_ok (map_option OnchainReceive)
             (or_check_onchain_conf (now id) conf_status orx))
       | _ \<Rightarrow> Inl NotOnchain))"

text \<open>\<open>zip\<close> stops at the shorter list; the first error in order wins.\<close>

definition data_check_onchain_confs ::
    "(LxPaymentId \<Rightarrow> TimestampMs) \<Rightarrow> PaymentsData \<Rightarrow> LxPaymentId list \<Rightarrow> TxConfStatus list \<Rightarrow>
     ManagerError + Payment list" where
  "data_check_onchain_confs now d ids conf_statuses =
     map_ok (List.map_filter (\<lambda>x. x)) (collect_results (map (check_one_conf now d) (zip ids conf_statuses)))"

section \<open>PaymentsManager\<close>

text \<open>Payments that are not pending are dropped from the initial map (an error is logged).\<close>

definition data_new :: "Payment list \<Rightarrow> LxPaymentId list \<Rightarrow> PaymentsData" where
  "data_new pending_payments finalized_payment_ids =
     \<lparr>pending = map_of (rev (List.map_filter (\<lambda>payment.
          if payment_status payment = PaymentStatus.Pending then Some (payment_id payment, payment)
          else None) pending_payments)),
      finalized = set finalized_payment_ids\<rparr>"

definition emit :: "effect \<Rightarrow> 'w manager \<Rightarrow> 'w manager" where
  "emit e m = m\<lparr>effects := effects m @ [e]\<rparr>"

text \<open>Persist one checked payment and commit it; on failure the data is left alone.\<close>

definition persist_commit ::
    "('w \<Rightarrow> (PersistError + Payment) \<times> 'w) \<Rightarrow> 'w manager \<Rightarrow> (ManagerError + unit) \<times> 'w manager" where
  "persist_commit call m =
     (case call (world m) of
        (Inl e, w) \<Rightarrow> (Inl (Persist e), m\<lparr>world := w\<rparr>)
      | (Inr persisted, w) \<Rightarrow> (Inr (), m\<lparr>world := w, mdata := commit persisted (mdata m)\<rparr>))"

definition persist_commit_batch ::
    "'w persister \<Rightarrow> Payment list \<Rightarrow> 'w manager \<Rightarrow> (ManagerError + unit) \<times> 'w manager" where
  "persist_commit_batch ps all_checked m =
     (case persist_payment_batch ps all_checked (world m) of
        (Inl e, w) \<Rightarrow> (Inl (Persist e), m\<lparr>world := w\<rparr>)
      | (Inr all_persisted, w) \<Rightarrow>
          (Inr (), m\<lparr>world := w, mdata := fold commit all_persisted (mdata m)\<rparr>))"

definition new_payment ::
    "'w persister \<Rightarrow> Payment \<Rightarrow> 'w manager \<Rightarrow> (ManagerError + unit) \<times> 'w manager" where
  "new_payment ps payment m =
     (case check_new_payment (mdata m) payment of
        Inl e \<Rightarrow> (Inl e, m)
      | Inr checked \<Rightarrow> persist_commit (create_payment ps checked) m)"

definition update_payment_note ::
    "'w persister \<Rightarrow> PaymentIndex \<Rightarrow> string option \<Rightarrow> 'w manager \<Rightarrow> (ManagerError + unit) \<times> 'w manager" where
  "update_payment_note ps idx note m =
     (let id = index_id idx
      in case pending (mdata m) id of
           Some p \<Rightarrow> persist_commit (persist_payment ps (set_note note p)) m
         | None \<Rightarrow>
             if id \<notin> finalized (mdata m) then (Inl UpdateDoesNotExist, m)
             else
               (case get_payment ps idx (world m) of
                  (Inl e, w) \<Rightarrow> (Inl (Persist e), m\<lparr>world := w\<rparr>)
                | (Inr None, w) \<Rightarrow> (Inl NotFoundInDb, m\<lparr>world := w\<rparr>)
                | (Inr (Some p), w) \<Rightarrow>
                    persist_commit (persist_payment ps (set_note note p)) (m\<lparr>world := w\<rparr>)))"

definition payment_claimable ::
    "'w persister \<Rightarrow> externs \<Rightarrow> SystemTime \<Rightarrow> TimestampMs \<Rightarrow> LxPaymentHash \<Rightarrow> u64 \<Rightarrow> PaymentPurpose \<Rightarrow>
     'w manager \<Rightarrow> (ManagerError + unit) \<times> 'w manager" where
  "payment_claimable ps ext clock now hash amt_msat purpose m =
     (case from_msat (ext_decimal ext) amt_msat of
        None \<Rightarrow> (Inl FromMsatPanic, m)
      | Some amount \<Rightarrow>
      (case purpose_try_from purpose of
         Inl e \<Rightarrow> (Inl (BadPurpose e), emit (FailHtlcBackwards hash IncorrectOrUnknownPaymentDetails) m)
       | Inr lx_purpose \<Rightarrow>
       (case check_payment_claimable ext clock now (mdata m) hash amount lx_purpose of
          Inl e \<Rightarrow> (Inl e, emit (FailHtlcBackwards hash IncorrectOrUnknownPaymentDetails) m)
        | Inr checked \<Rightarrow>
        (case persist_commit (persist_payment ps checked) m of
           (Inl e, m') \<Rightarrow> (Inl e, emit (FailHtlcBackwards hash TemporaryNodeFailure) m')
         | (Inr _, m') \<Rightarrow>
             (Inr (), emit (SendTestEvent PaymentClaimable) (emit (ClaimFunds (preimage lx_purpose)) m'))))))"

definition payment_claimed ::
    "'w persister \<Rightarrow> externs \<Rightarrow> TimestampMs \<Rightarrow> LxPaymentHash \<Rightarrow> u64 \<Rightarrow> PaymentPurpose \<Rightarrow>
     'w manager \<Rightarrow> (ManagerError + unit) \<times> 'w manager" where
  "payment_claimed ps ext now hash amt_msat purpose m =
     (case from_msat (ext_decimal ext) amt_msat of
        None \<Rightarrow> (Inl FromMsatPanic, m)
      | Some amount \<Rightarrow>
      (case purpose_try_from purpose of
         Inl e \<Rightarrow> (Inl (BadPurpose e), m)
       | Inr lx_purpose \<Rightarrow>
       (case check_payment_claimed now (mdata m) hash amount lx_purpose of
          Inl e \<Rightarrow> (Inl e, m)
        | Inr checked \<Rightarrow>
        (case persist_commit (persist_payment ps checked) m of
           (Inl e, m') \<Rightarrow> (Inl e, m')
         | (Inr _, m') \<Rightarrow> (Inr (), emit (SendTestEvent PaymentClaimed) m')))))"

text \<open>\<^verbatim>\<open>maybe_fees_paid_msat.map(Amount::from_msat)\<close>, with the outer \<open>None\<close> for a panic.\<close>

definition fees_from_msat :: "decimal_ops \<Rightarrow> u64 option \<Rightarrow> Amount option option" where
  "fees_from_msat ops fees =
     (case fees of None \<Rightarrow> Some None | Some m \<Rightarrow> map_option Some (from_msat ops m))"

definition payment_sent ::
    "'w persister \<Rightarrow> externs \<Rightarrow> TimestampMs \<Rightarrow> LxPaymentHash \<Rightarrow> LxPaymentPreimage \<Rightarrow> u64 option \<Rightarrow>
     'w manager \<Rightarrow> (ManagerError + unit) \<times> 'w manager" where
  "payment_sent ps ext now hash pre maybe_fees_paid_msat m =
     (case fees_from_msat (ext_decimal ext) maybe_fees_paid_msat of
        None \<Rightarrow> (Inl FromMsatPanic, m)
      | Some maybe_fees_paid \<Rightarrow>
      (case check_payment_sent ext now (mdata m) hash pre maybe_fees_paid of
         Inl e \<Rightarrow> (Inl e, m)
       | Inr checked \<Rightarrow>
       (case persist_commit (persist_payment ps checked) m of
          (Inl e, m') \<Rightarrow> (Inl e, m')
        | (Inr _, m') \<Rightarrow> (Inr (), emit (SendTestEvent PaymentSent) m'))))"

definition payment_failed ::
    "'w persister \<Rightarrow> TimestampMs \<Rightarrow> LxPaymentHash \<Rightarrow> LxOutboundPaymentFailure \<Rightarrow>
     'w manager \<Rightarrow> (ManagerError + unit) \<times> 'w manager" where
  "payment_failed ps now hash failure m =
     (case check_payment_failed now (mdata m) hash failure of
        Inl e \<Rightarrow> (Inl e, m)
      | Inr checked \<Rightarrow> persist_commit (persist_payment ps checked) m)"

definition check_invoice_expiries ::
    "'w persister \<Rightarrow> externs \<Rightarrow> (LxPaymentId \<Rightarrow> TimestampMs) \<Rightarrow> LxPaymentId list \<Rightarrow> Duration \<Rightarrow>
     'w manager \<Rightarrow> (ManagerError + unit) \<times> 'w manager" where
  "check_invoice_expiries ps ext now order unix_duration m =
     (case data_check_invoice_expiries (ext_invoice ext) now order (mdata m) unix_duration of
        (all_checked, oip_hashes) \<Rightarrow>
          persist_commit_batch ps all_checked
            (m\<lparr>effects := effects m @ map AbandonPayment oip_hashes\<rparr>))"

definition onchain_send_broadcasted ::
    "'w persister \<Rightarrow> LxPaymentId \<Rightarrow> LxTxid \<Rightarrow> 'w manager \<Rightarrow> (ManagerError + unit) \<times> 'w manager" where
  "onchain_send_broadcasted ps pid txid m =
     (if pid \<in> finalized (mdata m) then (Inl SendFinalized, m)
      else case pending (mdata m) pid of
        None \<Rightarrow> (Inl SendDoesNotExist, m)
      | Some (Payment.OnchainSend os) \<Rightarrow>
          (case os_broadcasted txid os of
             Inl e \<Rightarrow> (Inl (BadTransition e), m)
           | Inr os' \<Rightarrow> persist_commit (persist_payment ps (Payment.OnchainSend os')) m)
      | Some _ \<Rightarrow> (Inl NotOnchainSend, m))"

text \<open>
  \<^verbatim>\<open>check_onchain_confs\<close> releases the lock between reading the pending payments and applying the
  statuses: it is two steps, between which other handlers may run.  \<open>None\<close> is a panic of the
  timestamp conversion.
\<close>

fun onchain_query :: "Payment \<Rightarrow> (LxPaymentId \<times> TxConfQuery) option option" where
  "onchain_query (Payment.OnchainSend os) = map_option (\<lambda>q. Some (os_id os, q)) (os_to_tx_conf_query os)"
| "onchain_query (OnchainReceive orx) = map_option (\<lambda>q. Some (or_id orx, q)) (or_to_tx_conf_query orx)"
| "onchain_query _ = Some None"

definition onchain_confs_queries ::
    "LxPaymentId list \<Rightarrow> 'w manager \<Rightarrow> ManagerError + (LxPaymentId \<times> TxConfQuery) list" where
  "onchain_confs_queries order m =
     map_ok (List.map_filter (\<lambda>x. x))
       (collect_results (map (\<lambda>p. ok_or QueryPanic (onchain_query p))
         (List.map_filter (pending (mdata m)) order)))"

definition onchain_confs_apply ::
    "'w persister \<Rightarrow> (LxPaymentId \<Rightarrow> TimestampMs) \<Rightarrow> LxPaymentId list \<Rightarrow> TxConfStatus list \<Rightarrow>
     'w manager \<Rightarrow> (ManagerError + unit) \<times> 'w manager" where
  "onchain_confs_apply ps now ids tx_conf_statuses m =
     (case data_check_onchain_confs now (mdata m) ids tx_conf_statuses of
        Inl e \<Rightarrow> (Inl e, m)
      | Inr all_checked \<Rightarrow> persist_commit_batch ps all_checked m)"

text \<open>The whole of \<^verbatim>\<open>check_onchain_confs\<close> when no other handler runs in between.\<close>

definition check_onchain_confs ::
    "'w persister \<Rightarrow> esplora_client \<Rightarrow> SystemTime \<Rightarrow> (LxPaymentId \<Rightarrow> TimestampMs) \<Rightarrow> LxPaymentId list \<Rightarrow>
     'w manager \<Rightarrow> (ManagerError + unit) \<times> 'w manager" where
  "check_onchain_confs ps client clock now order m =
     (case onchain_confs_queries order m of
        Inl e \<Rightarrow> (Inl e, m)
      | Inr queries \<Rightarrow>
      (case get_tx_conf_statuses client clock (map snd queries) of
         Inl e \<Rightarrow> (Inl (Esplora e), m)
       | Inr statuses \<Rightarrow> onchain_confs_apply ps now (map fst queries) statuses m))"

text \<open>The fields of \<^verbatim>\<open>bdk::TransactionDetails\<close> that are read, and the wallet's answers.\<close>

record TransactionDetails =
  td_txid :: LxTxid
  td_transaction :: "Transaction option"
  td_received :: u64
  td_sent :: u64

record lexe_wallet =
  wallet_list :: "unit + TransactionDetails list"
  wallet_get_tx :: "LxTxid \<Rightarrow> unit + TransactionDetails option"

definition unseen_txs :: "PaymentsData \<Rightarrow> TransactionDetails list \<Rightarrow> TransactionDetails list" where
  "unseen_txs d txs =
     filter (\<lambda>t. pending d (OnchainRecv (td_txid t)) = None \<and> OnchainRecv (td_txid t) \<notin> finalized d)
       (filter (\<lambda>t. td_sent t = 0) txs)"

definition receive_from_details ::
    "(Transaction \<Rightarrow> LxTxid) \<Rightarrow> decimal_ops \<Rightarrow> TimestampMs \<Rightarrow> lexe_wallet \<Rightarrow> TransactionDetails \<Rightarrow>
     ManagerError + OnchainReceive" where
  "receive_from_details txid_of ops now wallet t =
     and_then (map_err (\<lambda>_. WalletError) (wallet_get_tx wallet (td_txid t))) (\<lambda>details.
     and_then (ok_or MissingTxDetails details) (\<lambda>details.
     and_then (ok_or RawTxMissing (td_transaction details)) (\<lambda>raw_tx.
     and_then (map_err (\<lambda>_. ReceiveOverflowed) (try_from_satoshis (dec_from_u64 ops (td_received t)))) (\<lambda>amount.
       Inr (or_new txid_of now raw_tx amount)))))"

fun register_all ::
    "'w persister \<Rightarrow> Payment list \<Rightarrow> 'w manager \<Rightarrow> (ManagerError + unit) list \<times> 'w manager" where
  "register_all ps [] m = ([], m)"
| "register_all ps (p # qs) m =
     (let (r, m1) = new_payment ps p m;
          (rs, m2) = register_all ps qs m1
      in (r # rs, m2))"

text \<open>
  As with the confirmations, the lock is released between finding the unseen transactions and
  registering them; every registration is attempted, and the first error is reported.
\<close>

definition check_onchain_receives ::
    "'w persister \<Rightarrow> (Transaction \<Rightarrow> LxTxid) \<Rightarrow> externs \<Rightarrow> (LxTxid \<Rightarrow> TimestampMs) \<Rightarrow> lexe_wallet \<Rightarrow>
     'w manager \<Rightarrow> (ManagerError + unit) \<times> 'w manager" where
  "check_onchain_receives ps txid_of ext now wallet m =
     (case wallet_list wallet of
        Inl _ \<Rightarrow> (Inl WalletError, m)
      | Inr txs \<Rightarrow>
      (case collect_results (map (\<lambda>t. receive_from_details txid_of (ext_decimal ext) (now (td_txid t)) wallet t)
              (unseen_txs (mdata m) txs)) of
         Inl e \<Rightarrow> (Inl e, m)
       | Inr onchain_recvs \<Rightarrow>
           (let (results, m') = register_all ps (map OnchainReceive onchain_recvs) m
            in (map_ok (\<lambda>_. ()) (collect_results results), m'))))"

section \<open>Runs of the manager\<close>

text \<open>
  One handler call with arbitrary inputs.  New payments are freshly constructed ones, hashes are
  32 bytes and clock readings are timestamps, as the Rust types guarantee; a hash map is iterated
  without repetitions.
\<close>

inductive mgr_step :: "'w persister \<Rightarrow> externs \<Rightarrow> 'w manager \<Rightarrow> 'w manager \<Rightarrow> bool" for ps ext where
  new_payment: "storable p \<Longrightarrow> assert_invariants p \<Longrightarrow> new_payment ps p m = (r, m') \<Longrightarrow> mgr_step ps ext m m'"
| update_note: "update_payment_note ps idx n m = (r, m') \<Longrightarrow> mgr_step ps ext m m'"
| claimable: "hash_valid hash \<Longrightarrow> timestamp_valid now \<Longrightarrow>
    payment_claimable ps ext clock now hash amt purpose m = (r, m') \<Longrightarrow> mgr_step ps ext m m'"
| claimed: "payment_claimed ps ext now hash amt purpose m = (r, m') \<Longrightarrow> mgr_step ps ext m m'"
| sent: "payment_sent ps ext now hash pre fees m = (r, m') \<Longrightarrow> mgr_step ps ext m m'"
| failed: "payment_failed ps now hash failure m = (r, m') \<Longrightarrow> mgr_step ps ext m m'"
| expiries: "distinct order \<Longrightarrow> check_invoice_expiries ps ext nows order dur m = (r, m') \<Longrightarrow>
    mgr_step ps ext m m'"
| broadcasted: "onchain_send_broadcasted ps pid txid m = (r, m') \<Longrightarrow> mgr_step ps ext m m'"
| confs: "distinct ids \<Longrightarrow> onchain_confs_apply ps nows ids statuses m = (r, m') \<Longrightarrow>
    mgr_step ps ext m m'"

end
