(* ===== verification/Manager_Proofs.thy ===== *)
theory Manager_Proofs
  imports Manager
begin

text \<open>
  Correctness of the payments manager against the contract of its store: after every handler the
  in-memory state is exactly what a restart would read back, stored payments only move along their
  lifecycle, and finalized payments stay finalized.
\<close>

section \<open>Synchronization of memory and store\<close>

definition view_sync :: "PaymentsData \<Rightarrow> (LxPaymentId \<rightharpoonup> Payment) \<Rightarrow> bool" where
  "view_sync d v \<longleftrightarrow>
     (\<forall>i p. pending d i = Some p \<longleftrightarrow> v i = Some p \<and> is_pending_payment p) \<and>
     (\<forall>i. i \<in> finalized d \<longleftrightarrow> (\<exists>p. v i = Some p \<and> \<not> is_pending_payment p))"

definition stored_ok :: "(LxPaymentId \<rightharpoonup> Payment) \<Rightarrow> bool" where
  "stored_ok v \<longleftrightarrow> (\<forall>i p. v i = Some p \<longrightarrow> payment_id p = i \<and> storable p \<and> assert_invariants p)"

text \<open>A stored payment changes by a transition of its type or by a new note.\<close>

definition evolves :: "(bytes \<Rightarrow> bytes) \<Rightarrow> Payment \<Rightarrow> Payment \<Rightarrow> bool" where
  "evolves sha256 p q \<longleftrightarrow> payment_step sha256 p q \<or> (\<exists>n. q = set_note n p)"

lemma evolves_stepI: "payment_step sha256 p q \<Longrightarrow> evolves sha256 p q"
  by (simp add: evolves_def)

lemma evolves_noteI: "evolves sha256 p (set_note n p)"
  by (auto simp: evolves_def)

definition grows :: "(bytes \<Rightarrow> bytes) \<Rightarrow> (LxPaymentId \<rightharpoonup> Payment) \<Rightarrow> (LxPaymentId \<rightharpoonup> Payment) \<Rightarrow> bool" where
  "grows sha256 v v' \<longleftrightarrow> (\<forall>i p. v i = Some p \<longrightarrow> (\<exists>q. v' i = Some q \<and> (evolves sha256)\<^sup>*\<^sup>* p q))"

definition admissible :: "(bytes \<Rightarrow> bytes) \<Rightarrow> (LxPaymentId \<rightharpoonup> Payment) \<Rightarrow> Payment \<Rightarrow> bool" where
  "admissible sha256 v q \<longleftrightarrow> storable q \<and> assert_invariants q \<and>
     (\<forall>p. v (payment_id q) = Some p \<longrightarrow> evolves sha256 p q)"

lemma commit_pending:
  "is_pending_payment p \<Longrightarrow> commit p d = d\<lparr>pending := (pending d)(payment_id p \<mapsto> p)\<rparr>"
  by (simp add: commit_def is_pending_payment_def)

lemma commit_final:
  "\<not> is_pending_payment p \<Longrightarrow>
     commit p d = d\<lparr>pending := (pending d)(payment_id p := None),
       finalized := insert (payment_id p) (finalized d)\<rparr>"
  by (cases "payment_status p") (simp_all add: commit_def is_pending_payment_def Let_def)

lemma evolves_status: "evolves sha256 p q \<Longrightarrow> \<not> is_pending_payment p \<Longrightarrow> \<not> is_pending_payment q"
  using payment.step_pending by (auto simp: evolves_def is_pending_payment_def)

lemma evolves_index: "evolves sha256 p q \<Longrightarrow> payment_id q = payment_id p \<and> payment_created_at q = payment_created_at p"
  using payment.step_id payment.step_created by (auto simp: evolves_def)

lemma sync_commit:
  assumes "view_sync d v" and "admissible sha256 v p"
  shows "view_sync (commit p d) (put_payment p v)"
proof (cases "is_pending_payment p")
  case True
  have "payment_id p \<notin> finalized d"
    using assms True unfolding view_sync_def admissible_def by (metis evolves_status)
  with assms(1) True show ?thesis
    by (auto simp: view_sync_def commit_pending put_payment_Some)
next
  case False
  with assms(1) show ?thesis
    by (auto simp: view_sync_def commit_final put_payment_Some)
qed

lemma stored_put: "stored_ok v \<Longrightarrow> admissible sha256 v p \<Longrightarrow> stored_ok (put_payment p v)"
  by (auto simp: stored_ok_def admissible_def put_payment_Some)

lemma grows_refl [simp]: "grows sha256 v v"
  by (auto simp: grows_def)

lemma grows_trans: "grows sha256 u v \<Longrightarrow> grows sha256 v w \<Longrightarrow> grows sha256 u w"
  unfolding grows_def by (meson rtranclp_trans)

lemma grows_put: "admissible sha256 v p \<Longrightarrow> grows sha256 v (put_payment p v)"
  unfolding grows_def admissible_def
  by (metis put_payment_Some r_into_rtranclp rtranclp.rtrancl_refl)

lemma admissible_same_index: "admissible sha256 v p \<Longrightarrow> same_index v p"
  unfolding admissible_def same_index_def using evolves_index by metis

lemma admissible_evolves:
  assumes "stored_ok v" and "v i = Some p" and "evolves sha256 p q"
  shows "admissible sha256 v q"
proof -
  have "payment_id p = i" "storable p" "assert_invariants p"
    using assms(1,2) by (auto simp: stored_ok_def)
  moreover have "assert_invariants q"
    using assms(3) calculation(3) assert_invariants_step by (auto simp: evolves_def)
  moreover have "payment_id q = payment_id p \<and> payment_created_at q = payment_created_at p"
    using assms(3) by (rule evolves_index)
  ultimately show ?thesis
    using assms(2,3) by (simp add: admissible_def storable_def)
qed

lemma sync_pending: "view_sync d v \<Longrightarrow> pending d i = Some p \<Longrightarrow> v i = Some p"
  by (simp add: view_sync_def)

lemma sync_absent: "view_sync d v \<Longrightarrow> pending d i = None \<Longrightarrow> i \<notin> finalized d \<Longrightarrow> v i = None"
  unfolding view_sync_def by (metis not_None_eq)

lemma sync_unique: "view_sync d v \<Longrightarrow> view_sync d' v \<Longrightarrow> d = d'"
proof (rule PaymentsData.equality)
  assume s: "view_sync d v" "view_sync d' v"
  have "pending d i = pending d' i" for i
    using s unfolding view_sync_def by (metis option.exhaust)
  then show "pending d = pending d'" by blast
  show "finalized d = finalized d'"
    using s by (auto simp: view_sync_def)
qed simp

section \<open>What the check methods let through\<close>

text \<open>Every checked payment is a transition of the pending payment with its id, or a new payment.\<close>

lemma check_new_payment_ok:
  "check_new_payment d p = Inr q \<longleftrightarrow> q = p \<and> pending d (payment_id p) = None \<and> payment_id p \<notin> finalized d"
  by (auto simp: check_new_payment_def Let_def)

lemma payment_check_claimable_step:
  "payment_check_claimable lib clock p hash amount purpose = Inr q \<Longrightarrow> payment_step sha256 p q"
  by (induction lib clock p hash amount purpose rule: payment_check_claimable.induct)
    (auto simp: result_simps intro: payment_step.intros iip_step.claimable isp_step.claimable)

lemma check_payment_claimable_ok:
  assumes "check_payment_claimable ext clock now d hash amount purpose = Inr q"
  shows "(\<exists>p. pending d (Lightning hash) = Some p \<and> payment_step sha256 p q) \<or>
    (pending d (Lightning hash) = None \<and> Lightning hash \<notin> finalized d \<and>
      (\<exists>pre. purpose = LxPaymentPurpose.Spontaneous pre \<and>
        q = InboundSpontaneous (isp_new now hash pre amount)))"
  using assms
  by (auto simp: check_payment_claimable_def Let_def id_from_hash_def result_simps check_new_payment_ok
      intro: payment_check_claimable_step split: option.splits LxPaymentPurpose.splits)

lemma check_payment_claimed_inv:
  assumes "check_payment_claimed now d hash amount purpose = Inr q"
  obtains (invoice) iip iip' pre secret where
      "pending d (Lightning hash) = Some (InboundInvoice iip)" and "q = InboundInvoice iip'"
      "purpose = LxPaymentPurpose.Invoice pre secret"
      "iip_check_payment_claimed now hash secret pre amount iip = Inr iip'"
  | (spontaneous) isp isp' pre where
      "pending d (Lightning hash) = Some (InboundSpontaneous isp)" and "q = InboundSpontaneous isp'"
      "purpose = LxPaymentPurpose.Spontaneous pre"
      "isp_check_payment_claimed now hash pre amount isp = Inr isp'"
proof -
  obtain p where "pending d (Lightning hash) = Some p"
    using assms by (auto simp: check_payment_claimed_def Let_def id_from_hash_def result_simps)
  with assms that show ?thesis
    by (cases p; cases purpose)
      (auto simp: check_payment_claimed_def Let_def id_from_hash_def result_simps)
qed

lemma check_payment_sent_inv:
  assumes "check_payment_sent ext now d hash pre fees = Inr q"
  obtains oip oip' where "pending d (Lightning hash) = Some (OutboundInvoice oip)"
    and "q = OutboundInvoice oip'" and "oip_check_payment_sent (ext_sha256 ext) now hash pre fees oip = Inr oip'"
proof -
  obtain p where "pending d (Lightning hash) = Some p"
    using assms by (auto simp: check_payment_sent_def Let_def id_from_hash_def result_simps)
  with assms that show ?thesis
    by (cases p) (auto simp: check_payment_sent_def Let_def id_from_hash_def result_simps)
qed

lemma check_payment_failed_inv:
  assumes "check_payment_failed now d hash failure = Inr q"
  obtains oip oip' where "pending d (Lightning hash) = Some (OutboundInvoice oip)"
    and "q = OutboundInvoice oip'" and "oip_check_payment_failed now hash failure oip = Inr oip'"
proof -
  obtain p where "pending d (Lightning hash) = Some p"
    using assms by (auto simp: check_payment_failed_def Let_def id_from_hash_def result_simps)
  with assms that show ?thesis
    by (cases p) (auto simp: check_payment_failed_def Let_def id_from_hash_def result_simps)
qed

lemma check_payment_claimed_step:
  assumes "check_payment_claimed now d hash amount purpose = Inr q"
  shows "\<exists>p. pending d (Lightning hash) = Some p \<and> payment_step sha256 p q"
  using assms
  by (rule check_payment_claimed_inv)
    (blast intro: payment_step.intros iip_step.claimed isp_step.claimed)+

lemma check_payment_sent_step:
  assumes "check_payment_sent ext now d hash pre fees = Inr q"
  shows "\<exists>p. pending d (Lightning hash) = Some p \<and> payment_step (ext_sha256 ext) p q"
  using assms by (rule check_payment_sent_inv) (blast intro: payment_step.intros oip_step.sent)

lemma check_payment_failed_step:
  assumes "check_payment_failed now d hash failure = Inr q"
  shows "\<exists>p. pending d (Lightning hash) = Some p \<and> payment_step sha256 p q"
  using assms by (rule check_payment_failed_inv) (blast intro: payment_step.intros oip_step.failed)

lemma expire_payment_step: "expire_payment lib now dur p = Some q \<Longrightarrow> payment_step sha256 p q"
  by (auto simp: expire_payment_def split: Payment.splits
      intro: payment_step.intros iip_step.expiry oip_step.expiry)

lemma check_one_conf_step:
  assumes "check_one_conf now d (i, c) = Inr (Some q)"
  shows "\<exists>p. pending d i = Some p \<and> payment_step sha256 p q"
proof -
  obtain p where "pending d i = Some p"
    using assms by (auto simp: check_one_conf_def result_simps)
  with assms show ?thesis
    by (cases p) (auto simp: check_one_conf_def result_simps map_option_case split: option.splits
        intro: payment_step.intros os_step.conf or_step.conf)
qed

section \<open>Handlers over a lawful store\<close>

definition mgr_ok ::
    "('w \<Rightarrow> LxPaymentId \<rightharpoonup> Payment) \<Rightarrow> ('w \<Rightarrow> bool) \<Rightarrow> 'w manager \<Rightarrow> bool" where
  "mgr_ok view wok m \<longleftrightarrow>
     wok (world m) \<and> stored_ok (view (world m)) \<and> view_sync (mdata m) (view (world m))"

definition mgr_next ::
    "(bytes \<Rightarrow> bytes) \<Rightarrow> ('w \<Rightarrow> LxPaymentId \<rightharpoonup> Payment) \<Rightarrow> ('w \<Rightarrow> bool) \<Rightarrow> 'w manager \<Rightarrow> 'w manager \<Rightarrow> bool" where
  "mgr_next sha256 view wok m m' \<longleftrightarrow>
     mgr_ok view wok m' \<and> grows sha256 (view (world m)) (view (world m'))"

lemma mgr_ok_more [simp]:
  "mgr_ok view wok (m\<lparr>effects := l\<rparr>) = mgr_ok view wok m"
  "mgr_ok view wok (emit e m) = mgr_ok view wok m"
  "world (emit e m) = world m" "mdata (emit e m) = mdata m" "effects (emit e m) = effects m @ [e]"
  by (simp_all add: mgr_ok_def emit_def)

lemma mgr_next_emit [simp]: "mgr_next sha256 view wok m (emit e m') = mgr_next sha256 view wok m m'"
  by (simp add: mgr_next_def)

lemma mgr_next_refl: "mgr_ok view wok m \<Longrightarrow> mgr_next sha256 view wok m m"
  by (simp add: mgr_next_def)

lemma admissible_pending:
  assumes "mgr_ok view wok m" and "pending (mdata m) i = Some p" and "evolves sha256 p q"
  shows "admissible sha256 (view (world m)) q"
  using assms admissible_evolves sync_pending unfolding mgr_ok_def by metis

lemma admissible_new:
  assumes "mgr_ok view wok m" and "pending (mdata m) (payment_id p) = None"
    and "payment_id p \<notin> finalized (mdata m)" and "storable p" and "assert_invariants p"
  shows "admissible sha256 (view (world m)) p \<and> view (world m) (payment_id p) = None"
  using assms sync_absent [of "mdata m" "view (world m)"] by (simp add: mgr_ok_def admissible_def)

context payment_store
begin

lemma write_ok:
  assumes "mgr_ok view wok m" and "admissible sha256 (view (world m)) p"
    and "call (world m) = (r, w')"
    and "wok w' \<and> (case r of Inl e \<Rightarrow> view w' = view (world m)
      | Inr q \<Rightarrow> q = p \<and> view w' = put_payment p (view (world m)))"
    and "persist_commit call m = (res, m')"
  shows "mgr_next sha256 view wok m m' \<and> effects m' = effects m \<and>
    (case res of Inl e \<Rightarrow> view (world m') = view (world m) \<and> mdata m' = mdata m
      | Inr _ \<Rightarrow> view (world m') = put_payment p (view (world m)) \<and> mdata m' = commit p (mdata m))"
proof (cases r)
  case (Inl e)
  with assms show ?thesis by (auto simp: persist_commit_def mgr_next_def mgr_ok_def)
next
  case (Inr q)
  with assms have "m' = m\<lparr>world := w', mdata := commit p (mdata m)\<rparr>" "res = Inr ()"
    "view w' = put_payment p (view (world m))" "wok w'"
    by (auto simp: persist_commit_def)
  with assms(1,2) show ?thesis
    by (auto simp: mgr_next_def mgr_ok_def intro: sync_commit stored_put grows_put)
qed

lemma persist_commit_ok:
  assumes "mgr_ok view wok m" and "admissible sha256 (view (world m)) p"
    and "persist_commit (persist_payment ps p) m = (res, m')"
  shows "mgr_next sha256 view wok m m' \<and> effects m' = effects m \<and>
    (case res of Inl e \<Rightarrow> view (world m') = view (world m) \<and> mdata m' = mdata m
      | Inr _ \<Rightarrow> view (world m') = put_payment p (view (world m)) \<and> mdata m' = commit p (mdata m))"
proof -
  obtain r w' where call: "persist_payment ps p (world m) = (r, w')" by force
  show ?thesis
    by (rule write_ok [OF assms(1,2) call _ assms(3)], rule persist [OF _ _ _ call])
      (use assms(1,2) in \<open>auto simp: mgr_ok_def admissible_def intro: admissible_same_index\<close>)
qed

lemma new_payment_ok:
  assumes "mgr_ok view wok m" and "storable p" and "assert_invariants p"
    and "new_payment ps p m = (res, m')"
  shows "mgr_next sha256 view wok m m' \<and> effects m' = effects m \<and>
    (case res of Inl e \<Rightarrow> view (world m') = view (world m) \<and> mdata m' = mdata m
      | Inr _ \<Rightarrow> \<not> contains_payment_id (mdata m) (payment_id p) \<and>
          view (world m') = put_payment p (view (world m)) \<and> mdata m' = commit p (mdata m))"
proof (cases "check_new_payment (mdata m) p")
  case (Inl e)
  with assms show ?thesis by (auto simp: new_payment_def mgr_next_refl)
next
  case (Inr q)
  then have new: "q = p" "pending (mdata m) (payment_id p) = None" "payment_id p \<notin> finalized (mdata m)"
    by (auto simp: check_new_payment_ok)
  then have adm: "admissible sha256 (view (world m)) p" "view (world m) (payment_id p) = None"
    using admissible_new assms(1-3) by blast+
  obtain r w' where call: "create_payment ps p (world m) = (r, w')" by force
  have commit: "persist_commit (create_payment ps p) m = (res, m')"
    using Inr new assms(4) by (simp add: new_payment_def)
  have "wok (world m)" using assms(1) by (simp add: mgr_ok_def)
  from write_ok [OF assms(1) adm(1) call create [OF this assms(2) adm(2) call] commit] new
  show ?thesis by (auto simp: contains_payment_id_def split: sum.splits)
qed

end

lemma admissible_put:
  "admissible sha256 v q \<Longrightarrow> payment_id q \<noteq> payment_id p \<Longrightarrow> admissible sha256 (put_payment p v) q"
  by (auto simp: admissible_def put_payment_other)

lemma batch_sync:
  assumes "view_sync d v" and "stored_ok v" and "\<forall>q \<in> set qs. admissible sha256 v q"
    and "distinct (map payment_id qs)"
  shows "view_sync (fold commit qs d) (fold put_payment qs v) \<and> stored_ok (fold put_payment qs v) \<and>
    grows sha256 v (fold put_payment qs v)"
  using assms
proof (induction qs arbitrary: d v)
  case (Cons p qs)
  have p: "admissible sha256 v p" using Cons.prems by simp
  have "admissible sha256 (put_payment p v) q" if "q \<in> set qs" for q
  proof (rule admissible_put)
    show "admissible sha256 v q" using that Cons.prems(3) by simp
    have "payment_id p \<notin> payment_id ` set qs" using Cons.prems(4) by simp
    with that show "payment_id q \<noteq> payment_id p" by (metis imageI)
  qed
  then have "view_sync (fold commit qs (commit p d)) (fold put_payment qs (put_payment p v)) \<and>
      stored_ok (fold put_payment qs (put_payment p v)) \<and>
      grows sha256 (put_payment p v) (fold put_payment qs (put_payment p v))"
    using Cons.IH [of "commit p d" "put_payment p v"] Cons.prems(1,2,4) p sync_commit stored_put
    by auto
  with p show ?case using grows_put grows_trans by fastforce
qed simp

text \<open>Iterating without repetition gives payments with distinct ids.\<close>

lemma distinct_map_filter_ids:
  assumes "distinct (map k xs)" and "\<forall>x \<in> set xs. \<forall>q. f x = Some q \<longrightarrow> payment_id q = k x"
  shows "distinct (map payment_id (List.map_filter f xs)) \<and>
    payment_id ` set (List.map_filter f xs) \<subseteq> k ` set xs"
  using assms
proof (induction xs)
  case (Cons x xs)
  then have IH: "distinct (map payment_id (List.map_filter f xs))"
    "payment_id ` set (List.map_filter f xs) \<subseteq> k ` set xs" and "k x \<notin> k ` set xs"
    by simp_all
  then show ?case
    using Cons.prems(2) by (cases "f x") (auto simp: List.map_filter_simps dest: subsetD)
qed (simp add: List.map_filter_simps)

lemma map_filter_comp:
  "List.map_filter f (List.map_filter g xs) = List.map_filter (\<lambda>x. Option.bind (g x) f) xs"
  by (induction xs) (auto simp: List.map_filter_simps split: option.splits)

lemma map_filter_id_collect:
  "collect_results (map f xs) = Inr ys \<Longrightarrow>
     List.map_filter (\<lambda>x. x) ys = List.map_filter (\<lambda>x. case f x of Inl _ \<Rightarrow> None | Inr y \<Rightarrow> y) xs"
  by (induction xs arbitrary: ys)
    (auto simp: result_simps List.map_filter_simps split: option.splits)

lemma expiries_admissible:
  assumes "mgr_ok view wok m" and "distinct order"
    and "data_check_invoice_expiries lib nows order (mdata m) dur = (qs, hs)"
  shows "(\<forall>q \<in> set qs. admissible sha256 (view (world m)) q) \<and> distinct (map payment_id qs)"
proof -
  have qs: "qs = List.map_filter (\<lambda>i. Option.bind (pending (mdata m) i) (expire_payment lib nows dur)) order"
    using assms(3) by (auto simp: data_check_invoice_expiries_def Let_def map_filter_comp)
  have step: "\<exists>p. pending (mdata m) i = Some p \<and> payment_step sha256 p q"
    if "Option.bind (pending (mdata m) i) (expire_payment lib nows dur) = Some q" for i q
    using that expire_payment_step by (auto simp: Option.bind_eq_Some_conv)
  have pid: "payment_id p = i" if "pending (mdata m) i = Some p" for i p
    using that assms(1) by (auto simp: mgr_ok_def stored_ok_def view_sync_def)
  have "\<forall>q \<in> set qs. admissible sha256 (view (world m)) q"
    unfolding qs set_map_filter
    using step admissible_pending [OF assms(1)] unfolding evolves_def by blast
  moreover have "distinct (map payment_id qs) \<and> payment_id ` set qs \<subseteq> (\<lambda>i. i) ` set order"
    unfolding qs
  proof (rule distinct_map_filter_ids)
    show "distinct (map (\<lambda>i. i) order)" using assms(2) by simp
  qed (use step pid payment_step_id in fastforce)
  ultimately show ?thesis by blast
qed

lemma confs_admissible:
  assumes "mgr_ok view wok m" and "distinct ids"
    and "data_check_onchain_confs nows (mdata m) ids statuses = Inr qs"
  shows "(\<forall>q \<in> set qs. admissible sha256 (view (world m)) q) \<and> distinct (map payment_id qs)"
proof -
  define f where "f x = (case check_one_conf nows (mdata m) x of Inl _ \<Rightarrow> None | Inr y \<Rightarrow> y)" for x
  have qs: "qs = List.map_filter f (zip ids statuses)"
    using assms(3) unfolding f_def data_check_onchain_confs_def
    by (auto simp: result_simps dest: map_filter_id_collect)
  have step: "\<exists>p. pending (mdata m) i = Some p \<and> payment_step sha256 p q" if "f (i, c) = Some q" for i c q
    using that check_one_conf_step unfolding f_def by (auto split: sum.splits)
  have pid: "payment_id p = i" if "pending (mdata m) i = Some p" for i p
    using that assms(1) by (auto simp: mgr_ok_def stored_ok_def view_sync_def)
  have "\<forall>q \<in> set qs. admissible sha256 (view (world m)) q"
    unfolding qs set_map_filter
    using step admissible_pending [OF assms(1)] unfolding evolves_def by fast
  moreover have "distinct (map payment_id qs) \<and> payment_id ` set qs \<subseteq> fst ` set (zip ids statuses)"
    unfolding qs
  proof (rule distinct_map_filter_ids)
    show "distinct (map fst (zip ids statuses))"
      using assms(2) by (simp add: map_fst_zip_take)
  qed (use step pid payment_step_id in fastforce)
  ultimately show ?thesis by blast
qed

context payment_store
begin

lemma persist_commit_batch_ok:
  assumes "mgr_ok view wok m" and "\<forall>q \<in> set qs. admissible sha256 (view (world m)) q"
    and "distinct (map payment_id qs)" and "persist_commit_batch ps qs m = (res, m')"
  shows "mgr_next sha256 view wok m m' \<and> effects m' = effects m \<and>
    (case res of Inl e \<Rightarrow> view (world m') = view (world m) \<and> mdata m' = mdata m
      | Inr _ \<Rightarrow> view (world m') = fold put_payment qs (view (world m)) \<and>
          mdata m' = fold commit qs (mdata m))"
proof -
  obtain r w' where call: "persist_payment_batch ps qs (world m) = (r, w')" by force
  have "wok (world m)" and "\<forall>q \<in> set qs. storable q \<and> same_index (view (world m)) q"
    using assms(1,2) admissible_same_index by (auto simp: mgr_ok_def admissible_def)
  from persist_batch [OF this assms(3) call]
  have law: "wok w' \<and> (case r of Inl e \<Rightarrow> view w' = view (world m)
    | Inr qs' \<Rightarrow> qs' = qs \<and> view w' = fold put_payment qs (view (world m)))" .
  show ?thesis
  proof (cases r)
    case (Inl e)
    with assms(1,4) law call show ?thesis
      by (auto simp: persist_commit_batch_def mgr_next_def mgr_ok_def)
  next
    case (Inr qs')
    with assms(4) law call have "m' = m\<lparr>world := w', mdata := fold commit qs (mdata m)\<rparr>"
      "res = Inr ()" "view w' = fold put_payment qs (view (world m))" "wok w'"
      by (auto simp: persist_commit_batch_def)
    with assms(1) batch_sync [OF _ _ assms(2,3)] show ?thesis
      by (auto simp: mgr_next_def mgr_ok_def)
  qed
qed

lemma update_payment_note_ok:
  assumes ok: "mgr_ok view wok m" and upd: "update_payment_note ps idx n m = (res, m')"
  shows "mgr_next sha256 view wok m m' \<and> effects m' = effects m \<and>
    (res = Inr () \<longrightarrow> (\<exists>p. view (world m) (index_id idx) = Some p \<and>
      view (world m') = put_payment (set_note n p) (view (world m))))"
proof (cases "pending (mdata m) (index_id idx)")
  case (Some p)
  then have "admissible sha256 (view (world m)) (set_note n p)"
    by (intro admissible_pending [OF ok]) (auto simp: evolves_def)
  moreover have "persist_commit (persist_payment ps (set_note n p)) m = (res, m')"
    using upd Some by (simp add: update_payment_note_def)
  moreover have "view (world m) (index_id idx) = Some p"
    using ok Some by (auto simp: mgr_ok_def dest: sync_pending)
  ultimately show ?thesis
    using persist_commit_ok [OF ok] by fastforce
next
  case None
  show ?thesis
  proof (cases "index_id idx \<in> finalized (mdata m)")
    case False
    with None upd ok show ?thesis by (auto simp: update_payment_note_def mgr_next_refl)
  next
    case True
    then obtain p where p: "view (world m) (index_id idx) = Some p"
      using ok by (auto simp: mgr_ok_def view_sync_def)
    then have "id_valid (index_id idx)"
      using ok unfolding mgr_ok_def stored_ok_def storable_def by metis
    moreover obtain g w where call: "get_payment ps idx (world m) = (g, w)" by force
    ultimately have w: "wok w" "view w = view (world m)" "\<forall>q. g = Inr q \<longrightarrow> q = Some p"
      using get [OF _ call] ok p by (auto simp: mgr_ok_def)
    have okw: "mgr_ok view wok (m\<lparr>world := w\<rparr>)"
      using ok w by (simp add: mgr_ok_def)
    show ?thesis
    proof (cases g)
      case (Inl e)
      with None True upd call okw w(2) show ?thesis
        by (auto simp: update_payment_note_def mgr_next_def)
    next
      case (Inr q)
      with w(3) have "q = Some p" by blast
      with Inr None True upd call
      have "persist_commit (persist_payment ps (set_note n p)) (m\<lparr>world := w\<rparr>) = (res, m')"
        by (simp add: update_payment_note_def)
      moreover have "admissible sha256 (view w) (set_note n p)"
        using ok p w(2) evolves_noteI unfolding mgr_ok_def by (auto intro: admissible_evolves)
      ultimately show ?thesis
        using persist_commit_ok [OF okw] p w(2) by (fastforce simp: mgr_next_def)
    qed
  qed
qed

end

section \<open>Handlers, case by case\<close>

lemma unit_sum_cases: "r = Inr () \<or> (\<exists>e. r = Inl e)" for r :: "'e + unit"
  by (cases r) simp_all

lemma payment_claimable_checked:
  assumes "from_msat (ext_decimal ext) amt = Some amount" and "purpose_try_from purpose = Inr lx"
    and "check_payment_claimable ext clock now (mdata m) hash amount lx = Inr q"
    and "persist_commit (persist_payment ps q) m = (r, m1)"
  shows "payment_claimable ps ext clock now hash amt purpose m =
    (r, if r = Inr () then emit (SendTestEvent PaymentClaimable) (emit (ClaimFunds (preimage lx)) m1)
        else emit (FailHtlcBackwards hash TemporaryNodeFailure) m1)"
  using unit_sum_cases [of r] assms by (auto simp: payment_claimable_def)

lemma payment_claimed_checked:
  assumes "from_msat (ext_decimal ext) amt = Some amount" and "purpose_try_from purpose = Inr lx"
    and "check_payment_claimed now (mdata m) hash amount lx = Inr q"
    and "persist_commit (persist_payment ps q) m = (r, m1)"
  shows "payment_claimed ps ext now hash amt purpose m =
    (r, if r = Inr () then emit (SendTestEvent PaymentClaimed) m1 else m1)"
  using unit_sum_cases [of r] assms by (auto simp: payment_claimed_def)

lemma payment_sent_checked:
  assumes "fees_from_msat (ext_decimal ext) fees = Some f"
    and "check_payment_sent ext now (mdata m) hash pre f = Inr q"
    and "persist_commit (persist_payment ps q) m = (r, m1)"
  shows "payment_sent ps ext now hash pre fees m =
    (r, if r = Inr () then emit (SendTestEvent PaymentSent) m1 else m1)"
  using unit_sum_cases [of r] assms by (auto simp: payment_sent_def)

lemma isp_new_ok:
  "hash_valid hash \<Longrightarrow> timestamp_valid now \<Longrightarrow>
     storable (InboundSpontaneous (isp_new now hash pre amount)) \<and>
     assert_invariants (InboundSpontaneous (isp_new now hash pre amount))"
  by (simp add: storable_def assert_invariants_def isp_new_def)

lemma claimable_admissible:
  assumes "mgr_ok view wok m" and "hash_valid hash" and "timestamp_valid now"
    and "check_payment_claimable ext clock now (mdata m) hash amount purpose = Inr q"
  shows "admissible sha256 (view (world m)) q"
  using check_payment_claimable_ok [OF assms(4), of sha256]
proof
  assume "\<exists>p. pending (mdata m) (Lightning hash) = Some p \<and> payment_step sha256 p q"
  then show ?thesis using admissible_pending [OF assms(1)] evolves_stepI by blast
next
  assume new: "pending (mdata m) (Lightning hash) = None \<and> Lightning hash \<notin> finalized (mdata m) \<and>
      (\<exists>pre. purpose = LxPaymentPurpose.Spontaneous pre \<and>
        q = InboundSpontaneous (isp_new now hash pre amount))"
  then have "payment_id q = Lightning hash" "storable q" "assert_invariants q"
    using isp_new_ok [OF assms(2,3)] by (auto simp: isp_new_def)
  with new assms(1) show ?thesis using admissible_new by metis
qed

lemma step_admissible:
  assumes "mgr_ok view wok m" and "\<exists>p. pending (mdata m) i = Some p \<and> payment_step sha256 p q"
  shows "admissible sha256 (view (world m)) q"
  using assms admissible_pending evolves_stepI by blast

context payment_store
begin

lemma payment_claimable_ok:
  assumes ok: "mgr_ok view wok m" and "hash_valid hash" and "timestamp_valid now"
    and run: "payment_claimable ps ext clock now hash amt purpose m = (res, m')"
  shows "mgr_next sha256 view wok m m'"
proof (cases "from_msat (ext_decimal ext) amt")
  case None
  with run ok show ?thesis by (auto simp: payment_claimable_def mgr_next_refl)
next
  case amount: (Some amount)
  show ?thesis
  proof (cases "purpose_try_from purpose")
    case (Inl e)
    with amount run ok show ?thesis by (auto simp: payment_claimable_def mgr_next_refl)
  next
    case lx: (Inr lx)
    show ?thesis
    proof (cases "check_payment_claimable ext clock now (mdata m) hash amount lx")
      case (Inl e)
      with amount lx run ok show ?thesis by (auto simp: payment_claimable_def mgr_next_refl)
    next
      case (Inr q)
      note adm = claimable_admissible [OF ok assms(2,3) Inr, of sha256]
      obtain r m1 where call: "persist_commit (persist_payment ps q) m = (r, m1)" by force
      have "mgr_next sha256 view wok m m1"
        using persist_commit_ok [OF ok adm call] by (rule conjunct1)
      with payment_claimable_checked [OF amount lx Inr call] run show ?thesis
        by (simp split: if_splits)
    qed
  qed
qed

lemma payment_claimed_ok:
  assumes ok: "mgr_ok view wok m" and run: "payment_claimed ps ext now hash amt purpose m = (res, m')"
  shows "mgr_next sha256 view wok m m'"
proof (cases "from_msat (ext_decimal ext) amt")
  case None
  with run ok show ?thesis by (auto simp: payment_claimed_def mgr_next_refl)
next
  case amount: (Some amount)
  show ?thesis
  proof (cases "purpose_try_from purpose")
    case (Inl e)
    with amount run ok show ?thesis by (auto simp: payment_claimed_def mgr_next_refl)
  next
    case lx: (Inr lx)
    show ?thesis
    proof (cases "check_payment_claimed now (mdata m) hash amount lx")
      case (Inl e)
      with amount lx run ok show ?thesis by (auto simp: payment_claimed_def mgr_next_refl)
    next
      case (Inr q)
      note adm = step_admissible [OF ok check_payment_claimed_step [OF Inr, of sha256]]
      obtain r m1 where call: "persist_commit (persist_payment ps q) m = (r, m1)" by force
      have "mgr_next sha256 view wok m m1"
        using persist_commit_ok [OF ok adm call] by (rule conjunct1)
      with payment_claimed_checked [OF amount lx Inr call] run show ?thesis
        by (simp split: if_splits)
    qed
  qed
qed

lemma payment_sent_ok:
  assumes ok: "mgr_ok view wok m" and run: "payment_sent ps ext now hash pre fees m = (res, m')"
  shows "mgr_next (ext_sha256 ext) view wok m m'"
proof (cases "fees_from_msat (ext_decimal ext) fees")
  case None
  with run ok show ?thesis by (auto simp: payment_sent_def mgr_next_refl)
next
  case amount: (Some f)
  show ?thesis
  proof (cases "check_payment_sent ext now (mdata m) hash pre f")
    case (Inl e)
    with amount run ok show ?thesis by (auto simp: payment_sent_def mgr_next_refl)
  next
    case (Inr q)
    note adm = step_admissible [OF ok check_payment_sent_step [OF Inr]]
    obtain r m1 where call: "persist_commit (persist_payment ps q) m = (r, m1)" by force
    have "mgr_next (ext_sha256 ext) view wok m m1"
      using persist_commit_ok [OF ok adm call] by (rule conjunct1)
    with payment_sent_checked [OF amount Inr call] run show ?thesis
      by (simp split: if_splits)
  qed
qed

lemma payment_failed_ok:
  assumes ok: "mgr_ok view wok m" and run: "payment_failed ps now hash failure m = (res, m')"
  shows "mgr_next sha256 view wok m m'"
proof (cases "check_payment_failed now (mdata m) hash failure")
  case (Inl e)
  with run ok show ?thesis by (auto simp: payment_failed_def mgr_next_refl)
next
  case (Inr q)
  note adm = step_admissible [OF ok check_payment_failed_step [OF Inr, of sha256]]
  show ?thesis
    using persist_commit_ok [OF ok adm] Inr run by (auto simp: payment_failed_def)
qed

lemma check_invoice_expiries_ok:
  assumes ok: "mgr_ok view wok m" and "distinct order"
    and run: "check_invoice_expiries ps ext nows order dur m = (res, m')"
  shows "mgr_next sha256 view wok m m'"
proof -
  obtain qs hs where chk: "data_check_invoice_expiries (ext_invoice ext) nows order (mdata m) dur = (qs, hs)"
    by force
  let ?m = "m\<lparr>effects := effects m @ map AbandonPayment hs\<rparr>"
  have "mgr_ok view wok ?m" using ok by simp
  from persist_commit_batch_ok [OF this, of qs sha256] expiries_admissible [OF ok assms(2) chk, of sha256] run chk
  show ?thesis by (auto simp: check_invoice_expiries_def mgr_next_def)
qed

lemma onchain_send_broadcasted_ok:
  assumes ok: "mgr_ok view wok m" and run: "onchain_send_broadcasted ps pid txid m = (res, m')"
  shows "mgr_next sha256 view wok m m'"
proof (cases "\<exists>os os'. pid \<notin> finalized (mdata m) \<and> pending (mdata m) pid = Some (Payment.OnchainSend os) \<and>
    os_broadcasted txid os = Inr os'")
  case True
  then obtain os os' where t: "pid \<notin> finalized (mdata m)"
    "pending (mdata m) pid = Some (Payment.OnchainSend os)" "os_broadcasted txid os = Inr os'" by blast
  then have "\<exists>p. pending (mdata m) pid = Some p \<and> payment_step sha256 p (Payment.OnchainSend os')"
    by (blast intro: payment_step.onchain_send os_step.broadcast)
  from persist_commit_ok [OF ok step_admissible [OF ok this]] t run show ?thesis
    by (auto simp: onchain_send_broadcasted_def)
next
  case False
  with run ok have "m' = m"
    by (auto simp: onchain_send_broadcasted_def split: if_splits option.splits Payment.splits sum.splits)
  with ok show ?thesis by (simp add: mgr_next_refl)
qed

lemma onchain_confs_apply_ok:
  assumes ok: "mgr_ok view wok m" and "distinct ids"
    and run: "onchain_confs_apply ps nows ids statuses m = (res, m')"
  shows "mgr_next sha256 view wok m m'"
proof (cases "data_check_onchain_confs nows (mdata m) ids statuses")
  case (Inl e)
  with run ok show ?thesis by (auto simp: onchain_confs_apply_def mgr_next_refl)
next
  case (Inr qs)
  from persist_commit_batch_ok [OF ok, of qs sha256] confs_admissible [OF ok assms(2) Inr, of sha256] Inr run
  show ?thesis by (auto simp: onchain_confs_apply_def)
qed

lemma mgr_step_next:
  assumes "mgr_step ps ext m m'" and ok: "mgr_ok view wok m"
  shows "mgr_next (ext_sha256 ext) view wok m m'"
  using assms(1)
proof cases
  case (new_payment p r)
  from new_payment_ok [OF ok this] show ?thesis by (rule conjunct1)
next
  case (update_note idx n r)
  from update_payment_note_ok [OF ok this] show ?thesis by (rule conjunct1)
next
  case (claimable hash now clock amt purpose r)
  from payment_claimable_ok [OF ok this] show ?thesis .
next
  case (claimed now hash amt purpose r)
  from payment_claimed_ok [OF ok this] show ?thesis .
next
  case (sent now hash pre fees r)
  from payment_sent_ok [OF ok this] show ?thesis .
next
  case (failed now hash failure r)
  from payment_failed_ok [OF ok this] show ?thesis .
next
  case (expiries order nows dur r)
  from check_invoice_expiries_ok [OF ok this] show ?thesis .
next
  case (broadcasted pid txid r)
  from onchain_send_broadcasted_ok [OF ok this] show ?thesis .
next
  case (confs ids nows statuses r)
  from onchain_confs_apply_ok [OF ok this] show ?thesis .
qed

lemma mgr_steps_next:
  assumes "(mgr_step ps ext)\<^sup>*\<^sup>* m m'" and "mgr_ok view wok m"
  shows "mgr_next (ext_sha256 ext) view wok m m'"
  using assms(1)
proof (induction rule: rtranclp_induct)
  case base
  then show ?case using assms(2) by (rule mgr_next_refl)
next
  case (step m' m'')
  then show ?case
    using mgr_step_next grows_trans unfolding mgr_next_def by blast
qed

end

end
