(* ===== verification/BTree_Map.thy ===== *)
theory BTree_Map
  imports Payment_Ids
begin

text \<open>
  \<^verbatim>\<open>BTreeMap\<close> of the Rust standard library, as the program uses it: a list of entries in ascending key
  order under the key type's \<^verbatim>\<open>Ord\<close>.  The locale \<open>total_cmp\<close> is the contract of \<^verbatim>\<open>Ord\<close>; it is interpreted
  for \<^verbatim>\<open>PaymentIndex\<close>.
\<close>

locale total_cmp =
  fixes c :: "'a \<Rightarrow> 'a \<Rightarrow> ordering"
  assumes cmp_eq: "c x y = Equal \<longleftrightarrow> x = y"
    and cmp_flip: "c x y = Less \<longleftrightarrow> c y x = Greater"
    and cmp_trans: "c x y = Less \<Longrightarrow> c y z = Less \<Longrightarrow> c x z = Less"

lemma total_cmp_lin: "total_cmp (cmp_lin :: 'a::linorder \<Rightarrow> 'a \<Rightarrow> ordering)"
  by unfold_locales auto

lemma total_cmp_inj:
  assumes "total_cmp c" and "inj f"
  shows "total_cmp (\<lambda>x y. c (f x) (f y))"
proof
  fix x y z
  show "(c (f x) (f y) = Equal) = (x = y)"
    using total_cmp.cmp_eq [OF assms(1)] assms(2) by (simp add: inj_eq)
  show "(c (f x) (f y) = Less) = (c (f y) (f x) = Greater)"
    by (rule total_cmp.cmp_flip [OF assms(1)])
  show "c (f x) (f y) = Less \<Longrightarrow> c (f y) (f z) = Less \<Longrightarrow> c (f x) (f z) = Less"
    by (rule total_cmp.cmp_trans [OF assms(1)])
qed

lemma then_cmp_Less: "then_cmp a b = Less \<longleftrightarrow> a = Less \<or> (a = Equal \<and> b = Less)"
  by (cases a) simp_all

lemma then_cmp_Greater: "then_cmp a b = Greater \<longleftrightarrow> a = Greater \<or> (a = Equal \<and> b = Greater)"
  by (cases a) simp_all

lemma total_cmp_pair:
  assumes "total_cmp c" and "total_cmp d"
  shows "total_cmp (\<lambda>x y. then_cmp (c (fst x) (fst y)) (d (snd x) (snd y)))"
proof -
  note C = total_cmp.cmp_eq [OF assms(1)] total_cmp.cmp_flip [OF assms(1)]
  note D = total_cmp.cmp_eq [OF assms(2)] total_cmp.cmp_flip [OF assms(2)]
  show ?thesis
  proof
    fix x y
    show "(then_cmp (c (fst x) (fst y)) (d (snd x) (snd y)) = Equal) = (x = y)"
      by (auto simp: C D prod_eq_iff)
    show "(then_cmp (c (fst x) (fst y)) (d (snd x) (snd y)) = Less) =
        (then_cmp (c (fst y) (fst x)) (d (snd y) (snd x)) = Greater)"
      unfolding then_cmp_Less then_cmp_Greater C(1) D(1) C(2) [of "fst x"] D(2) [of "snd x"] by auto
  next
    fix x y z
    assume "then_cmp (c (fst x) (fst y)) (d (snd x) (snd y)) = Less"
      and "then_cmp (c (fst y) (fst z)) (d (snd y) (snd z)) = Less"
    then show "then_cmp (c (fst x) (fst z)) (d (snd x) (snd z)) = Less"
      using total_cmp.cmp_trans [OF assms(1)] total_cmp.cmp_trans [OF assms(2)]
      by (auto simp: then_cmp_Less C(1) D(1))
  qed
qed

lemma total_cmp_list:
  assumes "total_cmp c"
  shows "total_cmp (cmp_list c)"
proof
  note C = total_cmp.cmp_eq [OF assms] total_cmp.cmp_flip [OF assms]
  fix xs ys
  show "(cmp_list c xs ys = Equal) = (xs = ys)"
    by (rule cmp_list_Equal) (rule C(1))
  show "(cmp_list c xs ys = Less) = (cmp_list c ys xs = Greater)"
  proof (induction xs arbitrary: ys)
    case Nil
    then show ?case by (cases ys) simp_all
  next
    case (Cons x xs)
    then show ?case
    proof (cases ys)
      case (Cons y ys')
      then show ?thesis
        using \<open>\<And>ys. (cmp_list c xs ys = Less) = (cmp_list c ys xs = Greater)\<close> [of ys'] C(2) [of x y]
        by (auto simp: then_cmp_Less then_cmp_Greater C(1))
    qed simp
  qed
next
  note C = total_cmp.cmp_eq [OF assms] total_cmp.cmp_flip [OF assms]
  fix xs ys zs
  show "cmp_list c xs ys = Less \<Longrightarrow> cmp_list c ys zs = Less \<Longrightarrow> cmp_list c xs zs = Less"
  proof (induction xs arbitrary: ys zs)
    case Nil
    then show ?case by (cases ys; cases zs) auto
  next
    case (Cons x xs)
    then obtain y ys' z zs' where "ys = y # ys'" "zs = z # zs'"
      by (cases ys; cases zs) auto
    with Cons show ?case
      using total_cmp.cmp_trans [OF assms] C(1) by (auto simp: then_cmp_Less)
  qed
qed

section \<open>The map\<close>

fun bt_insert :: "('k \<Rightarrow> 'k \<Rightarrow> ordering) \<Rightarrow> 'k \<Rightarrow> 'v \<Rightarrow> ('k \<times> 'v) list \<Rightarrow> ('k \<times> 'v) list" where
  "bt_insert c k v [] = [(k, v)]"
| "bt_insert c k v ((k', v') # xs) =
     (case c k k' of
        Less \<Rightarrow> (k, v) # (k', v') # xs
      | Equal \<Rightarrow> (k', v) # xs
      | Greater \<Rightarrow> (k', v') # bt_insert c k v xs)"

fun bt_get :: "('k \<Rightarrow> 'k \<Rightarrow> ordering) \<Rightarrow> 'k \<Rightarrow> ('k \<times> 'v) list \<Rightarrow> 'v option" where
  "bt_get c k [] = None"
| "bt_get c k ((k', v') # xs) = (if c k k' = Equal then Some v' else bt_get c k xs)"

definition bt_remove :: "('k \<Rightarrow> 'k \<Rightarrow> ordering) \<Rightarrow> 'k \<Rightarrow> ('k \<times> 'v) list \<Rightarrow> ('k \<times> 'v) list" where
  "bt_remove c k xs = filter (\<lambda>(k', _). c k k' \<noteq> Equal) xs"

text \<open>\<^verbatim>\<open>range(lower..)\<close>: the entries from the first key that is not below the bound.\<close>

definition bt_range_from :: "('k \<Rightarrow> 'k \<Rightarrow> ordering) \<Rightarrow> 'k \<Rightarrow> ('k \<times> 'v) list \<Rightarrow> ('k \<times> 'v) list" where
  "bt_range_from c lower xs = dropWhile (\<lambda>(k, _). c k lower = Less) xs"

definition bt_sorted :: "('k \<Rightarrow> 'k \<Rightarrow> ordering) \<Rightarrow> ('k \<times> 'v) list \<Rightarrow> bool" where
  "bt_sorted c xs = sorted_wrt (\<lambda>a b. c (fst a) (fst b) = Less) xs"

context total_cmp
begin

lemma cmp_cases: "c x y = Less \<or> x = y \<or> c y x = Less"
  using cmp_eq cmp_flip by (cases "c x y") auto

lemma bt_get_map_of: "bt_get c k xs = map_of xs k"
  by (induction xs) (auto simp: cmp_eq)

lemma bt_insert_map_of: "bt_sorted c xs \<Longrightarrow> map_of (bt_insert c k v xs) = (map_of xs)(k \<mapsto> v)"
proof (induction xs)
  case (Cons e xs)
  obtain k' v' where e: "e = (k', v')" by force
  have "bt_sorted c xs" using Cons.prems by (simp add: bt_sorted_def)
  then have IH: "map_of (bt_insert c k v xs) = (map_of xs)(k \<mapsto> v)" by (rule Cons.IH)
  show ?case
  proof (cases "c k k'")
    case Less
    then show ?thesis by (auto simp: e fun_eq_iff)
  next
    case Equal
    then have "k = k'" by (simp add: cmp_eq)
    with Equal show ?thesis by (auto simp: e fun_eq_iff)
  next
    case Greater
    then have "k \<noteq> k'" using cmp_eq [of k k'] by auto
    with Greater IH show ?thesis by (auto simp: e fun_eq_iff)
  qed
qed simp

lemma bt_insert_keys: "fst ` set (bt_insert c k v xs) = insert k (fst ` set xs)"
proof (induction xs)
  case (Cons e xs)
  obtain k' v' where e: "e = (k', v')" by force
  from Cons cmp_eq [of k k'] show ?case
    by (cases "c k k'") (simp_all add: e insert_commute)
qed simp

lemma bt_insert_sorted: "bt_sorted c xs \<Longrightarrow> bt_sorted c (bt_insert c k v xs)"
proof (induction xs)
  case (Cons e xs)
  obtain k' v' where e: "e = (k', v')" by force
  have tl: "\<forall>b \<in> set xs. c k' (fst b) = Less" "bt_sorted c xs"
    using Cons.prems by (auto simp: bt_sorted_def e)
  show ?case
  proof (cases "c k k'")
    case Less
    with tl show ?thesis using cmp_trans by (auto simp: bt_sorted_def e)
  next
    case Equal
    with tl show ?thesis by (simp add: bt_sorted_def e)
  next
    case Greater
    then have "c k' k = Less" using cmp_flip by simp
    then have "\<forall>b \<in> set (bt_insert c k v xs). c k' (fst b) = Less"
      using tl(1) bt_insert_keys [of k v xs] by (metis image_iff insert_iff)
    with Greater Cons.IH tl(2) show ?thesis by (simp add: bt_sorted_def e)
  qed
qed (simp add: bt_sorted_def)

lemma bt_sorted_distinct: "bt_sorted c xs \<Longrightarrow> distinct (map fst xs)"
proof (induction xs)
  case (Cons e xs)
  have "c x x \<noteq> Less" for x using cmp_eq [of x x] by simp
  with Cons show ?case by (force simp: bt_sorted_def)
qed simp

lemma bt_insert_set:
  assumes "bt_sorted c xs"
  shows "set (bt_insert c k v xs) = insert (k, v) {e \<in> set xs. fst e \<noteq> k}"
proof -
  note graph = map_of_eq_Some_iff [OF bt_sorted_distinct [OF assms]]
    map_of_eq_Some_iff [OF bt_sorted_distinct [OF bt_insert_sorted [OF assms, of k v]]]
  have "(a, w) \<in> set (bt_insert c k v xs) \<longleftrightarrow> (a, w) \<in> insert (k, v) {e \<in> set xs. fst e \<noteq> k}" for a w
    unfolding graph(2) [symmetric] bt_insert_map_of [OF assms] using graph(1) [of a w] by auto
  from this [of "fst e" "snd e" for e] show ?thesis
    unfolding prod.collapse by (rule set_eqI)
qed

lemma bt_remove_sorted: "bt_sorted c xs \<Longrightarrow> bt_sorted c (bt_remove c k xs)"
  by (simp add: bt_sorted_def bt_remove_def sorted_wrt_filter)

lemma bt_remove_map_of: "map_of (bt_remove c k xs) = (map_of xs)(k := None)"
  by (induction xs) (auto simp: bt_remove_def cmp_eq fun_eq_iff)

lemma bt_insert_mem: "e \<in> set (bt_insert c k v xs) \<Longrightarrow> e = (k, v) \<or> e \<in> set xs"
proof (induction xs)
  case (Cons a xs)
  obtain k' v' where a: "a = (k', v')" by force
  from Cons cmp_eq [of k k'] show ?case by (cases "c k k'") (auto simp: a)
qed simp

lemma bt_remove_mem: "e \<in> set (bt_remove c k xs) \<Longrightarrow> e \<in> set xs"
  by (auto simp: bt_remove_def)

lemmas bt_simps = bt_get_map_of bt_insert_map_of bt_remove_map_of bt_insert_sorted bt_remove_sorted

end

section \<open>The order of payment indices\<close>

fun id_key :: "LxPaymentId \<Rightarrow> bytes" where
  "id_key (OnchainSend i) = cid_bytes i"
| "id_key (OnchainRecv t) = rev (txid_bytes t)"
| "id_key (Lightning h) = hash_bytes h"

lemma id_cmp_key: "id_cmp s t = then_cmp (cmp_str (prefix s) (prefix t)) (cmp_bytes (id_key s) (id_key t))"
  by (cases s; cases t) (simp_all add: cid_cmp_def txid_cmp_def hash_cmp_def cmp_char_def cmp_lin_def)

lemma inj_id_key: "inj (\<lambda>i. (prefix i, id_key i))"
proof (rule injI)
  fix s t assume "(prefix s, id_key s) = (prefix t, id_key t)"
  then show "s = t"
    by (cases s; cases t) (auto intro: ClientPaymentId.expand LxTxid.expand LxPaymentHash.expand)
qed

lemma total_cmp_char: "total_cmp cmp_char"
proof -
  have "total_cmp (\<lambda>x y. cmp_lin (of_char x :: nat) (of_char y))"
    by (rule total_cmp_inj [OF total_cmp_lin]) (simp add: inj_on_def)
  then show ?thesis by (simp add: cmp_char_def [abs_def])
qed

lemma total_cmp_id: "total_cmp id_cmp"
proof -
  have "total_cmp (\<lambda>x y. then_cmp (cmp_str (fst x) (fst y)) (cmp_bytes (snd x) (snd y)))"
    by (intro total_cmp_pair total_cmp_list total_cmp_char total_cmp_lin)
  from total_cmp_inj [OF this inj_id_key] show ?thesis
    by (simp add: id_cmp_key [abs_def])
qed

interpretation payment_ids: total_cmp id_cmp
  by (rule total_cmp_id)

interpretation payment_index: total_cmp index_cmp
proof -
  have "total_cmp (\<lambda>x y. then_cmp (cmp_lin (fst x) (fst y)) (id_cmp (snd x) (snd y)))"
    by (intro total_cmp_pair total_cmp_lin total_cmp_id)
  then have "total_cmp (\<lambda>(x::PaymentIndex) (y::PaymentIndex). then_cmp
      (cmp_lin (fst (as_i64 (index_created_at x), index_id x)) (fst (as_i64 (index_created_at y), index_id y)))
      (id_cmp (snd (as_i64 (index_created_at x), index_id x)) (snd (as_i64 (index_created_at y), index_id y))))"
    by (rule total_cmp_inj)
      (auto simp: inj_def intro!: PaymentIndex.equality TimestampMs.expand)
  then show "total_cmp index_cmp"
    by (simp add: index_cmp_def [abs_def] timestamp_cmp_def)
qed

end
