(* ===== verification/Node_Persister.thy ===== *)
theory Node_Persister
  imports Payment_Store BTree_Map
begin

text \<open>
  The payment methods of \<^verbatim>\<open>NodePersister\<close> (\<^verbatim>\<open>node/src/persister.rs\<close>) over the backend API, and the
  in-memory backend \<^verbatim>\<open>MockBackendClient\<close> (\<^verbatim>\<open>node/src/api/mock.rs\<close>).  The production backend is a
  service outside the repository: it is the parameter \<open>api\<close>.
\<close>

section \<open>NodePersister\<close>

datatype BackendErrorKind = Duplicate | BatchSizeTooLarge | MockPanic | Unavailable

text \<open>\<open>gen_key_id\<close> is the system random generator; the other fields are the backend's endpoints.\<close>

record 'w backend_api =
  gen_key_id :: "'w \<Rightarrow> bytes \<times> 'w"
  get_token :: "'w \<Rightarrow> (unit + unit) \<times> 'w"
  api_get_pending_payments :: "'w \<Rightarrow> (BackendErrorKind + DbPayment list) \<times> 'w"
  api_get_finalized_payment_ids :: "'w \<Rightarrow> (BackendErrorKind + LxPaymentId list) \<times> 'w"
  api_create_payment :: "DbPayment \<Rightarrow> 'w \<Rightarrow> (BackendErrorKind + unit) \<times> 'w"
  api_upsert_payment :: "DbPayment \<Rightarrow> 'w \<Rightarrow> (BackendErrorKind + unit) \<times> 'w"
  api_upsert_payment_batch :: "DbPayment list \<Rightarrow> 'w \<Rightarrow> (BackendErrorKind + unit) \<times> 'w"
  api_get_payment :: "PaymentIndex \<Rightarrow> 'w \<Rightarrow> (BackendErrorKind + DbPayment option) \<times> 'w"
  api_get_payments_by_ids :: "string list \<Rightarrow> 'w \<Rightarrow> (BackendErrorKind + DbPayment list) \<times> 'w"
  api_get_new_payments ::
    "PaymentIndex option \<Rightarrow> 16 word option \<Rightarrow> 'w \<Rightarrow> (BackendErrorKind + DbPayment list) \<times> 'w"

text \<open>The key, the cipher and the codecs a node encrypts its payments with.\<close>

record node_crypto =
  nc_key :: AesMasterKey
  nc_aead :: aead_lib
  nc_json :: payment_json
  nc_txid :: txid_lib

definition encrypt_call ::
    "node_crypto \<Rightarrow> 'w backend_api \<Rightarrow> Payment \<Rightarrow> 'w \<Rightarrow> (PersistError + DbPayment) \<times> 'w" where
  "encrypt_call nc api p w =
     (case gen_key_id api w of (key_id, w') \<Rightarrow>
        (ok_or EncryptPanic (payment_encrypt (nc_aead nc) (nc_json nc) (nc_txid nc) key_id (nc_key nc) p), w'))"

definition decrypt_payment :: "node_crypto \<Rightarrow> DbPayment \<Rightarrow> PersistError + Payment" where
  "decrypt_payment nc db =
     map_err CouldNotDecryptPayment (payment_decrypt (nc_aead nc) (nc_json nc) (nc_key nc) db)"

definition token_call :: "'w backend_api \<Rightarrow> 'w \<Rightarrow> (PersistError + unit) \<times> 'w" where
  "token_call api = call_err (\<lambda>_. NoToken) (get_token api)"

definition node_read_pending_payments ::
    "node_crypto \<Rightarrow> 'w backend_api \<Rightarrow> 'w \<Rightarrow> (PersistError + Payment list) \<times> 'w" where
  "node_read_pending_payments nc api =
     call_then (token_call api) (\<lambda>_.
     call_then (call_err (\<lambda>_. ApiFailed) (api_get_pending_payments api)) (\<lambda>dbs.
     call_pure (collect_results (map (decrypt_payment nc) dbs))))"

definition node_read_finalized_payment_ids ::
    "'w backend_api \<Rightarrow> 'w \<Rightarrow> (PersistError + LxPaymentId list) \<times> 'w" where
  "node_read_finalized_payment_ids api =
     call_then (token_call api) (\<lambda>_.
       call_err (\<lambda>_. ApiFailed) (api_get_finalized_payment_ids api))"

definition node_create_payment ::
    "node_crypto \<Rightarrow> 'w backend_api \<Rightarrow> Payment \<Rightarrow> 'w \<Rightarrow> (PersistError + Payment) \<times> 'w" where
  "node_create_payment nc api checked =
     call_then (encrypt_call nc api checked) (\<lambda>db_payment.
     call_then (token_call api) (\<lambda>_.
     call_then (call_err (\<lambda>_. ApiFailed) (api_create_payment api db_payment)) (\<lambda>_.
     call_pure (Inr checked))))"

definition node_persist_payment ::
    "node_crypto \<Rightarrow> 'w backend_api \<Rightarrow> Payment \<Rightarrow> 'w \<Rightarrow> (PersistError + Payment) \<times> 'w" where
  "node_persist_payment nc api checked =
     call_then (encrypt_call nc api checked) (\<lambda>db_payment.
     call_then (token_call api) (\<lambda>_.
     call_then (call_err (\<lambda>_. ApiFailed) (api_upsert_payment api db_payment)) (\<lambda>_.
     call_pure (Inr checked))))"

fun encrypt_all ::
    "node_crypto \<Rightarrow> 'w backend_api \<Rightarrow> Payment list \<Rightarrow> 'w \<Rightarrow> (PersistError + DbPayment list) \<times> 'w" where
  "encrypt_all nc api [] = call_pure (Inr [])"
| "encrypt_all nc api (p # qs) =
     call_then (encrypt_call nc api p) (\<lambda>db.
     call_then (encrypt_all nc api qs) (\<lambda>dbs. call_pure (Inr (db # dbs))))"

definition node_persist_payment_batch ::
    "node_crypto \<Rightarrow> 'w backend_api \<Rightarrow> Payment list \<Rightarrow> 'w \<Rightarrow> (PersistError + Payment list) \<times> 'w" where
  "node_persist_payment_batch nc api checked_batch =
     (if checked_batch = [] then call_pure (Inr [])
      else
        call_then (encrypt_all nc api checked_batch) (\<lambda>batch.
        call_then (token_call api) (\<lambda>_.
        call_then (call_err (\<lambda>_. ApiFailed) (api_upsert_payment_batch api batch)) (\<lambda>_.
        call_pure (Inr checked_batch)))))"

definition node_get_payment ::
    "node_crypto \<Rightarrow> 'w backend_api \<Rightarrow> PaymentIndex \<Rightarrow> 'w \<Rightarrow> (PersistError + Payment option) \<times> 'w" where
  "node_get_payment nc api idx =
     call_then (token_call api) (\<lambda>_.
     call_then (call_err (\<lambda>_. ApiFailed) (api_get_payment api idx)) (\<lambda>maybe_db.
     case maybe_db of
       None \<Rightarrow> call_pure (Inr None)
     | Some db \<Rightarrow>
         call_pure (and_then (decrypt_payment nc db) (\<lambda>p.
           ensure (payment_id p = index_id idx) IdMismatch (Inr (Some p))))))"

text \<open>What the app asks for: decrypted payments as \<^verbatim>\<open>BasicPayment\<close>s.\<close>

definition decrypt_basic :: "node_crypto \<Rightarrow> decimal_ops \<Rightarrow> DbPayment \<Rightarrow> PersistError + BasicPayment" where
  "decrypt_basic nc ops db =
     and_then (decrypt_payment nc db) (\<lambda>p. ok_or FeesPanic (basic_payment ops p))"

definition read_payments_by_ids ::
    "node_crypto \<Rightarrow> decimal_ops \<Rightarrow> 'w backend_api \<Rightarrow> string list \<Rightarrow> 'w \<Rightarrow>
     (PersistError + BasicPayment list) \<times> 'w" where
  "read_payments_by_ids nc ops api ids =
     call_then (token_call api) (\<lambda>_.
     call_then (call_err (\<lambda>_. ApiFailed) (api_get_payments_by_ids api ids)) (\<lambda>dbs.
     call_pure (collect_results (map (decrypt_basic nc ops) dbs))))"

definition read_new_payments ::
    "node_crypto \<Rightarrow> decimal_ops \<Rightarrow> 'w backend_api \<Rightarrow> PaymentIndex option \<Rightarrow> 16 word option \<Rightarrow> 'w \<Rightarrow>
     (PersistError + BasicPayment list) \<times> 'w" where
  "read_new_payments nc ops api start_index limit =
     call_then (token_call api) (\<lambda>_.
     call_then (call_err (\<lambda>_. ApiFailed) (api_get_new_payments api start_index limit)) (\<lambda>dbs.
     call_pure (collect_results (map (decrypt_basic nc ops) dbs))))"

definition node_persister :: "node_crypto \<Rightarrow> 'w backend_api \<Rightarrow> 'w persister" where
  "node_persister nc api =
     \<lparr>read_pending_payments = node_read_pending_payments nc api,
      read_finalized_payment_ids = node_read_finalized_payment_ids api,
      create_payment = node_create_payment nc api,
      persist_payment = node_persist_payment nc api,
      persist_payment_batch = node_persist_payment_batch nc api,
      get_payment = node_get_payment nc api\<rparr>"

section \<open>MockBackendClient\<close>

text \<open>
  The state: the payments by index, and how many random draws were made.  The generator \<open>rng\<close> gives
  the key id of each draw and \<open>token\<close> the outcome of authenticating at that moment, so that calls may
  fail.
\<close>

record mock_backend =
  mb_payments :: "(PaymentIndex \<times> DbPayment) list"
  mb_draws :: nat

text \<open>The two \<^verbatim>\<open>unwrap()\<close>s on the key columns; \<open>None\<close> is a panic.\<close>

definition mock_key :: "txid_lib \<Rightarrow> DbPayment \<Rightarrow> PaymentIndex option" where
  "mock_key txids payment =
     Option.bind (ok (try_from_i64 (db_created_at payment))) (\<lambda>created_at.
     Option.bind (ok (id_from_str txids (db_id payment))) (\<lambda>pid.
       Some \<lparr>index_created_at = created_at, index_id = pid\<rparr>))"

definition mock_insert :: "PaymentIndex \<Rightarrow> DbPayment \<Rightarrow> mock_backend \<Rightarrow> mock_backend" where
  "mock_insert key payment b = b\<lparr>mb_payments := bt_insert index_cmp key payment (mb_payments b)\<rparr>"

definition mock_get_payment ::
    "PaymentIndex \<Rightarrow> mock_backend \<Rightarrow> (BackendErrorKind + DbPayment option) \<times> mock_backend" where
  "mock_get_payment idx b =
     (Inr (map_option snd (find (\<lambda>(k, _). index_id k = index_id idx) (mb_payments b))), b)"

definition mock_create_payment ::
    "txid_lib \<Rightarrow> DbPayment \<Rightarrow> mock_backend \<Rightarrow> (BackendErrorKind + unit) \<times> mock_backend" where
  "mock_create_payment txids payment b =
     (case mock_key txids payment of
        None \<Rightarrow> (Inl MockPanic, b)
      | Some key \<Rightarrow>
          if bt_get index_cmp key (mb_payments b) \<noteq> None then (Inl Duplicate, b)
          else (Inr (), mock_insert key payment b))"

definition mock_upsert_payment ::
    "txid_lib \<Rightarrow> DbPayment \<Rightarrow> mock_backend \<Rightarrow> (BackendErrorKind + unit) \<times> mock_backend" where
  "mock_upsert_payment txids payment b =
     (case mock_key txids payment of
        None \<Rightarrow> (Inl MockPanic, b)
      | Some key \<Rightarrow> (Inr (), mock_insert key payment b))"

fun mock_upsert_payment_batch ::
    "txid_lib \<Rightarrow> DbPayment list \<Rightarrow> mock_backend \<Rightarrow> (BackendErrorKind + unit) \<times> mock_backend" where
  "mock_upsert_payment_batch txids [] b = (Inr (), b)"
| "mock_upsert_payment_batch txids (payment # payments) b =
     (case mock_key txids payment of
        None \<Rightarrow> (Inl MockPanic, b)
      | Some key \<Rightarrow> mock_upsert_payment_batch txids payments (mock_insert key payment b))"

definition mock_get_payments_by_ids ::
    "string list \<Rightarrow> mock_backend \<Rightarrow> (BackendErrorKind + DbPayment list) \<times> mock_backend" where
  "mock_get_payments_by_ids ids b =
     (Inr (filter (\<lambda>p. db_id p \<in> set ids) (map snd (mb_payments b))), b)"

definition MAX_PAYMENTS_BATCH_SIZE :: "16 word" where "MAX_PAYMENTS_BATCH_SIZE = 100"
definition DEFAULT_PAYMENTS_BATCH_SIZE :: "16 word" where "DEFAULT_PAYMENTS_BATCH_SIZE = 50"

definition mock_get_new_payments ::
    "PaymentIndex option \<Rightarrow> 16 word option \<Rightarrow> mock_backend \<Rightarrow>
     (BackendErrorKind + DbPayment list) \<times> mock_backend" where
  "mock_get_new_payments start_index limit b =
     (let limit = (case limit of Some l \<Rightarrow> l | None \<Rightarrow> DEFAULT_PAYMENTS_BATCH_SIZE)
      in if MAX_PAYMENTS_BATCH_SIZE < limit then (Inl BatchSizeTooLarge, b)
         else
           (Inr (map snd (take (unat limit)
             (filter (\<lambda>(index, _). case start_index of
                Some start \<Rightarrow> index_cmp index start = Greater | None \<Rightarrow> True) (mb_payments b)))), b))"

definition mock_get_pending_payments ::
    "mock_backend \<Rightarrow> (BackendErrorKind + DbPayment list) \<times> mock_backend" where
  "mock_get_pending_payments b =
     (Inr (filter (\<lambda>p. db_status p = status_display PaymentStatus.Pending) (map snd (mb_payments b))), b)"

definition mock_get_finalized_payment_ids ::
    "mock_backend \<Rightarrow> (BackendErrorKind + LxPaymentId list) \<times> mock_backend" where
  "mock_get_finalized_payment_ids b =
     (Inr (map (\<lambda>(k, _). index_id k)
        (filter (\<lambda>(_, p). db_status p = status_display PaymentStatus.Completed \<or>
            db_status p = status_display PaymentStatus.Failed) (mb_payments b))), b)"

definition mock_api ::
    "txid_lib \<Rightarrow> (nat \<Rightarrow> bytes) \<Rightarrow> (nat \<Rightarrow> unit + unit) \<Rightarrow> mock_backend backend_api" where
  "mock_api txids rng token =
     \<lparr>gen_key_id = (\<lambda>b. (rng (mb_draws b), b\<lparr>mb_draws := Suc (mb_draws b)\<rparr>)),
      get_token = (\<lambda>b. (token (mb_draws b), b)),
      api_get_pending_payments = mock_get_pending_payments,
      api_get_finalized_payment_ids = mock_get_finalized_payment_ids,
      api_create_payment = mock_create_payment txids,
      api_upsert_payment = mock_upsert_payment txids,
      api_upsert_payment_batch = mock_upsert_payment_batch txids,
      api_get_payment = mock_get_payment,
      api_get_payments_by_ids = mock_get_payments_by_ids,
      api_get_new_payments = mock_get_new_payments\<rparr>"

section \<open>The node persister over the mock backend is a lawful store\<close>

definition entry_of :: "node_crypto \<Rightarrow> Payment \<Rightarrow> PaymentIndex \<times> DbPayment \<Rightarrow> bool" where
  "entry_of nc p e \<longleftrightarrow>
     decrypt_payment nc (snd e) = Inr p \<and> fst e = payment_index p \<and>
     db_id (snd e) = id_display (nc_txid nc) (payment_id p) \<and>
     db_status (snd e) = status_display (payment_status p) \<and> storable p"

definition mock_ok :: "node_crypto \<Rightarrow> mock_backend \<Rightarrow> bool" where
  "mock_ok nc b \<longleftrightarrow>
     bt_sorted index_cmp (mb_payments b) \<and> inj_on index_id (fst ` set (mb_payments b)) \<and>
     (\<forall>e \<in> set (mb_payments b). \<exists>p. entry_of nc p e)"

definition mock_view :: "node_crypto \<Rightarrow> mock_backend \<Rightarrow> LxPaymentId \<rightharpoonup> Payment" where
  "mock_view nc b i =
     Option.bind (find (\<lambda>(k, _). index_id k = i) (mb_payments b)) (\<lambda>(_, db). ok (decrypt_payment nc db))"

lemma payment_index_sel [simp]:
  "index_id (payment_index p) = payment_id p" "index_created_at (payment_index p) = payment_created_at p"
  by (simp_all add: payment_index_def)

lemma payment_index_eq_iff:
  "payment_index p = payment_index q \<longleftrightarrow>
     payment_id p = payment_id q \<and> payment_created_at p = payment_created_at q"
  by (auto simp: payment_index_def)

lemma entry_of_unique: "entry_of nc p e \<Longrightarrow> entry_of nc q e \<Longrightarrow> q = p"
  unfolding entry_of_def by (metis sum.inject(2))

lemma entry_of_index: "entry_of nc p e \<Longrightarrow> fst e = payment_index p"
  by (simp add: entry_of_def)

lemma mock_ok_entry: "mock_ok nc b \<Longrightarrow> e \<in> set (mb_payments b) \<Longrightarrow> \<exists>p. entry_of nc p e"
  unfolding mock_ok_def by (elim conjE) (erule bspec)

lemma entry_unique:
  assumes "mock_ok nc b" and "e \<in> set (mb_payments b)" and "e' \<in> set (mb_payments b)"
    and "index_id (fst e) = index_id (fst e')"
  shows "e = e'"
proof -
  have "fst e = fst e'"
    using assms unfolding mock_ok_def by (auto dest: inj_onD)
  moreover have "distinct (map fst (mb_payments b))"
    using assms(1) payment_index.bt_sorted_distinct by (auto simp: mock_ok_def)
  ultimately show ?thesis
    using assms(2,3) by (metis eq_key_imp_eq_value prod.collapse)
qed

lemma mock_find:
  assumes "mock_ok nc b" and "e \<in> set (mb_payments b)"
  shows "find (\<lambda>(k, _). index_id k = index_id (fst e)) (mb_payments b) = Some e"
proof (cases "find (\<lambda>(k, _). index_id k = index_id (fst e)) (mb_payments b)")
  case None
  then have "\<not> (\<exists>e'. e' \<in> set (mb_payments b) \<and> index_id (fst e') = index_id (fst e))"
    by (simp add: find_None_iff case_prod_beta)
  with assms(2) show ?thesis by blast
next
  case (Some e')
  then have "e' \<in> set (mb_payments b)" "index_id (fst e') = index_id (fst e)"
    by (auto simp: find_Some_iff case_prod_beta)
  with entry_unique [OF assms(1) _ assms(2)] Some show ?thesis by simp
qed

lemma ok_Some: "ok r = Some x \<longleftrightarrow> r = Inr x"
  by (cases r) (simp_all add: ok_def)

lemma mock_view_Some:
  assumes "mock_ok nc b"
  shows "mock_view nc b i = Some p \<longleftrightarrow> (\<exists>e \<in> set (mb_payments b). entry_of nc p e \<and> payment_id p = i)"
proof
  assume "mock_view nc b i = Some p"
  then obtain e where e: "find (\<lambda>(k, _). index_id k = i) (mb_payments b) = Some e"
    and d: "decrypt_payment nc (snd e) = Inr p"
    by (auto simp: mock_view_def Option.bind_eq_Some_conv ok_Some)
  then have "e \<in> set (mb_payments b)" "index_id (fst e) = i"
    by (auto simp: find_Some_iff case_prod_beta)
  with assms d show "\<exists>e \<in> set (mb_payments b). entry_of nc p e \<and> payment_id p = i"
    unfolding mock_ok_def entry_of_def by force
next
  assume "\<exists>e \<in> set (mb_payments b). entry_of nc p e \<and> payment_id p = i"
  then obtain e where e: "e \<in> set (mb_payments b)" "entry_of nc p e" "payment_id p = i" by blast
  then have "find (\<lambda>(k, _). index_id k = i) (mb_payments b) = Some e"
    using mock_find [OF assms e(1)] by (simp add: entry_of_def)
  with e show "mock_view nc b i = Some p"
    by (simp add: mock_view_def entry_of_def ok_Some case_prod_beta)
qed

lemma mock_insert_ok:
  assumes ok: "mock_ok nc b" and ent: "entry_of nc p (payment_index p, db)"
    and same: "same_index (mock_view nc b) p"
  shows "mock_ok nc (mock_insert (payment_index p) db b) \<and>
    mock_view nc (mock_insert (payment_index p) db b) = put_payment p (mock_view nc b)"
proof -
  let ?b = "mock_insert (payment_index p) db b"
  have sorted: "bt_sorted index_cmp (mb_payments b)" using ok by (simp add: mock_ok_def)
  note set = payment_index.bt_insert_set [OF sorted, of "payment_index p" db]
  have other: "index_id (fst e) \<noteq> payment_id p"
    if mem: "e \<in> set (mb_payments b)" and neq: "fst e \<noteq> payment_index p" for e
  proof
    assume i: "index_id (fst e) = payment_id p"
    obtain q where q: "entry_of nc q e" using mock_ok_entry [OF ok mem] by blast
    then have "mock_view nc b (payment_id p) = Some q"
      using mock_view_Some [OF ok] mem i by (auto simp: entry_of_def)
    then have "payment_created_at q = payment_created_at p" using same by (simp add: same_index_def)
    with q i neq show False by (simp add: entry_of_def payment_index_eq_iff)
  qed
  have ok': "mock_ok nc ?b"
    unfolding mock_ok_def
  proof (intro conjI)
    show "bt_sorted index_cmp (mb_payments ?b)"
      by (simp add: mock_insert_def payment_index.bt_insert_sorted [OF sorted])
    show "inj_on index_id (fst ` set (mb_payments ?b))"
      using ok other unfolding mock_ok_def mock_insert_def
      by (fastforce simp: set inj_on_def)
    show "\<forall>e \<in> set (mb_payments ?b). \<exists>p. entry_of nc p e"
      using ok ent by (auto simp: mock_ok_def mock_insert_def set)
  qed
  moreover have "mock_view nc ?b i = Some q \<longleftrightarrow> put_payment p (mock_view nc b) i = Some q" for i q
  proof (cases "i = payment_id p")
    case True
    have "(\<exists>e \<in> set (mb_payments ?b). entry_of nc q e \<and> payment_id q = i) \<longleftrightarrow> q = p"
    proof
      assume "\<exists>e \<in> set (mb_payments ?b). entry_of nc q e \<and> payment_id q = i"
      then obtain e where e: "e \<in> set (mb_payments ?b)" "entry_of nc q e" "payment_id q = i" by blast
      then have "index_id (fst e) = payment_id p" using True by (simp add: entry_of_def)
      moreover have "e = (payment_index p, db) \<or> e \<in> set (mb_payments b) \<and> fst e \<noteq> payment_index p"
        using e(1) by (simp add: mock_insert_def set)
      ultimately have "e = (payment_index p, db)"
        using other [of e] by metis
      with e(2) have "entry_of nc q (payment_index p, db)" by simp
      with ent show "q = p" by (rule entry_of_unique)
    next
      assume "q = p"
      then show "\<exists>e \<in> set (mb_payments ?b). entry_of nc q e \<and> payment_id q = i"
        using ent True by (auto simp: mock_insert_def set)
    qed
    with True show ?thesis by (auto simp: mock_view_Some [OF ok'])
  next
    case False
    have "e \<in> set (mb_payments ?b) \<longleftrightarrow> e \<in> set (mb_payments b)"
      if "entry_of nc q e" "payment_id q = i" for e
    proof -
      have "fst e \<noteq> payment_index p"
        using that False entry_of_index [OF that(1)] payment_index_sel(1) by metis
      then show ?thesis by (auto simp: mock_insert_def set)
    qed
    then have "(\<exists>e \<in> set (mb_payments ?b). entry_of nc q e \<and> payment_id q = i) \<longleftrightarrow>
        (\<exists>e \<in> set (mb_payments b). entry_of nc q e \<and> payment_id q = i)"
      by blast
    with False show ?thesis
      by (simp add: mock_view_Some [OF ok'] mock_view_Some [OF ok] put_payment_other)
  qed
  then have "mock_view nc ?b = put_payment p (mock_view nc b)"
    by (metis ext not_None_eq)
  ultimately show ?thesis by blast
qed

locale node_store =
  fixes nc :: node_crypto
    and rng :: "nat \<Rightarrow> bytes"
    and token :: "nat \<Rightarrow> unit + unit"
  assumes aead: "aead_laws (nc_aead nc)"
    and txids: "bitcoin_txid (nc_txid nc)"
    and json: "from_slice (nc_json nc) (to_writer (nc_json nc) p) = Some p"
    and rng: "length (rng n) = 32"
begin

abbreviation api :: "mock_backend backend_api" where
  "api \<equiv> mock_api (nc_txid nc) rng token"

lemma encrypted:
  assumes "encrypt_call nc api p b = (Inr db, b')" and "storable p"
  shows "mb_payments b' = mb_payments b" and "entry_of nc p (payment_index p, db)"
    and "mock_key (nc_txid nc) db = Some (payment_index p)"
proof -
  obtain d where db: "db = \<lparr>db_created_at = as_i64 (payment_created_at p),
      db_id = id_display (nc_txid nc) (payment_id p), db_status = status_display (payment_status p),
      db_data = d\<rparr>"
    and enc: "aes_encrypt (nc_aead nc) (nc_key nc) (rng (mb_draws b)) [] (\<lambda>v. v @ to_writer (nc_json nc) p) = Some d"
    and b': "b' = b\<lparr>mb_draws := Suc (mb_draws b)\<rparr>"
    using assms(1) by (auto simp: encrypt_call_def mock_api_def payment_encrypt_def result_simps)
  show "mb_payments b' = mb_payments b" by (simp add: b')
  have "aes_decrypt (nc_aead nc) (nc_key nc) [] d = Inr (to_writer (nc_json nc) p)"
    using aes_decrypt_encrypted [OF aead rng enc] .
  then show "entry_of nc p (payment_index p, db)"
    using assms(2) by (simp add: entry_of_def decrypt_payment_def payment_decrypt_def db json)
  have "id_from_str (nc_txid nc) (db_id db) = Inr (payment_id p)"
    using bitcoin_txid.id_roundtrip [OF txids] assms(2) by (simp add: db storable_def)
  moreover have "try_from_i64 (db_created_at db) = Inr (payment_created_at p)"
    using assms(2) by (cases "payment_created_at p") (simp add: db storable_def try_from_i64_def timestamp_valid_def timestamp_min_def)
  ultimately show "mock_key (nc_txid nc) db = Some (payment_index p)"
    by (simp add: mock_key_def ok_def payment_index_def)
qed

lemma encrypt_call_world: "encrypt_call nc api p b = (r, b') \<Longrightarrow> mb_payments b' = mb_payments b"
  by (auto simp: encrypt_call_def mock_api_def)

lemma token_world: "token_call api b = (r, b') \<Longrightarrow> b' = b"
  by (auto simp: token_call_def call_err_def mock_api_def)

lemma mock_same:
  assumes "mb_payments b' = mb_payments b"
  shows "mock_ok nc b' = mock_ok nc b" and "mock_view nc b' = mock_view nc b"
  using assms by (auto simp: mock_ok_def mock_view_def fun_eq_iff)

lemma view_absent:
  assumes "mock_ok nc b" and "mock_view nc b (payment_id p) = None"
  shows "bt_get index_cmp (payment_index p) (mb_payments b) = None"
proof (rule ccontr)
  assume "bt_get index_cmp (payment_index p) (mb_payments b) \<noteq> None"
  then obtain db where mem: "(payment_index p, db) \<in> set (mb_payments b)"
    by (auto simp: payment_index.bt_get_map_of dest: map_of_SomeD)
  then obtain q where q: "entry_of nc q (payment_index p, db)"
    using mock_ok_entry [OF assms(1)] by blast
  then have "payment_id q = payment_id p"
    using entry_of_index [OF q] by (simp add: payment_index_eq_iff)
  with mem q have "mock_view nc b (payment_id p) = Some q"
    unfolding mock_view_Some [OF assms(1)] by blast
  with assms(2) show False by simp
qed

lemma write_payment:
  assumes ok: "mock_ok nc b" and st: "storable p" and same: "same_index (mock_view nc b) p"
    and new: "create \<Longrightarrow> mock_view nc b (payment_id p) = None"
    and run: "call_then (encrypt_call nc api p) (\<lambda>db. call_then (token_call api) (\<lambda>_.
        call_then (call_err (\<lambda>_. ApiFailed)
          ((if create then mock_create_payment (nc_txid nc) else mock_upsert_payment (nc_txid nc)) db))
        (\<lambda>_. call_pure (Inr p)))) b = (r, b')"
  shows "mock_ok nc b' \<and> (case r of Inl e \<Rightarrow> mock_view nc b' = mock_view nc b
    | Inr q \<Rightarrow> q = p \<and> mock_view nc b' = put_payment p (mock_view nc b))"
  using run
proof (cases rule: call_then_cases)
  case (1 e)
  then show ?thesis
    using ok mock_same [OF encrypt_call_world] by auto
next
  case (2 db b1)
  note enc = encrypted [OF 2(1) st]
  have ok1: "mock_ok nc b1" "mock_view nc b1 = mock_view nc b"
    using ok mock_same [OF enc(1)] by simp_all
  have fresh: "bt_get index_cmp (payment_index p) (mb_payments b1) = None" if create
    using new [OF that] ok1 view_absent by simp
  note ins = mock_insert_ok [OF ok1(1) enc(2), unfolded ok1(2), OF same]
  from 2(2) show ?thesis
  proof (cases rule: call_then_cases)
    case (1 e)
    then show ?thesis using ok1 token_world by auto
  next
    case (2 u b2)
    then have [simp]: "b2 = b1" using token_world by auto
    from 2(2) fresh ins enc(3) show ?thesis
      by (auto simp: call_then_def call_err_def call_pure_def mock_create_payment_def
          mock_upsert_payment_def split: if_splits)
  qed
qed

text \<open>Writes succeed when the payment can be encrypted and a token is available.\<close>

lemma create_total:
  assumes "mock_ok nc b" and "storable p" and "mock_view nc b (payment_id p) = None"
    and "encrypt_call nc api p b = (Inr db, b1)" and "token (mb_draws b1) = Inr ()"
  shows "\<exists>b'. node_create_payment nc api p b = (Inr p, b')"
proof -
  note enc = encrypted [OF assms(4,2)]
  have "mock_ok nc b1" "mock_view nc b1 = mock_view nc b"
    using mock_same [OF enc(1)] assms(1) by simp_all
  then have "bt_get index_cmp (payment_index p) (mb_payments b1) = None"
    using assms(3) by (intro view_absent) simp_all
  with assms(4,5) enc(3) show ?thesis
    by (simp add: node_create_payment_def call_then_def call_err_def call_pure_def token_call_def
        mock_api_def mock_create_payment_def)
qed

lemma persist_total:
  assumes "storable p" and "encrypt_call nc api p b = (Inr db, b1)" and "token (mb_draws b1) = Inr ()"
  shows "\<exists>b'. node_persist_payment nc api p b = (Inr p, b')"
  using assms(2,3) encrypted(3) [OF assms(2,1)]
  by (simp add: node_persist_payment_def call_then_def call_err_def call_pure_def token_call_def
      mock_api_def mock_upsert_payment_def)

lemma encrypt_call_total:
  assumes "length (to_writer (nc_json nc) p) \<le> aead_max_plaintext (nc_aead nc)"
  shows "\<exists>db. encrypt_call nc api p b = (Inr db, b\<lparr>mb_draws := Suc (mb_draws b)\<rparr>)"
  using aes_encrypt_decrypt [OF aead rng [of "mb_draws b"] assms, where aad = "[]" and mk = "nc_key nc"]
  by (auto simp: encrypt_call_def mock_api_def payment_encrypt_def)

lemma encrypt_all_ok:
  assumes "encrypt_all nc api qs b = (r, b')" and "\<forall>p \<in> set qs. storable p"
  shows "mb_payments b' = mb_payments b \<and>
    (\<forall>dbs. r = Inr dbs \<longrightarrow> list_all2 (\<lambda>p db. entry_of nc p (payment_index p, db) \<and>
      mock_key (nc_txid nc) db = Some (payment_index p)) qs dbs)"
  using assms
proof (induction qs arbitrary: r b b')
  case Nil
  then show ?case by (auto simp: call_pure_def)
next
  case (Cons p qs)
  from Cons.prems(1) have "call_then (encrypt_call nc api p) (\<lambda>db.
      call_then (encrypt_all nc api qs) (\<lambda>dbs. call_pure (Inr (db # dbs)))) b = (r, b')" by simp
  then show ?case
  proof (cases rule: call_then_cases)
    case (1 e)
    then show ?thesis using encrypt_call_world by auto
  next
    case (2 db b1)
    note enc = encrypted [OF 2(1)]
    from 2(2) show ?thesis
    proof (cases rule: call_then_cases)
      case (1 e)
      then show ?thesis using Cons.IH [OF 1(1)] Cons.prems(2) enc(1) by simp
    next
      case (2 dbs b2)
      then show ?thesis using Cons.IH [OF 2(1)] Cons.prems(2) enc by (auto simp: call_pure_def)
    qed
  qed
qed

lemma upsert_batch_ok:
  assumes "list_all2 (\<lambda>p db. entry_of nc p (payment_index p, db) \<and>
      mock_key (nc_txid nc) db = Some (payment_index p)) qs dbs"
    and "mock_ok nc b" and "\<forall>p \<in> set qs. same_index (mock_view nc b) p"
    and "distinct (map payment_id qs)"
  shows "\<exists>b'. mock_upsert_payment_batch (nc_txid nc) dbs b = (Inr (), b') \<and> mock_ok nc b' \<and>
    mock_view nc b' = fold put_payment qs (mock_view nc b)"
  using assms
proof (induction qs dbs arbitrary: b rule: list_all2_induct)
  case (Cons p qs db dbs)
  let ?b = "mock_insert (payment_index p) db b"
  have ins: "mock_ok nc ?b" "mock_view nc ?b = put_payment p (mock_view nc b)"
    using mock_insert_ok [of nc b p db] Cons by simp_all
  have "same_index (mock_view nc ?b) q" if "q \<in> set qs" for q
  proof -
    have "payment_id q \<noteq> payment_id p" using that Cons.prems(3) by (metis distinct.simps(2) image_eqI list.simps(9) set_map)
    then show ?thesis using Cons.prems(2) that by (simp add: ins(2) same_index_def put_payment_other)
  qed
  then obtain b' where "mock_upsert_payment_batch (nc_txid nc) dbs ?b = (Inr (), b')" "mock_ok nc b'"
    "mock_view nc b' = fold put_payment qs (mock_view nc ?b)"
    using Cons.IH [OF ins(1)] Cons.prems(3) by auto
  with Cons.hyps(1) ins(2) show ?case by simp
qed simp

lemma persist_batch_lawful:
  assumes ok: "mock_ok nc b" and st: "\<forall>p \<in> set qs. storable p \<and> same_index (mock_view nc b) p"
    and dist: "distinct (map payment_id qs)" and run: "node_persist_payment_batch nc api qs b = (r, b')"
  shows "mock_ok nc b' \<and> (case r of Inl e \<Rightarrow> mock_view nc b' = mock_view nc b
    | Inr qs' \<Rightarrow> qs' = qs \<and> mock_view nc b' = fold put_payment qs (mock_view nc b))"
proof (cases "qs = []")
  case True
  with run ok show ?thesis by (auto simp: node_persist_payment_batch_def call_pure_def)
next
  case False
  with run have "call_then (encrypt_all nc api qs) (\<lambda>batch. call_then (token_call api) (\<lambda>_.
      call_then (call_err (\<lambda>_. ApiFailed) (mock_upsert_payment_batch (nc_txid nc) batch)) (\<lambda>_.
      call_pure (Inr qs)))) b = (r, b')"
    by (simp add: node_persist_payment_batch_def mock_api_def)
  then show ?thesis
  proof (cases rule: call_then_cases)
    case (1 e)
    have "mb_payments b' = mb_payments b" using encrypt_all_ok [OF 1(1)] st by simp
    from mock_same [OF this] 1(2) ok show ?thesis by simp
  next
    case (2 dbs b1)
    from encrypt_all_ok [OF 2(1)] st have enc: "mb_payments b1 = mb_payments b"
      "list_all2 (\<lambda>p db. entry_of nc p (payment_index p, db) \<and>
        mock_key (nc_txid nc) db = Some (payment_index p)) qs dbs" by simp_all
    have ok1: "mock_ok nc b1" "mock_view nc b1 = mock_view nc b"
      using ok mock_same [OF enc(1)] by simp_all
    obtain b3 where up: "mock_upsert_payment_batch (nc_txid nc) dbs b1 = (Inr (), b3)" "mock_ok nc b3"
      "mock_view nc b3 = fold put_payment qs (mock_view nc b)"
      using upsert_batch_ok [OF enc(2) ok1(1) _ dist] st ok1(2) by auto
    from 2(2) show ?thesis
    proof (cases rule: call_then_cases)
      case (1 e)
      then show ?thesis using ok1 token_world by auto
    next
      case (2 u b2)
      then have "b2 = b1" using token_world by auto
      with 2(2) up show ?thesis by (auto simp: call_then_def call_err_def call_pure_def)
    qed
  qed
qed

lemma get_lawful:
  assumes ok: "mock_ok nc b" and run: "node_get_payment nc api idx b = (r, b')"
  shows "b' = b \<and> (\<forall>q. r = Inr q \<longrightarrow> q = mock_view nc b (index_id idx))"
proof (cases "token (mb_draws b)")
  case (Inl e)
  with run show ?thesis
    by (auto simp: node_get_payment_def call_then_def token_call_def call_err_def mock_api_def)
next
  case (Inr u)
  let ?e = "find (\<lambda>(k, _). index_id k = index_id idx) (mb_payments b)"
  from Inr run have "(case map_option snd ?e of None \<Rightarrow> call_pure (Inr None)
     | Some db \<Rightarrow> call_pure (and_then (decrypt_payment nc db) (\<lambda>p.
           ensure (payment_id p = index_id idx) IdMismatch (Inr (Some p))))) b = (r, b')"
    by (simp add: node_get_payment_def call_then_def token_call_def call_err_def mock_api_def mock_get_payment_def)
  then show ?thesis
    by (cases ?e) (auto simp: call_pure_def result_simps mock_view_def ok_def)
qed

lemma view_entries:
  assumes "mock_ok nc b"
  shows "{p. \<exists>i. mock_view nc b i = Some p \<and> Q p} =
    {p. Q p \<and> (\<exists>e \<in> set (mb_payments b). entry_of nc p e)}"
  using mock_view_Some [OF assms] by auto

lemma decrypt_entries:
  assumes "\<forall>e \<in> set es. entry_of nc (f e) e"
  shows "collect_results (map (decrypt_payment nc) (map snd es)) = Inr (map f es)"
  using assms by (induction es) (simp_all add: entry_of_def)

lemma read_pending_lawful:
  assumes ok: "mock_ok nc b" and run: "node_read_pending_payments nc api b = (Inr l, b')"
  shows "set l = {p. \<exists>i. mock_view nc b i = Some p \<and> is_pending_payment p} \<and> b' = b"
proof -
  define f where "f e = (SOME p. entry_of nc p e)" for e
  have f: "entry_of nc (f e) e" if "e \<in> set (mb_payments b)" for e
    unfolding f_def using mock_ok_entry [OF ok that] by (rule someI_ex)
  define es where "es = filter (\<lambda>e. db_status (snd e) = status_display PaymentStatus.Pending) (mb_payments b)"
  have "filter (\<lambda>p. db_status p = status_display PaymentStatus.Pending) (map snd (mb_payments b)) = map snd es"
    by (simp add: es_def filter_map comp_def)
  with run have "(Inr l, b') = (collect_results (map (decrypt_payment nc) (map snd es)), b)"
    by (cases "token (mb_draws b)")
      (auto simp: node_read_pending_payments_def call_then_def call_err_def call_pure_def token_call_def
        mock_api_def mock_get_pending_payments_def)
  moreover have "collect_results (map (decrypt_payment nc) (map snd es)) = Inr (map f es)"
    by (rule decrypt_entries) (simp add: es_def f)
  ultimately have l: "l = map f es" "b' = b" by simp_all
  have pend: "db_status (snd e) = status_display PaymentStatus.Pending \<longleftrightarrow> is_pending_payment p"
    if "entry_of nc p e" for p e
    using that by (cases "payment_status p") (simp_all add: entry_of_def is_pending_payment_def)
  have "set (map f es) = {p. is_pending_payment p \<and> (\<exists>e \<in> set (mb_payments b). entry_of nc p e)}"
  proof (intro set_eqI iffI)
    fix p assume "p \<in> set (map f es)"
    then obtain e where e: "e \<in> set (mb_payments b)" "p = f e"
      "db_status (snd e) = status_display PaymentStatus.Pending" unfolding es_def by auto
    then show "p \<in> {p. is_pending_payment p \<and> (\<exists>e \<in> set (mb_payments b). entry_of nc p e)}"
      using f [OF e(1)] pend [OF f [OF e(1)]] by blast
  next
    fix p assume "p \<in> {p. is_pending_payment p \<and> (\<exists>e \<in> set (mb_payments b). entry_of nc p e)}"
    then obtain e where e: "e \<in> set (mb_payments b)" "entry_of nc p e" "is_pending_payment p" by blast
    then have "f e = p" using f entry_of_unique by metis
    moreover have "e \<in> set es" using e pend [OF e(2)] by (simp add: es_def)
    ultimately show "p \<in> set (map f es)" by force
  qed
  with l show ?thesis unfolding view_entries [OF ok] by blast
qed

lemma read_pending_total:
  assumes ok: "mock_ok nc b" and "token (mb_draws b) = Inr ()"
  shows "\<exists>l. node_read_pending_payments nc api b = (Inr l, b)"
proof -
  define f where "f e = (SOME p. entry_of nc p e)" for e
  define es where "es = filter (\<lambda>e. db_status (snd e) = status_display PaymentStatus.Pending) (mb_payments b)"
  have "entry_of nc (f e) e" if "e \<in> set es" for e
  proof -
    have "e \<in> set (mb_payments b)" using that by (simp add: es_def)
    from mock_ok_entry [OF ok this] show ?thesis unfolding f_def by (rule someI_ex)
  qed
  then have "collect_results (map (decrypt_payment nc) (map snd es)) = Inr (map f es)"
    by (intro decrypt_entries) simp
  moreover have "filter (\<lambda>p. db_status p = status_display PaymentStatus.Pending) (map snd (mb_payments b)) = map snd es"
    by (simp add: es_def filter_map comp_def)
  ultimately have "node_read_pending_payments nc api b = (Inr (map f es), b)"
    using assms(2)
    by (simp add: node_read_pending_payments_def call_then_def call_err_def call_pure_def
        token_call_def mock_api_def mock_get_pending_payments_def)
  then show ?thesis by blast
qed

lemma read_finalized_total:
  assumes "token (mb_draws b) = Inr ()"
  shows "\<exists>ids. node_read_finalized_payment_ids api b = (Inr ids, b)"
  using assms
  by (simp add: node_read_finalized_payment_ids_def call_then_def call_err_def token_call_def
      mock_api_def mock_get_finalized_payment_ids_def)

lemma read_finalized_lawful:
  assumes ok: "mock_ok nc b" and run: "node_read_finalized_payment_ids api b = (Inr ids, b')"
  shows "set ids = {i. \<exists>p. mock_view nc b i = Some p \<and> \<not> is_pending_payment p} \<and> b' = b"
proof -
  define es where "es = filter (\<lambda>(_, p). db_status p = status_display PaymentStatus.Completed \<or>
            db_status p = status_display PaymentStatus.Failed) (mb_payments b)"
  have ids: "ids = map (\<lambda>(k, _). index_id k) es" "b' = b"
    using run
    by (cases "token (mb_draws b)";
      auto simp: node_read_finalized_payment_ids_def call_then_def call_err_def token_call_def
        mock_api_def mock_get_finalized_payment_ids_def es_def)+
  have fin: "db_status (snd e) = status_display PaymentStatus.Completed \<or>
      db_status (snd e) = status_display PaymentStatus.Failed \<longleftrightarrow> \<not> is_pending_payment p"
    if "entry_of nc p e" for p e
    using that by (cases "payment_status p") (simp_all add: entry_of_def is_pending_payment_def)
  have "set ids = {i. \<exists>e \<in> set (mb_payments b). \<exists>p. entry_of nc p e \<and> payment_id p = i \<and> \<not> is_pending_payment p}"
  proof (intro set_eqI iffI)
    fix i assume "i \<in> set ids"
    then obtain e where e: "e \<in> set es" "index_id (fst e) = i" by (auto simp: ids case_prod_beta)
    then have mem: "e \<in> set (mb_payments b)" by (simp add: es_def)
    then obtain p where p: "entry_of nc p e" using mock_ok_entry [OF ok] by blast
    have "\<not> is_pending_payment p" using fin [OF p] e(1) by (simp add: es_def case_prod_beta)
    moreover have "payment_id p = i" using e(2) by (simp add: entry_of_index [OF p])
    ultimately show "i \<in> {i. \<exists>e \<in> set (mb_payments b). \<exists>p. entry_of nc p e \<and> payment_id p = i \<and> \<not> is_pending_payment p}"
      using mem p by blast
  next
    fix i assume "i \<in> {i. \<exists>e \<in> set (mb_payments b). \<exists>p. entry_of nc p e \<and> payment_id p = i \<and> \<not> is_pending_payment p}"
    then obtain e p where e: "e \<in> set (mb_payments b)" "entry_of nc p e" "payment_id p = i" "\<not> is_pending_payment p"
      by blast
    then have "e \<in> set es" using fin [OF e(2)] by (simp add: es_def case_prod_beta)
    moreover have "index_id (fst e) = i" using e by (simp add: entry_of_index)
    ultimately show "i \<in> set ids" by (auto simp: ids case_prod_beta)
  qed
  with ids(2) show ?thesis using mock_view_Some [OF ok] by auto
qed

end

sublocale node_store \<subseteq> store: payment_store "node_persister nc (mock_api (nc_txid nc) rng token)" "mock_view nc" "mock_ok nc"
proof
  fix w p r w'
  assume ok: "mock_ok nc w" and st: "storable p"
  show "mock_view nc w (payment_id p) = None \<Longrightarrow>
      create_payment (node_persister nc (mock_api (nc_txid nc) rng token)) p w = (r, w') \<Longrightarrow>
      mock_ok nc w' \<and> (case r of Inl e \<Rightarrow> mock_view nc w' = mock_view nc w
        | Inr q \<Rightarrow> q = p \<and> mock_view nc w' = put_payment p (mock_view nc w))"
    using write_payment [OF ok st, of True] by (simp add: node_persister_def node_create_payment_def mock_api_def same_index_def)
  show "same_index (mock_view nc w) p \<Longrightarrow>
      persist_payment (node_persister nc (mock_api (nc_txid nc) rng token)) p w = (r, w') \<Longrightarrow>
      mock_ok nc w' \<and> (case r of Inl e \<Rightarrow> mock_view nc w' = mock_view nc w
        | Inr q \<Rightarrow> q = p \<and> mock_view nc w' = put_payment p (mock_view nc w))"
    using write_payment [OF ok st, of False] by (simp add: node_persister_def node_persist_payment_def mock_api_def)
next
  fix w w' qs r
  assume "mock_ok nc w" and "\<forall>p \<in> set qs. storable p \<and> same_index (mock_view nc w) p"
    and "distinct (map payment_id qs)"
    and "persist_payment_batch (node_persister nc (mock_api (nc_txid nc) rng token)) qs w = (r, w')"
  then show "mock_ok nc w' \<and> (case r of Inl e \<Rightarrow> mock_view nc w' = mock_view nc w
      | Inr qs' \<Rightarrow> qs' = qs \<and> mock_view nc w' = fold put_payment qs (mock_view nc w))"
    using persist_batch_lawful by (simp add: node_persister_def)
next
  fix w w' idx r
  assume "mock_ok nc w" and "get_payment (node_persister nc (mock_api (nc_txid nc) rng token)) idx w = (r, w')"
  then show "mock_ok nc w' \<and> mock_view nc w' = mock_view nc w \<and>
      (\<forall>q. r = Inr q \<longrightarrow> id_valid (index_id idx) \<longrightarrow> q = mock_view nc w (index_id idx))"
    using get_lawful [of w idx r w'] by (simp add: node_persister_def)
next
  fix w w' l
  assume "mock_ok nc w" and "read_pending_payments (node_persister nc (mock_api (nc_txid nc) rng token)) w = (Inr l, w')"
  then show "set l = {p. \<exists>i. mock_view nc w i = Some p \<and> is_pending_payment p} \<and>
      mock_view nc w' = mock_view nc w \<and> mock_ok nc w'"
    using read_pending_lawful [of w l w'] by (simp add: node_persister_def)
next
  fix w w' ids
  assume "mock_ok nc w"
    and "read_finalized_payment_ids (node_persister nc (mock_api (nc_txid nc) rng token)) w = (Inr ids, w')"
  then show "set ids = {i. \<exists>p. mock_view nc w i = Some p \<and> \<not> is_pending_payment p} \<and>
      mock_view nc w' = mock_view nc w \<and> mock_ok nc w'"
    using read_finalized_lawful [of w ids w'] by (simp add: node_persister_def)
next
  fix w i p
  assume "mock_ok nc w" and "mock_view nc w i = Some p"
  then show "payment_id p = i \<and> storable p"
    by (auto simp: mock_view_Some entry_of_def)
qed

end
