(* ===== verification/Payment_Codec.thy ===== *)
theory Payment_Codec
  imports Node_Persister
begin

text \<open>
  A concrete lossless encoding of payments, standing in for \<^verbatim>\<open>serde_json\<close>: it shows that the hypotheses
  of the node's properties can be met, and serves as the instance on which they are applied.
  Numbers are written in unary, every other type is built from them by combinators.
\<close>

section \<open>Combinators\<close>

type_synonym 'a codec = "('a \<Rightarrow> bytes) \<times> (bytes \<Rightarrow> ('a \<times> bytes) option)"

definition lossless :: "'a codec \<Rightarrow> bool" where
  "lossless c \<longleftrightarrow> (\<forall>x rest. snd c (fst c x @ rest) = Some (x, rest))"

named_theorems codec_intros \<open>lossless encodings\<close>

fun dec_nat :: "bytes \<Rightarrow> (nat \<times> bytes) option" where
  "dec_nat [] = None"
| "dec_nat (b # bs) =
     (if b = 0 then Some (0, bs) else map_option (\<lambda>(n, r). (Suc n, r)) (dec_nat bs))"

definition c_nat :: "nat codec" where
  "c_nat = ((\<lambda>n. replicate n 1 @ [0]), dec_nat)"

definition c_map :: "('a \<Rightarrow> 'b) \<Rightarrow> ('b \<Rightarrow> 'a) \<Rightarrow> 'b codec \<Rightarrow> 'a codec" where
  "c_map f g c = ((\<lambda>x. fst c (f x)), (\<lambda>b. map_option (\<lambda>(y, r). (g y, r)) (snd c b)))"

definition c_pair :: "'a codec \<Rightarrow> 'b codec \<Rightarrow> ('a \<times> 'b) codec" where
  "c_pair c d = ((\<lambda>(x, y). fst c x @ fst d y),
     (\<lambda>b. Option.bind (snd c b) (\<lambda>(x, r). map_option (\<lambda>(y, r). ((x, y), r)) (snd d r))))"

definition c_option :: "'a codec \<Rightarrow> 'a option codec" where
  "c_option c = ((\<lambda>x. case x of None \<Rightarrow> [0] | Some y \<Rightarrow> 1 # fst c y),
     (\<lambda>b. case b of [] \<Rightarrow> None
        | t # r \<Rightarrow> if t = 0 then Some (None, r) else map_option (\<lambda>(y, r). (Some y, r)) (snd c r)))"

definition c_sum :: "'a codec \<Rightarrow> 'b codec \<Rightarrow> ('a + 'b) codec" where
  "c_sum c d = ((\<lambda>x. case x of Inl y \<Rightarrow> 0 # fst c y | Inr z \<Rightarrow> 1 # fst d z),
     (\<lambda>b. case b of [] \<Rightarrow> None
        | t # r \<Rightarrow> if t = 0 then map_option (\<lambda>(y, r). (Inl y, r)) (snd c r)
                  else map_option (\<lambda>(z, r). (Inr z, r)) (snd d r)))"

primrec dec_list :: "'a codec \<Rightarrow> nat \<Rightarrow> bytes \<Rightarrow> ('a list \<times> bytes) option" where
  "dec_list c 0 b = Some ([], b)"
| "dec_list c (Suc n) b =
     Option.bind (snd c b) (\<lambda>(x, r). map_option (\<lambda>(xs, r). (x # xs, r)) (dec_list c n r))"

definition c_list :: "'a codec \<Rightarrow> 'a list codec" where
  "c_list c = ((\<lambda>xs. fst c_nat (length xs) @ concat (map (fst c) xs)),
     (\<lambda>b. Option.bind (dec_nat b) (\<lambda>(n, r). dec_list c n r)))"

definition c_enum :: "'a list \<Rightarrow> 'a codec" where
  "c_enum xs = c_map (\<lambda>x. length (takeWhile (\<lambda>y. y \<noteq> x) xs)) (\<lambda>n. xs ! n) c_nat"

lemma dec_nat_unary: "dec_nat (replicate n 1 @ 0 # rest) = Some (n, rest)"
  by (induction n) simp_all

lemma lossless_nat [codec_intros]: "lossless c_nat"
  by (simp add: lossless_def c_nat_def dec_nat_unary)

lemma lossless_map: "lossless c \<Longrightarrow> (\<And>x. g (f x) = x) \<Longrightarrow> lossless (c_map f g c)"
  by (simp add: lossless_def c_map_def)

lemma lossless_pair [codec_intros]: "lossless c \<Longrightarrow> lossless d \<Longrightarrow> lossless (c_pair c d)"
  by (auto simp: lossless_def c_pair_def)

lemma lossless_option [codec_intros]: "lossless c \<Longrightarrow> lossless (c_option c)"
  by (auto simp: lossless_def c_option_def split: option.split)

lemma lossless_sum [codec_intros]: "lossless c \<Longrightarrow> lossless d \<Longrightarrow> lossless (c_sum c d)"
  by (auto simp: lossless_def c_sum_def split: sum.split)

lemma dec_list_append:
  "lossless c \<Longrightarrow> dec_list c (length xs) (concat (map (fst c) xs) @ rest) = Some (xs, rest)"
  by (induction xs) (simp_all add: lossless_def)

lemma lossless_list [codec_intros]: "lossless c \<Longrightarrow> lossless (c_list c)"
  unfolding lossless_def c_list_def
  by (simp add: c_nat_def dec_nat_unary dec_list_append [unfolded lossless_def])

lemma nth_takeWhile_neq: "x \<in> set xs \<Longrightarrow> xs ! length (takeWhile (\<lambda>y. y \<noteq> x) xs) = x"
  by (induction xs) auto

lemma lossless_enum: "(\<And>x. x \<in> set xs) \<Longrightarrow> lossless (c_enum xs)"
  unfolding c_enum_def by (rule lossless_map [OF lossless_nat]) (rule nth_takeWhile_neq)

section \<open>The types of a payment\<close>

definition c_word :: "'a::len word codec" where
  "c_word = c_map unat of_nat c_nat"

definition c_bool :: "bool codec" where
  "c_bool = c_enum [False, True]"

definition c_int :: "int codec" where
  "c_int = c_map (\<lambda>z. (z < 0, nat \<bar>z\<bar>)) (\<lambda>(s, n). if s then - int n else int n) (c_pair c_bool c_nat)"

definition c_string :: "string codec" where
  "c_string = c_list (c_map of_char char_of c_nat)"

definition c_bytes :: "bytes codec" where
  "c_bytes = c_list c_word"

definition c_time :: "TimestampMs codec" where
  "c_time = c_map as_i64 TimestampMs c_int"

definition c_amount :: "Amount codec" where
  "c_amount = c_map (\<lambda>a. (is_sign_negative (inner a), mantissa (inner a), scale (inner a)))
     (\<lambda>(s, m, e). Amount (Decimal s m e)) (c_pair c_bool (c_pair c_nat c_nat))"

definition c_hash :: "LxPaymentHash codec" where "c_hash = c_map hash_bytes LxPaymentHash c_bytes"
definition c_cid :: "ClientPaymentId codec" where "c_cid = c_map cid_bytes ClientPaymentId c_bytes"
definition c_txid :: "LxTxid codec" where "c_txid = c_map txid_bytes LxTxid c_bytes"
definition c_secret :: "LxPaymentSecret codec" where "c_secret = c_map secret_bytes LxPaymentSecret c_bytes"
definition c_pre :: "LxPaymentPreimage codec" where "c_pre = c_map preimage_bytes LxPaymentPreimage c_bytes"
definition c_invoice :: "LxInvoice codec" where "c_invoice = c_map bolt11 LxInvoice c_string"

definition c_tx :: "Transaction codec" where
  "c_tx = c_map (\<lambda>t. (tx_input t, tx_rest t)) (\<lambda>(i, r). \<lparr>tx_input = i, tx_rest = r\<rparr>)
     (c_pair (c_list (c_map (\<lambda>p. (op_txid p, op_vout p)) (\<lambda>(t, v). \<lparr>op_txid = t, op_vout = v\<rparr>)
        (c_pair c_txid c_word))) c_bytes)"

lemma lossless_word [codec_intros]: "lossless (c_word :: 'a::len word codec)"
  unfolding c_word_def by (rule lossless_map) (simp_all add: lossless_nat)

lemma lossless_bool [codec_intros]: "lossless c_bool"
  unfolding c_bool_def by (rule lossless_enum) auto

lemma lossless_int [codec_intros]: "lossless c_int"
  unfolding c_int_def by (intro lossless_map codec_intros) auto

lemma lossless_string [codec_intros]: "lossless c_string"
  unfolding c_string_def by (intro lossless_map codec_intros) auto

lemma lossless_time [codec_intros]: "lossless c_time"
  unfolding c_time_def by (intro lossless_map codec_intros) auto

lemma lossless_amount [codec_intros]: "lossless c_amount"
  unfolding c_amount_def by (intro lossless_map codec_intros) (auto simp: Amount.expand Decimal.expand)

lemma lossless_bytes [codec_intros]: "lossless c_bytes"
  unfolding c_bytes_def by (intro codec_intros)

lemma lossless_hash [codec_intros]: "lossless c_hash"
  unfolding c_hash_def by (intro lossless_map codec_intros) auto

lemma lossless_cid [codec_intros]: "lossless c_cid"
  unfolding c_cid_def by (intro lossless_map codec_intros) auto

lemma lossless_txid [codec_intros]: "lossless c_txid"
  unfolding c_txid_def by (intro lossless_map codec_intros) auto

lemma lossless_secret [codec_intros]: "lossless c_secret"
  unfolding c_secret_def by (intro lossless_map codec_intros) auto

lemma lossless_pre [codec_intros]: "lossless c_pre"
  unfolding c_pre_def by (intro lossless_map codec_intros) auto

lemma lossless_invoice [codec_intros]: "lossless c_invoice"
  unfolding c_invoice_def by (intro lossless_map codec_intros) auto

lemma lossless_tx [codec_intros]: "lossless c_tx"
  unfolding c_tx_def by (intro lossless_map codec_intros) auto

section \<open>The six kinds of payments\<close>

definition c_priority :: "ConfirmationPriority codec" where
  "c_priority = c_enum [ConfirmationPriority.PHigh, ConfirmationPriority.PNormal, ConfirmationPriority.PBackground]"

lemma lossless_priority [codec_intros]: "lossless c_priority"
  unfolding c_priority_def
proof (rule lossless_enum)
  fix x :: ConfirmationPriority
  show "x \<in> set [ConfirmationPriority.PHigh, ConfirmationPriority.PNormal, ConfirmationPriority.PBackground]" by (cases x) simp_all
qed

definition c_os_status :: "OnchainSendStatus codec" where
  "c_os_status = c_enum [OnchainSendStatus.Created, OnchainSendStatus.Broadcasted, OnchainSendStatus.ReplacementBroadcasted, OnchainSendStatus.PartiallyConfirmed, OnchainSendStatus.PartiallyReplaced, OnchainSendStatus.FullyConfirmed, OnchainSendStatus.FullyReplaced, OnchainSendStatus.Dropped]"

lemma lossless_os_status [codec_intros]: "lossless c_os_status"
  unfolding c_os_status_def
proof (rule lossless_enum)
  fix x :: OnchainSendStatus
  show "x \<in> set [OnchainSendStatus.Created, OnchainSendStatus.Broadcasted, OnchainSendStatus.ReplacementBroadcasted, OnchainSendStatus.PartiallyConfirmed, OnchainSendStatus.PartiallyReplaced, OnchainSendStatus.FullyConfirmed, OnchainSendStatus.FullyReplaced, OnchainSendStatus.Dropped]" by (cases x) simp_all
qed

definition c_or_status :: "OnchainReceiveStatus codec" where
  "c_or_status = c_enum [OnchainReceiveStatus.Zeroconf, OnchainReceiveStatus.PartiallyConfirmed, OnchainReceiveStatus.PartiallyReplaced, OnchainReceiveStatus.FullyConfirmed, OnchainReceiveStatus.FullyReplaced, OnchainReceiveStatus.Dropped]"

lemma lossless_or_status [codec_intros]: "lossless c_or_status"
  unfolding c_or_status_def
proof (rule lossless_enum)
  fix x :: OnchainReceiveStatus
  show "x \<in> set [OnchainReceiveStatus.Zeroconf, OnchainReceiveStatus.PartiallyConfirmed, OnchainReceiveStatus.PartiallyReplaced, OnchainReceiveStatus.FullyConfirmed, OnchainReceiveStatus.FullyReplaced, OnchainReceiveStatus.Dropped]" by (cases x) simp_all
qed

definition c_iip_status :: "InboundInvoicePaymentStatus codec" where
  "c_iip_status = c_enum [InboundInvoicePaymentStatus.InvoiceGenerated, InboundInvoicePaymentStatus.Claiming, InboundInvoicePaymentStatus.Completed, InboundInvoicePaymentStatus.Expired]"

lemma lossless_iip_status [codec_intros]: "lossless c_iip_status"
  unfolding c_iip_status_def
proof (rule lossless_enum)
  fix x :: InboundInvoicePaymentStatus
  show "x \<in> set [InboundInvoicePaymentStatus.InvoiceGenerated, InboundInvoicePaymentStatus.Claiming, InboundInvoicePaymentStatus.Completed, InboundInvoicePaymentStatus.Expired]" by (cases x) simp_all
qed

definition c_isp_status :: "InboundSpontaneousPaymentStatus codec" where
  "c_isp_status = c_enum [InboundSpontaneousPaymentStatus.Claiming, InboundSpontaneousPaymentStatus.Completed]"

lemma lossless_isp_status [codec_intros]: "lossless c_isp_status"
  unfolding c_isp_status_def
proof (rule lossless_enum)
  fix x :: InboundSpontaneousPaymentStatus
  show "x \<in> set [InboundSpontaneousPaymentStatus.Claiming, InboundSpontaneousPaymentStatus.Completed]" by (cases x) simp_all
qed

definition c_oip_status :: "OutboundInvoicePaymentStatus codec" where
  "c_oip_status = c_enum [OutboundInvoicePaymentStatus.Pending, OutboundInvoicePaymentStatus.Abandoning, OutboundInvoicePaymentStatus.Completed, OutboundInvoicePaymentStatus.Failed]"

lemma lossless_oip_status [codec_intros]: "lossless c_oip_status"
  unfolding c_oip_status_def
proof (rule lossless_enum)
  fix x :: OutboundInvoicePaymentStatus
  show "x \<in> set [OutboundInvoicePaymentStatus.Pending, OutboundInvoicePaymentStatus.Abandoning, OutboundInvoicePaymentStatus.Completed, OutboundInvoicePaymentStatus.Failed]" by (cases x) simp_all
qed

definition c_osp_status :: "OutboundSpontaneousPaymentStatus codec" where
  "c_osp_status = c_enum [OutboundSpontaneousPaymentStatus.Pending, OutboundSpontaneousPaymentStatus.Completed, OutboundSpontaneousPaymentStatus.Failed]"

lemma lossless_osp_status [codec_intros]: "lossless c_osp_status"
  unfolding c_osp_status_def
proof (rule lossless_enum)
  fix x :: OutboundSpontaneousPaymentStatus
  show "x \<in> set [OutboundSpontaneousPaymentStatus.Pending, OutboundSpontaneousPaymentStatus.Completed, OutboundSpontaneousPaymentStatus.Failed]" by (cases x) simp_all
qed

definition c_failure :: "LxOutboundPaymentFailure codec" where
  "c_failure = c_enum [LxOutboundPaymentFailure.NoRetries, LxOutboundPaymentFailure.Rejected, LxOutboundPaymentFailure.Abandoned, LxOutboundPaymentFailure.Expired, LxOutboundPaymentFailure.NoRoute, LxOutboundPaymentFailure.LexeErr, LxOutboundPaymentFailure.Unknown]"

lemma lossless_failure [codec_intros]: "lossless c_failure"
  unfolding c_failure_def
proof (rule lossless_enum)
  fix x :: LxOutboundPaymentFailure
  show "x \<in> set [LxOutboundPaymentFailure.NoRetries, LxOutboundPaymentFailure.Rejected, LxOutboundPaymentFailure.Abandoned, LxOutboundPaymentFailure.Expired, LxOutboundPaymentFailure.NoRoute, LxOutboundPaymentFailure.LexeErr, LxOutboundPaymentFailure.Unknown]" by (cases x) simp_all
qed

definition c_os :: "OnchainSend codec" where
  "c_os = c_map (\<lambda>p. (os_cid p, os_txid p, os_tx p, os_replacement p, os_priority p, os_amount p, os_fees p, os_status p, os_created_at p, os_note p, os_finalized_at p))
     (\<lambda>(col_0, col_1, col_2, col_3, col_4, col_5, col_6, col_7, col_8, col_9, col_10). \<lparr>os_cid = col_0, os_txid = col_1, os_tx = col_2, os_replacement = col_3, os_priority = col_4, os_amount = col_5, os_fees = col_6, os_status = col_7, os_created_at = col_8, os_note = col_9, os_finalized_at = col_10\<rparr>)
     (c_pair (c_cid) (c_pair (c_txid) (c_pair (c_tx) (c_pair (c_option c_txid) (c_pair (c_priority) (c_pair (c_amount) (c_pair (c_amount) (c_pair (c_os_status) (c_pair (c_time) (c_pair (c_option c_string) (c_option c_time)))))))))))"

lemma lossless_os [codec_intros]: "lossless c_os"
  unfolding c_os_def by (intro lossless_map codec_intros) auto

definition c_or :: "OnchainReceive codec" where
  "c_or = c_map (\<lambda>p. (or_txid p, or_tx p, or_replacement p, or_amount p, or_status p, or_created_at p, or_note p, or_finalized_at p))
     (\<lambda>(col_0, col_1, col_2, col_3, col_4, col_5, col_6, col_7). \<lparr>or_txid = col_0, or_tx = col_1, or_replacement = col_2, or_amount = col_3, or_status = col_4, or_created_at = col_5, or_note = col_6, or_finalized_at = col_7\<rparr>)
     (c_pair (c_txid) (c_pair (c_tx) (c_pair (c_option c_txid) (c_pair (c_amount) (c_pair (c_or_status) (c_pair (c_time) (c_pair (c_option c_string) (c_option c_time))))))))"

lemma lossless_or [codec_intros]: "lossless c_or"
  unfolding c_or_def by (intro lossless_map codec_intros) auto

definition c_iip :: "InboundInvoicePayment codec" where
  "c_iip = c_map (\<lambda>p. (iip_invoice p, iip_hash p, iip_secret p, iip_preimage p, iip_invoice_amount p, iip_recvd_amount p, iip_onchain_fees p, iip_status p, iip_note p, iip_created_at p, iip_finalized_at p))
     (\<lambda>(col_0, col_1, col_2, col_3, col_4, col_5, col_6, col_7, col_8, col_9, col_10). \<lparr>iip_invoice = col_0, iip_hash = col_1, iip_secret = col_2, iip_preimage = col_3, iip_invoice_amount = col_4, iip_recvd_amount = col_5, iip_onchain_fees = col_6, iip_status = col_7, iip_note = col_8, iip_created_at = col_9, iip_finalized_at = col_10\<rparr>)
     (c_pair (c_invoice) (c_pair (c_hash) (c_pair (c_secret) (c_pair (c_pre) (c_pair (c_option c_amount) (c_pair (c_option c_amount) (c_pair (c_option c_amount) (c_pair (c_iip_status) (c_pair (c_option c_string) (c_pair (c_time) (c_option c_time)))))))))))"

lemma lossless_iip [codec_intros]: "lossless c_iip"
  unfolding c_iip_def by (intro lossless_map codec_intros) auto

definition c_isp :: "InboundSpontaneousPayment codec" where
  "c_isp = c_map (\<lambda>p. (isp_hash p, isp_preimage p, isp_amount p, isp_onchain_fees p, isp_status p, isp_note p, isp_created_at p, isp_finalized_at p))
     (\<lambda>(col_0, col_1, col_2, col_3, col_4, col_5, col_6, col_7). \<lparr>isp_hash = col_0, isp_preimage = col_1, isp_amount = col_2, isp_onchain_fees = col_3, isp_status = col_4, isp_note = col_5, isp_created_at = col_6, isp_finalized_at = col_7\<rparr>)
     (c_pair (c_hash) (c_pair (c_pre) (c_pair (c_amount) (c_pair (c_option c_amount) (c_pair (c_isp_status) (c_pair (c_option c_string) (c_pair (c_time) (c_option c_time))))))))"

lemma lossless_isp [codec_intros]: "lossless c_isp"
  unfolding c_isp_def by (intro lossless_map codec_intros) auto

definition c_oip :: "OutboundInvoicePayment codec" where
  "c_oip = c_map (\<lambda>p. (oip_invoice p, oip_hash p, oip_secret p, oip_preimage p, oip_amount p, oip_fees p, oip_status p, oip_failure p, oip_note p, oip_created_at p, oip_finalized_at p))
     (\<lambda>(col_0, col_1, col_2, col_3, col_4, col_5, col_6, col_7, col_8, col_9, col_10). \<lparr>oip_invoice = col_0, oip_hash = col_1, oip_secret = col_2, oip_preimage = col_3, oip_amount = col_4, oip_fees = col_5, oip_status = col_6, oip_failure = col_7, oip_note = col_8, oip_created_at = col_9, oip_finalized_at = col_10\<rparr>)
     (c_pair (c_invoice) (c_pair (c_hash) (c_pair (c_secret) (c_pair (c_option c_pre) (c_pair (c_amount) (c_pair (c_amount) (c_pair (c_oip_status) (c_pair (c_option c_failure) (c_pair (c_option c_string) (c_pair (c_time) (c_option c_time)))))))))))"

lemma lossless_oip [codec_intros]: "lossless c_oip"
  unfolding c_oip_def by (intro lossless_map codec_intros) auto

definition c_osp :: "OutboundSpontaneousPayment codec" where
  "c_osp = c_map (\<lambda>p. (osp_hash p, osp_preimage p, osp_amount p, osp_fees p, osp_status p, osp_note p, osp_created_at p, osp_finalized_at p))
     (\<lambda>(col_0, col_1, col_2, col_3, col_4, col_5, col_6, col_7). \<lparr>osp_hash = col_0, osp_preimage = col_1, osp_amount = col_2, osp_fees = col_3, osp_status = col_4, osp_note = col_5, osp_created_at = col_6, osp_finalized_at = col_7\<rparr>)
     (c_pair (c_hash) (c_pair (c_pre) (c_pair (c_amount) (c_pair (c_amount) (c_pair (c_osp_status) (c_pair (c_option c_string) (c_pair (c_time) (c_option c_time))))))))"

lemma lossless_osp [codec_intros]: "lossless c_osp"
  unfolding c_osp_def by (intro lossless_map codec_intros) auto

fun payment_parts ::
    "Payment \<Rightarrow> OnchainSend + OnchainReceive + InboundInvoicePayment + InboundSpontaneousPayment +
     OutboundInvoicePayment + OutboundSpontaneousPayment" where
  "payment_parts (Payment.OnchainSend p) = Inl p"
| "payment_parts (OnchainReceive p) = Inr (Inl p)"
| "payment_parts (InboundInvoice p) = Inr (Inr (Inl p))"
| "payment_parts (InboundSpontaneous p) = Inr (Inr (Inr (Inl p)))"
| "payment_parts (OutboundInvoice p) = Inr (Inr (Inr (Inr (Inl p))))"
| "payment_parts (OutboundSpontaneous p) = Inr (Inr (Inr (Inr (Inr p))))"

fun payment_unparts ::
    "OnchainSend + OnchainReceive + InboundInvoicePayment + InboundSpontaneousPayment +
     OutboundInvoicePayment + OutboundSpontaneousPayment \<Rightarrow> Payment" where
  "payment_unparts (Inl p) = Payment.OnchainSend p"
| "payment_unparts (Inr (Inl p)) = OnchainReceive p"
| "payment_unparts (Inr (Inr (Inl p))) = InboundInvoice p"
| "payment_unparts (Inr (Inr (Inr (Inl p)))) = InboundSpontaneous p"
| "payment_unparts (Inr (Inr (Inr (Inr (Inl p))))) = OutboundInvoice p"
| "payment_unparts (Inr (Inr (Inr (Inr (Inr p))))) = OutboundSpontaneous p"

definition c_payment :: "Payment codec" where
  "c_payment = c_map payment_parts payment_unparts
     (c_sum c_os (c_sum c_or (c_sum c_iip (c_sum c_isp (c_sum c_oip c_osp)))))"

lemma lossless_payment: "lossless c_payment"
  unfolding c_payment_def
proof (intro lossless_map codec_intros)
  fix p show "payment_unparts (payment_parts p) = p" by (cases p) simp_all
qed

definition codec_json :: payment_json where
  "codec_json = \<lparr>to_writer = fst c_payment, from_slice = (\<lambda>b. map_option fst (snd c_payment b))\<rparr>"

lemma codec_json_lossless: "from_slice codec_json (to_writer codec_json p) = Some p"
proof -
  have "snd c_payment (fst c_payment p @ []) = Some (p, [])"
    using lossless_payment unfolding lossless_def by blast
  then show ?thesis by (simp add: codec_json_def)
qed

section \<open>A concrete node\<close>

definition example_crypto :: node_crypto where
  "example_crypto =
     \<lparr>nc_key = AesMasterKey [1], nc_aead = plain_lib, nc_json = codec_json, nc_txid = reverse_hex_lib\<rparr>"

definition example_rng :: "nat \<Rightarrow> bytes" where
  "example_rng n = replicate 32 (of_nat n)"

lemma example_node_store: "node_store example_crypto example_rng"
proof (rule node_store.intro)
  show "bitcoin_txid (nc_txid example_crypto)"
    by (simp add: example_crypto_def reverse_hex.bitcoin_txid_axioms)
qed (simp_all add: example_crypto_def example_rng_def plain_lib_lawful codec_json_lossless)

interpretation example_node: node_store example_crypto example_rng token for token
  by (rule example_node_store)

section \<open>A payment through the database form\<close>

definition example_stored :: Payment where
  "example_stored = InboundInvoice (example_iip\<lparr>iip_hash := LxPaymentHash (replicate 32 7)\<rparr>)"

lemma example_stored_short: "length (to_writer codec_json example_stored) \<le> aead_max_plaintext plain_lib"
  by code_simp

theorem payment_encrypt_roundtrip_witness:
  "\<exists>db. payment_encrypt plain_lib codec_json reverse_hex_lib (replicate 32 3) (AesMasterKey [1]) example_stored = Some db \<and>
    payment_decrypt plain_lib codec_json (AesMasterKey [1]) db = Inr example_stored \<and>
    id_from_str reverse_hex_lib (db_id db) = Inr (payment_id example_stored) \<and>
    db_created_at db = as_i64 (payment_created_at example_stored) \<and>
    status_from_str (db_status db) = Inr (payment_status example_stored)"
  by (rule payment_encrypt_roundtrip [OF plain_lib_lawful reverse_hex.bitcoin_txid_axioms _
        example_stored_short codec_json_lossless])
    (simp_all add: example_stored_def example_iip_def iip_id_def hash_valid_def)

end
