(* ===== verification/Node_Payments.thy ===== *)
theory Node_Payments
  imports Manager_Proofs Payment_Codec
begin

text \<open>
  The payments subsystem of a node as a whole: the payments manager over the node persister over the
  in-memory backend of the repository, with crashes and restarts between handler calls.
\<close>

section \<open>Runs with restarts\<close>

abbreviation node_ps :: "node_crypto \<Rightarrow> (nat \<Rightarrow> bytes) \<Rightarrow> (nat \<Rightarrow> unit + unit) \<Rightarrow> mock_backend persister" where
  "node_ps nc rng token \<equiv> node_persister nc (mock_api (nc_txid nc) rng token)"

text \<open>
  Start-up as in \<^verbatim>\<open>node/src/run.rs\<close>: read the pending payments and the ids of the finalized ones, then
  build the manager's data from them.
\<close>

definition load_payments :: "'w persister \<Rightarrow> 'w \<Rightarrow> (PersistError + PaymentsData) \<times> 'w" where
  "load_payments ps =
     call_then (read_pending_payments ps) (\<lambda>pending_payments.
     call_then (read_finalized_payment_ids ps) (\<lambda>finalized_payment_ids.
     call_pure (Inr (data_new pending_payments finalized_payment_ids))))"

inductive node_step :: "'w persister \<Rightarrow> externs \<Rightarrow> 'w manager \<Rightarrow> 'w manager \<Rightarrow> bool" for ps ext where
  handler: "mgr_step ps ext m m' \<Longrightarrow> node_step ps ext m m'"
| restart: "load_payments ps (world m) = (Inr d, w') \<Longrightarrow>
    node_step ps ext m \<lparr>mdata = d, world = w', effects = []\<rparr>"

definition empty_node :: "mock_backend manager" where
  "empty_node = \<lparr>mdata = \<lparr>pending = (\<lambda>_. None), finalized = {}\<rparr>,
     world = \<lparr>mb_payments = [], mb_draws = 0\<rparr>, effects = []\<rparr>"

lemma map_of_unique:
  assumes "\<And>k v w. (k, v) \<in> set xs \<Longrightarrow> (k, w) \<in> set xs \<Longrightarrow> v = w"
  shows "map_of xs k = Some v \<longleftrightarrow> (k, v) \<in> set xs"
  using assms by (metis map_of_SomeD weak_map_of_SomeI)

lemma data_new_sync:
  assumes "set l = {p. \<exists>i. v i = Some p \<and> is_pending_payment p}"
    and "set ids = {i. \<exists>p. v i = Some p \<and> \<not> is_pending_payment p}"
    and "\<And>i p. v i = Some p \<Longrightarrow> payment_id p = i"
  shows "view_sync (data_new l ids) v"
proof -
  define es where "es = rev (List.map_filter (\<lambda>payment.
      if payment_status payment = PaymentStatus.Pending then Some (payment_id payment, payment)
      else None) l)"
  have es: "(i, p) \<in> set es \<longleftrightarrow> v i = Some p \<and> is_pending_payment p" for i p
    using assms(1,3) by (force simp: es_def set_map_filter is_pending_payment_def split: if_splits)
  then have "map_of es i = Some p \<longleftrightarrow> (i, p) \<in> set es" for i p
    by (intro map_of_unique) auto
  with es assms(2) show ?thesis
    by (auto simp: view_sync_def data_new_def es_def [symmetric])
qed

context payment_store
begin

lemma load_payments_ok:
  assumes "mgr_ok view wok m" and "load_payments ps (world m) = (Inr d, w')"
  shows "d = mdata m \<and> mgr_ok view wok \<lparr>mdata = d, world = w', effects = []\<rparr> \<and> view w' = view (world m)"
proof -
  obtain l w1 ids where l: "read_pending_payments ps (world m) = (Inr l, w1)"
    and ids: "read_finalized_payment_ids ps w1 = (Inr ids, w')" and d: "d = data_new l ids"
    using assms(2)
    by (auto simp: load_payments_def call_then_def call_pure_def split: prod.splits sum.splits)
  have ok: "wok (world m)" "stored_ok (view (world m))" "view_sync (mdata m) (view (world m))"
    using assms(1) by (auto simp: mgr_ok_def)
  note r1 = read_pending [OF ok(1) l]
  note r2 = read_finalized [OF conjunct2 [OF conjunct2 [OF r1]] ids]
  have "view_sync d (view (world m))"
    unfolding d
    by (rule data_new_sync) (use r1 r2 ok(2) in \<open>auto simp: stored_ok_def\<close>)
  with ok r1 r2 show ?thesis by (auto simp: mgr_ok_def intro: sync_unique)
qed

lemma node_step_next:
  assumes "node_step ps ext m m'" and "mgr_ok view wok m"
  shows "mgr_next (ext_sha256 ext) view wok m m'"
  using assms(1)
proof cases
  case handler
  then show ?thesis using assms(2) by (rule mgr_step_next)
next
  case (restart d w')
  with load_payments_ok [OF assms(2) restart(2)] show ?thesis by (auto simp: mgr_next_def)
qed

lemma node_steps_next:
  assumes "(node_step ps ext)\<^sup>*\<^sup>* m m'" and "mgr_ok view wok m"
  shows "mgr_next (ext_sha256 ext) view wok m m'"
  using assms(1)
proof (induction rule: rtranclp_induct)
  case base
  then show ?case using assms(2) by (rule mgr_next_refl)
next
  case (step m' m'')
  then show ?case
    using node_step_next grows_trans unfolding mgr_next_def by blast
qed

end

lemma empty_node_ok: "mgr_ok (mock_view nc) (mock_ok nc) empty_node"
  by (simp add: mgr_ok_def empty_node_def mock_ok_def stored_ok_def mock_view_def view_sync_def
      bt_sorted_def)

lemma set_note_set_note: "set_note n (set_note k p) = set_note n p"
  by (cases p) simp_all

lemma set_note_self: "set_note (payment_note p) p = p"
  by (cases p) simp_all

lemma evolves_final:
  assumes "(evolves sha256)\<^sup>*\<^sup>* p q" and "\<not> is_pending_payment p"
  shows "\<exists>n. q = set_note n p"
  using assms(1)
proof (induction rule: rtranclp_induct)
  case base
  then show ?case using set_note_self by metis
next
  case (step q r)
  then have "\<not> is_pending_payment q"
    using assms(2) by (auto simp: is_pending_payment_def)
  then have "\<exists>k. r = set_note k q"
    using step.hyps(2) payment.step_pending by (auto simp: evolves_def is_pending_payment_def)
  with step.IH show ?case using set_note_set_note by metis
qed

context node_store
begin

lemma run_ok:
  assumes "(node_step (node_ps nc rng token) ext)\<^sup>*\<^sup>* empty_node m"
  shows "mgr_ok (mock_view nc) (mock_ok nc) m"
  using store.node_steps_next [OF assms empty_node_ok] by (simp add: mgr_next_def)

lemma load_recovers:
  assumes ok: "mgr_ok (mock_view nc) (mock_ok nc) m" and tok: "token (mb_draws (world m)) = Inr ()"
  shows "load_payments (node_ps nc rng token) (world m) = (Inr (mdata m), world m)"
proof -
  obtain l ids where "node_read_pending_payments nc api (world m) = (Inr l, world m)"
    "node_read_finalized_payment_ids api (world m) = (Inr ids, world m)"
    using read_pending_total [OF _ tok] read_finalized_total [OF tok] ok by (auto simp: mgr_ok_def)
  then have load: "load_payments (node_ps nc rng token) (world m) = (Inr (data_new l ids), world m)"
    by (simp add: load_payments_def call_then_def call_pure_def node_persister_def)
  with store.load_payments_ok [OF ok load] show ?thesis by simp
qed

lemma run_grows:
  assumes "(node_step (node_ps nc rng token) ext)\<^sup>*\<^sup>* empty_node m"
    and "(node_step (node_ps nc rng token) ext)\<^sup>*\<^sup>* m m'"
  shows "mgr_ok (mock_view nc) (mock_ok nc) m'"
    and "grows (ext_sha256 ext) (mock_view nc (world m)) (mock_view nc (world m'))"
  using store.node_steps_next [OF assms(2) run_ok [OF assms(1)]] by (simp_all add: mgr_next_def)

lemma final_forever:
  assumes runs: "(node_step (node_ps nc rng token) ext)\<^sup>*\<^sup>* empty_node m"
    "(node_step (node_ps nc rng token) ext)\<^sup>*\<^sup>* m m'"
    and fin: "i \<in> finalized (mdata m)"
  shows "i \<in> finalized (mdata m') \<and> pending (mdata m') i = None \<and>
    (\<exists>p n. mock_view nc (world m) i = Some p \<and> mock_view nc (world m') i = Some (set_note n p))"
proof -
  have sync: "view_sync (mdata m) (mock_view nc (world m))" "view_sync (mdata m') (mock_view nc (world m'))"
    using run_ok [OF runs(1)] run_grows(1) [OF runs] by (auto simp: mgr_ok_def)
  obtain p where p: "mock_view nc (world m) i = Some p" "\<not> is_pending_payment p"
    using sync(1) fin by (auto simp: view_sync_def)
  then obtain q where "mock_view nc (world m') i = Some q" "(evolves (ext_sha256 ext))\<^sup>*\<^sup>* p q"
    using run_grows(2) [OF runs] unfolding grows_def by blast
  then obtain n where q: "mock_view nc (world m') i = Some (set_note n p)"
    using evolves_final [OF _ p(2)] by blast
  then have "\<not> is_pending_payment (set_note n p)" using p(2) by (simp add: is_pending_payment_def)
  with q p sync(2) show ?thesis
    unfolding view_sync_def by (metis not_None_eq option.inject)
qed

end

context node_store
begin

text \<open>A write goes through when the payment can be encrypted and a token is at hand.\<close>

lemma new_payment_succeeds:
  assumes ok: "mgr_ok (mock_view nc) (mock_ok nc) m" and p: "storable p" "assert_invariants p"
    and new: "\<not> contains_payment_id (mdata m) (payment_id p)"
    and enc: "encrypt_call nc api p (world m) = (Inr db, b1)" and tok: "token (mb_draws b1) = Inr ()"
  shows "\<exists>m'. new_payment (node_ps nc rng token) p m = (Inr (), m') \<and> mdata m' = commit p (mdata m) \<and>
    mgr_ok (mock_view nc) (mock_ok nc) m'"
proof -
  have absent: "pending (mdata m) (payment_id p) = None" "payment_id p \<notin> finalized (mdata m)"
    using new by (auto simp: contains_payment_id_def)
  then have "mock_view nc (world m) (payment_id p) = None"
    using ok unfolding mgr_ok_def by (metis sync_absent)
  moreover have "mock_ok nc (world m)" using ok by (simp add: mgr_ok_def)
  ultimately obtain b' where "node_create_payment nc api p (world m) = (Inr p, b')"
    using create_total [OF _ p(1) _ enc tok] by blast
  then have "new_payment (node_ps nc rng token) p m =
      (Inr (), m\<lparr>world := b', mdata := commit p (mdata m)\<rparr>)"
    using absent
    by (simp add: new_payment_def check_new_payment_def persist_commit_def node_persister_def)
  with store.new_payment_ok [OF ok p this] show ?thesis by (simp add: mgr_next_def)
qed

lemma persist_commit_succeeds:
  assumes ok: "mgr_ok (mock_view nc) (mock_ok nc) m" and adm: "admissible sha256 (mock_view nc (world m)) p"
    and enc: "encrypt_call nc api p (world m) = (Inr db, b1)" and tok: "token (mb_draws b1) = Inr ()"
  shows "\<exists>m'. persist_commit (persist_payment (node_ps nc rng token) p) m = (Inr (), m') \<and>
    mdata m' = commit p (mdata m) \<and> mgr_ok (mock_view nc) (mock_ok nc) m'"
proof -
  have "storable p" using adm by (simp add: admissible_def)
  then obtain b' where "node_persist_payment nc api p (world m) = (Inr p, b')"
    using persist_total [OF _ enc tok] by blast
  then have "persist_commit (persist_payment (node_ps nc rng token) p) m =
      (Inr (), m\<lparr>world := b', mdata := commit p (mdata m)\<rparr>)"
    by (simp add: persist_commit_def node_persister_def)
  with store.persist_commit_ok [OF ok adm this] show ?thesis by (simp add: mgr_next_def)
qed

end

section \<open>A concrete run\<close>

text \<open>A short run: an outbound invoice payment is registered and then fails.\<close>

definition example_token :: "nat \<Rightarrow> unit + unit" where
  "example_token n = Inr ()"

definition example_hash :: LxPaymentHash where
  "example_hash = LxPaymentHash (replicate 32 1)"

definition example_oip :: OutboundInvoicePayment where
  "example_oip =
     \<lparr>oip_invoice = LxInvoice ''lnbc'', oip_hash = example_hash, oip_secret = LxPaymentSecret [2],
      oip_preimage = None, oip_amount = amount_zero, oip_fees = amount_zero,
      oip_status = OutboundInvoicePaymentStatus.Pending, oip_failure = None, oip_note = None,
      oip_created_at = TimestampMs 5, oip_finalized_at = None\<rparr>"

definition example_externs :: externs where
  "example_externs = \<lparr>ext_invoice = unary_lib, ext_decimal = exact_ops, ext_sha256 = (\<lambda>x. x)\<rparr>"

definition example_payment :: Payment where
  "example_payment = OutboundInvoice example_oip"

abbreviation example_ps :: "mock_backend persister" where
  "example_ps \<equiv> node_ps example_crypto example_rng example_token"

definition example_node_run :: "mock_backend manager" where
  "example_node_run =
     snd (new_payment example_ps example_payment empty_node)"

lemma example_payment_ok: "storable example_payment" "assert_invariants example_payment"
  by (simp_all add: storable_def assert_invariants_def example_payment_def example_oip_def
      example_hash_def hash_valid_def timestamp_valid_def i64_max_def)

lemma example_encrypts:
  "\<exists>db b1. encrypt_call example_crypto (mock_api (nc_txid example_crypto) example_rng example_token) p b = (Inr db, b1)"
  by (simp add: encrypt_call_def mock_api_def payment_encrypt_def aes_encrypt_append example_crypto_def plain_lib_def)

lemma example_run_data:
  "mgr_ok (mock_view example_crypto) (mock_ok example_crypto) example_node_run"
  "mdata example_node_run = commit example_payment (mdata empty_node)"
proof -
  obtain db b1 where "encrypt_call example_crypto (mock_api (nc_txid example_crypto) example_rng example_token)
      example_payment (world empty_node) = (Inr db, b1)"
    using example_encrypts by blast
  moreover have "\<not> contains_payment_id (mdata empty_node) (payment_id example_payment)"
    by (simp add: contains_payment_id_def empty_node_def)
  ultimately obtain m where "new_payment example_ps example_payment empty_node = (Inr (), m)"
    "mdata m = commit example_payment (mdata empty_node)"
    "mgr_ok (mock_view example_crypto) (mock_ok example_crypto) m"
    using example_node.new_payment_succeeds [OF empty_node_ok example_payment_ok] by (metis example_token_def)
  then show "mgr_ok (mock_view example_crypto) (mock_ok example_crypto) example_node_run"
    "mdata example_node_run = commit example_payment (mdata empty_node)"
    by (simp_all add: example_node_run_def)
qed

lemma example_run_step:
  "(node_step (node_ps example_crypto example_rng example_token) ext)\<^sup>*\<^sup>* empty_node example_node_run"
proof -
  obtain r where "new_payment (node_ps example_crypto example_rng example_token) example_payment empty_node
      = (r, example_node_run)"
    unfolding example_node_run_def by (metis surjective_pairing)
  then show ?thesis
    using node_step.handler [OF mgr_step.new_payment [OF example_payment_ok]] by blast
qed

definition example_failed_run :: "mock_backend manager" where
  "example_failed_run = snd (payment_failed example_ps (TimestampMs 9) example_hash NoRoute example_node_run)"

definition example_failed :: Payment where
  "example_failed = OutboundInvoice (example_oip\<lparr>oip_status := OutboundInvoicePaymentStatus.Failed,
     oip_failure := Some NoRoute, oip_finalized_at := Some (TimestampMs 9)\<rparr>)"

lemma example_pending:
  "pending (mdata example_node_run) (Lightning example_hash) = Some example_payment"
  "Lightning example_hash \<notin> finalized (mdata example_node_run)"
  by (simp_all add: example_run_data(2) commit_def empty_node_def example_payment_def example_oip_def)

lemma example_check_failed:
  "check_payment_failed (TimestampMs 9) (mdata example_node_run) example_hash NoRoute = Inr example_failed"
  by (simp add: check_payment_failed_def id_from_hash_def example_pending)
    (simp add: example_payment_def example_failed_def oip_check_payment_failed_def example_oip_def)

lemma example_failed_step:
  "(node_step example_ps ext)\<^sup>*\<^sup>* example_node_run example_failed_run"
proof -
  obtain r where "payment_failed example_ps (TimestampMs 9) example_hash NoRoute example_node_run
      = (r, example_failed_run)"
    unfolding example_failed_run_def by (metis surjective_pairing)
  then show ?thesis
    using node_step.handler [OF mgr_step.failed] by blast
qed

lemma example_failed_final: "Lightning example_hash \<in> finalized (mdata example_failed_run)"
proof -
  have "\<exists>p. pending (mdata example_node_run) (Lightning example_hash) = Some p \<and>
      payment_step (\<lambda>x. x) p example_failed"
    using check_payment_failed_step [OF example_check_failed] .
  from step_admissible [OF example_run_data(1) this]
  have "admissible (\<lambda>x. x) (mock_view example_crypto (world example_node_run)) example_failed" .
  moreover obtain db b1 where "encrypt_call example_crypto (mock_api (nc_txid example_crypto) example_rng example_token)
      example_failed (world example_node_run) = (Inr db, b1)"
    using example_encrypts by blast
  ultimately obtain m where "persist_commit (persist_payment example_ps example_failed) example_node_run = (Inr (), m)"
    "mdata m = commit example_failed (mdata example_node_run)"
    using example_node.persist_commit_succeeds [OF example_run_data(1)] by (metis example_token_def)
  then have "mdata example_failed_run = commit example_failed (mdata example_node_run)"
    by (simp add: example_failed_run_def payment_failed_def example_check_failed)
  then show ?thesis
    by (simp add: commit_def example_failed_def example_oip_def Let_def)
qed

section \<open>Properties of the node's payments\<close>

text \<open>C1: Crash consistency.  After any sequence of handler calls and restarts, starting from an empty node,
  whatever calls to the backend fail for lack of a token, the payments data in memory is exactly the
  data that a restart at this moment reads back from the encrypted database: nothing that was
  reported as done is lost, and nothing that failed is half-recorded.\<close>

theorem node_restart_recovers:
  assumes "node_store nc rng" and "(node_step (node_ps nc rng token) ext)\<^sup>*\<^sup>* empty_node m"
    and "token (mb_draws (world m)) = Inr ()"
  shows "load_payments (node_ps nc rng token) (world m) = (Inr (mdata m), world m)"
  by (rule node_store.load_recovers [OF assms(1) node_store.run_ok [OF assms(1,2)]]) (rule assms(3))

theorem node_restart_recovers_witness:
  "load_payments (node_ps example_crypto example_rng example_token) (world example_node_run) =
     (Inr (mdata example_node_run), world example_node_run)"
  by (rule node_restart_recovers [OF example_node_store example_run_step]) (simp add: example_token_def)

text \<open>C5: In every reachable state of the node the pending map is keyed by the payments' own ids and holds
  only payments whose general status is pending and which have no finalization time; the ids of
  finalized payments are never pending; and the assertion \<^verbatim>\<open>assert_invariants\<close> holds for everything that
  was committed.\<close>

theorem payments_data_invariant:
  assumes "node_store nc rng" and "(node_step (node_ps nc rng token) ext)\<^sup>*\<^sup>* empty_node m"
  shows "(\<forall>i p. pending (mdata m) i = Some p \<longrightarrow>
      payment_id p = i \<and> payment_status p = PaymentStatus.Pending \<and> payment_finalized_at p = None \<and>
      i \<notin> finalized (mdata m)) \<and>
    (\<forall>i p. mock_view nc (world m) i = Some p \<longrightarrow> assert_invariants p)"
proof -
  have "stored_ok (mock_view nc (world m))" "view_sync (mdata m) (mock_view nc (world m))"
    using node_store.run_ok [OF assms] by (auto simp: mgr_ok_def)
  then show ?thesis
    unfolding stored_ok_def view_sync_def is_pending_payment_def assert_invariants_def
    by (metis finalized_iff_simps(1) option.inject)
qed

theorem payments_data_invariant_witness:
  "pending (mdata example_node_run) (Lightning example_hash) = Some example_payment \<and>
   payment_finalized_at example_payment = None \<and>
   Lightning example_hash \<notin> finalized (mdata example_node_run)"
  using payments_data_invariant [OF example_node_store example_run_step] example_pending(1) by blast

text \<open>C6: Once a payment is finalized it stays finalized through every later handler call and restart: it
  never becomes pending again, and its stored record changes at most in the user's note, so a
  completed payment never turns into a failed one or the other way round.\<close>

theorem finalized_forever:
  assumes "node_store nc rng" and "(node_step (node_ps nc rng token) ext)\<^sup>*\<^sup>* empty_node m"
    and "(node_step (node_ps nc rng token) ext)\<^sup>*\<^sup>* m m'" and "i \<in> finalized (mdata m)"
  shows "i \<in> finalized (mdata m') \<and> pending (mdata m') i = None \<and>
    (\<exists>p n. mock_view nc (world m) i = Some p \<and> mock_view nc (world m') i = Some (set_note n p))"
  by (rule node_store.final_forever [OF assms])

theorem finalized_forever_witness:
  "Lightning example_hash \<in> finalized (mdata example_failed_run) \<and>
   pending (mdata example_failed_run) (Lightning example_hash) = None \<and>
   (\<exists>p n. mock_view example_crypto (world example_failed_run) (Lightning example_hash) = Some p \<and>
     mock_view example_crypto (world example_failed_run) (Lightning example_hash) = Some (set_note n p))"
  by (rule finalized_forever [OF example_node_store
        rtranclp_trans [OF example_run_step [where ext = example_externs] example_failed_step]
        rtranclp.rtrancl_refl example_failed_final])

text \<open>C7: A registered payment is never forgotten, and between any two moments its stored record moves only
  by transitions that the payment type's own \<^verbatim>\<open>check\<close> methods accept, or by a change of note; its
  index never changes.\<close>

theorem payments_follow_lifecycle:
  assumes "node_store nc rng" and "(node_step (node_ps nc rng token) ext)\<^sup>*\<^sup>* empty_node m"
    and "(node_step (node_ps nc rng token) ext)\<^sup>*\<^sup>* m m'" and "mock_view nc (world m) i = Some p"
  shows "\<exists>q. mock_view nc (world m') i = Some q \<and> (evolves (ext_sha256 ext))\<^sup>*\<^sup>* p q \<and>
    payment_index q = payment_index p \<and> contains_payment_id (mdata m') i"
proof -
  obtain q where q: "mock_view nc (world m') i = Some q" "(evolves (ext_sha256 ext))\<^sup>*\<^sup>* p q"
    using node_store.run_grows(2) [OF assms(1-3)] assms(4) unfolding grows_def by blast
  moreover have "payment_index q = payment_index p"
    using q(2) by (induction rule: rtranclp_induct) (auto simp: payment_index_eq_iff dest: evolves_index)
  moreover have "contains_payment_id (mdata m') i"
    using node_store.run_grows(1) [OF assms(1-3)] q(1)
    by (auto simp: mgr_ok_def view_sync_def contains_payment_id_def)
  ultimately show ?thesis by blast
qed

theorem payments_follow_lifecycle_witness:
  "\<exists>p q. mock_view example_crypto (world example_node_run) (Lightning example_hash) = Some p \<and>
     mock_view example_crypto (world example_failed_run) (Lightning example_hash) = Some q \<and>
     (evolves (ext_sha256 example_externs))\<^sup>*\<^sup>* p q \<and>
     payment_index q = payment_index p \<and> contains_payment_id (mdata example_failed_run) (Lightning example_hash)"
proof -
  have "mock_view example_crypto (world example_node_run) (Lightning example_hash) = Some example_payment"
    using example_run_data(1) example_pending(1) sync_pending by (auto simp: mgr_ok_def)
  with payments_follow_lifecycle [OF example_node_store example_run_step [where ext = example_externs]
      example_failed_step this]
  show ?thesis by blast
qed

end
