(* ===== verification/Manager_Handlers.thy ===== *)
theory Manager_Handlers
  imports Node_Payments
begin

text \<open>
  What each handler of the payments manager does, for an arbitrary persister: the calls into the
  channel manager, the committed state and the errors.
\<close>

section \<open>Claiming\<close>


section \<open>Events for finalized payments\<close>

text \<open>C18: For a payment that is already finalized every Lightning event is refused before the persister
  is called: a second \<^verbatim>\<open>PaymentClaimable\<close> for the same hash fails the HTLC for good and claims nothing,
  and \<^verbatim>\<open>PaymentClaimed\<close>, \<^verbatim>\<open>PaymentSent\<close> and \<^verbatim>\<open>PaymentFailed\<close> change nothing at all.\<close>

theorem finalized_rejects_events:
  assumes "Lightning hash \<in> finalized (mdata m)" and "from_msat (ext_decimal ext) amt = Some amount"
    and "fees_from_msat (ext_decimal ext) fees = Some f" and "purpose_try_from purpose = Inr lx"
  shows "payment_claimable ps ext clock now hash amt purpose m =
      (Inl DuplicateOrFinalized, emit (FailHtlcBackwards hash IncorrectOrUnknownPaymentDetails) m) \<and>
    payment_claimed ps ext now hash amt purpose m = (Inl WasFinalized, m) \<and>
    payment_sent ps ext now hash pre fees m = (Inl WasFinalized, m) \<and>
    payment_failed ps now hash failure m = (Inl WasFinalized, m)"
  using assms
  by (simp add: payment_claimable_def payment_claimed_def payment_sent_def payment_failed_def
      check_payment_claimable_def check_payment_claimed_def check_payment_sent_def
      check_payment_failed_def id_from_hash_def Let_def)

lemma example_amount: "\<exists>a. from_msat (ext_decimal example_externs) n = Some a"
  using from_msat_ok [OF exact_ops_lawful] by (auto simp: example_externs_def)

theorem finalized_rejects_events_witness:
  "\<forall>clock. payment_claimable example_ps example_externs clock (TimestampMs 9) example_hash 5
      (SpontaneousPayment [1]) example_failed_run =
      (Inl DuplicateOrFinalized,
       emit (FailHtlcBackwards example_hash IncorrectOrUnknownPaymentDetails) example_failed_run) \<and>
    payment_claimed example_ps example_externs (TimestampMs 9) example_hash 5 (SpontaneousPayment [1])
      example_failed_run = (Inl WasFinalized, example_failed_run)"
proof -
  obtain a where a: "from_msat (ext_decimal example_externs) 5 = Some a" using example_amount by blast
  show ?thesis
    using finalized_rejects_events [OF example_failed_final a, where fees = None and purpose = "SpontaneousPayment [1]"]
    by (simp add: fees_from_msat_def)
qed

section \<open>Outbound payments\<close>

text \<open>C17: \<^verbatim>\<open>PaymentSent\<close> succeeds only for a pending outbound invoice payment with this hash and a preimage
  that really hashes to it; the payment is then committed as completed with the preimage as proof of
  payment, the fees LDK reported (or the estimate when it reported none), and is no longer pending.\<close>

theorem payment_sent_outcome:
  assumes "payment_sent ps ext now hash pre fees m = (Inr (), m')"
    and same: "\<forall>q p w. persist_payment ps q (world m) = (Inr p, w) \<longrightarrow> p = q"
  shows "\<exists>oip f. pending (mdata m) (Lightning hash) = Some (OutboundInvoice oip) \<and>
    compute_hash (ext_sha256 ext) pre = hash \<and> fees_from_msat (ext_decimal ext) fees = Some f \<and>
    mdata m' = commit (OutboundInvoice (oip\<lparr>oip_preimage := Some pre,
        oip_fees := (case f of Some x \<Rightarrow> x | None \<Rightarrow> oip_fees oip),
        oip_status := OutboundInvoicePaymentStatus.Completed, oip_finalized_at := Some now\<rparr>)) (mdata m) \<and>
    Lightning hash \<in> finalized (mdata m') \<and> pending (mdata m') (Lightning hash) = None"
proof -
  obtain f where f: "fees_from_msat (ext_decimal ext) fees = Some f"
    using assms(1) by (cases "fees_from_msat (ext_decimal ext) fees") (simp_all add: payment_sent_def)
  obtain q where q: "check_payment_sent ext now (mdata m) hash pre f = Inr q"
    using assms(1) f by (cases "check_payment_sent ext now (mdata m) hash pre f") (simp_all add: payment_sent_def)
  obtain r m1 where call: "persist_commit (persist_payment ps q) m = (r, m1)" by force
  from payment_sent_checked [OF f q call] assms(1)
  have r: "r = Inr ()" and m': "m' = emit (SendTestEvent PaymentSent) m1" by (simp_all split: if_splits)
  from call r obtain p w where w: "persist_payment ps q (world m) = (Inr p, w)"
    and m1: "m1 = m\<lparr>world := w, mdata := commit p (mdata m)\<rparr>"
    by (auto simp: persist_commit_def split: prod.splits sum.splits)
  from m1 same [rule_format, OF w] have "mdata m1 = commit q (mdata m)" by simp
  with m' have d: "mdata m' = commit q (mdata m)" by simp
  from q obtain oip oip' where oip: "pending (mdata m) (Lightning hash) = Some (OutboundInvoice oip)"
    and q': "q = OutboundInvoice oip'" and sent: "oip_check_payment_sent (ext_sha256 ext) now hash pre f oip = Inr oip'"
    by (rule check_payment_sent_inv)
  note facts = sent [unfolded oip_sent_ok]
  then have "commit q (mdata m) = (mdata m)\<lparr>pending := (pending (mdata m))(Lightning hash := None),
      finalized := insert (Lightning hash) (finalized (mdata m))\<rparr>"
    using q' by (subst commit_final) (auto simp: is_pending_payment_def)
  with facts oip f d q' show ?thesis by auto
qed

lemma node_persist_same:
  "persist_payment (node_persister nc api) q w = (Inr p, w') \<Longrightarrow> p = q"
  by (auto simp: node_persister_def node_persist_payment_def call_then_def call_pure_def
      split: prod.splits sum.splits)

definition example_preimage :: LxPaymentPreimage where
  "example_preimage = LxPaymentPreimage (replicate 32 1)"

lemma example_sent:
  "\<exists>m. payment_sent example_ps example_externs (TimestampMs 9) example_hash example_preimage None example_node_run =
     (Inr (), m)"
proof -
  define q where "q = OutboundInvoice (example_oip\<lparr>oip_preimage := Some example_preimage,
      oip_status := OutboundInvoicePaymentStatus.Completed, oip_finalized_at := Some (TimestampMs 9)\<rparr>)"
  have q: "check_payment_sent example_externs (TimestampMs 9) (mdata example_node_run) example_hash
      example_preimage None = Inr q"
    by (simp add: check_payment_sent_def id_from_hash_def example_pending)
      (simp add: example_payment_def q_def oip_check_payment_sent_def example_oip_def example_externs_def
        example_hash_def example_preimage_def compute_hash_def)
  from check_payment_sent_step [OF q]
  have "admissible (\<lambda>x. x) (mock_view example_crypto (world example_node_run)) q"
    using step_admissible [OF example_run_data(1)] by (simp add: example_externs_def)
  moreover obtain db b1 where "encrypt_call example_crypto (mock_api (nc_txid example_crypto) example_rng example_token)
      q (world example_node_run) = (Inr db, b1)"
    using example_encrypts by blast
  ultimately obtain m where "persist_commit (persist_payment example_ps q) example_node_run = (Inr (), m)"
    using example_node.persist_commit_succeeds [OF example_run_data(1)] by (metis example_token_def)
  then show ?thesis by (simp add: payment_sent_def fees_from_msat_def q)
qed

theorem payment_sent_outcome_witness:
  "\<exists>m'. payment_sent example_ps example_externs (TimestampMs 9) example_hash example_preimage None example_node_run
      = (Inr (), m') \<and>
    Lightning example_hash \<in> finalized (mdata m') \<and> pending (mdata m') (Lightning example_hash) = None"
proof -
  obtain m' where m': "payment_sent example_ps example_externs (TimestampMs 9) example_hash example_preimage
      None example_node_run = (Inr (), m')"
    using example_sent by blast
  have same: "\<forall>q p w. persist_payment example_ps q (world example_node_run) = (Inr p, w) \<longrightarrow> p = q"
    by (intro allI impI) (rule node_persist_same)
  from payment_sent_outcome [OF m' same] m' show ?thesis by auto
qed

end
