(* ===== verification/Roaring.thy ===== *)
theory Roaring
  imports Lexe_Prelude
begin

text \<open>
  \<^verbatim>\<open>RoaringBitmap\<close> (from the \<^verbatim>\<open>roaring\<close> crate), which the app uses as index: a set of \<^verbatim>\<open>u32\<close> with the
  operations below as a parameter.  The locale \<open>roaring_bitmap\<close> states its documented behaviour over the
  ascending list of members that \<^verbatim>\<open>iter\<close> returns; \<open>list_roaring\<close> is an implementation by lists.
\<close>

record 'b roaring =
  rb_new :: 'b
  rb_insert :: "u32 \<Rightarrow> 'b \<Rightarrow> bool \<times> 'b"
  rb_remove :: "u32 \<Rightarrow> 'b \<Rightarrow> bool \<times> 'b"
  rb_is_empty :: "'b \<Rightarrow> bool"
  rb_len :: "'b \<Rightarrow> nat"
  rb_iter :: "'b \<Rightarrow> u32 list"
  rb_select :: "u32 \<Rightarrow> 'b \<Rightarrow> u32 option"
  rb_rank :: "u32 \<Rightarrow> 'b \<Rightarrow> nat"
  rb_from_sorted_iter :: "u32 list \<Rightarrow> 'b option"

locale roaring_bitmap =
  fixes rb :: "'b roaring"
  assumes iter_sorted: "sorted_wrt (<) (rb_iter rb b)"
    and iter_new: "rb_iter rb (rb_new rb) = []"
    and insert_result: "fst (rb_insert rb x b) \<longleftrightarrow> x \<notin> set (rb_iter rb b)"
    and insert_set: "set (rb_iter rb (snd (rb_insert rb x b))) = insert x (set (rb_iter rb b))"
    and remove_result: "fst (rb_remove rb x b) \<longleftrightarrow> x \<in> set (rb_iter rb b)"
    and remove_set: "set (rb_iter rb (snd (rb_remove rb x b))) = set (rb_iter rb b) - {x}"
    and is_empty: "rb_is_empty rb b \<longleftrightarrow> rb_iter rb b = []"
    and len: "rb_len rb b = length (rb_iter rb b)"
    and select: "rb_select rb k b =
      (if unat k < length (rb_iter rb b) then Some (rb_iter rb b ! unat k) else None)"
    and rank: "rb_rank rb k b = length (filter (\<lambda>x. x \<le> k) (rb_iter rb b))"
    and from_sorted: "sorted_wrt (<) xs \<Longrightarrow> \<exists>b. rb_from_sorted_iter rb xs = Some b \<and> rb_iter rb b = xs"
begin

abbreviation members :: "'b \<Rightarrow> u32 set" where
  "members b \<equiv> set (rb_iter rb b)"

text \<open>The list of members is determined by their set.\<close>

lemma iter_unique: "members b = set xs \<Longrightarrow> sorted_wrt (<) xs \<Longrightarrow> rb_iter rb b = xs"
  using iter_sorted [of b]
  by (metis sorted_distinct_set_unique strict_sorted_iff)

end

section \<open>Lists as bitmaps\<close>

definition list_roaring :: "u32 list roaring" where
  "list_roaring =
     \<lparr>rb_new = [],
      rb_insert = (\<lambda>x b. (x \<notin> set b, x # b)),
      rb_remove = (\<lambda>x b. (x \<in> set b, removeAll x b)),
      rb_is_empty = (\<lambda>b. b = []),
      rb_len = (\<lambda>b. card (set b)),
      rb_iter = (\<lambda>b. sorted_list_of_set (set b)),
      rb_select = (\<lambda>k b. let l = sorted_list_of_set (set b) in if unat k < length l then Some (l ! unat k) else None),
      rb_rank = (\<lambda>k b. length (filter (\<lambda>x. x \<le> k) (sorted_list_of_set (set b)))),
      rb_from_sorted_iter = (\<lambda>xs. if sorted_wrt (<) xs then Some xs else None)\<rparr>"

lemma list_roaring_lawful: "roaring_bitmap list_roaring"
  by unfold_locales
    (auto simp: list_roaring_def Let_def strict_sorted_list_of_set set_insort_key
      intro: sorted_list_of_set.idem_if_sorted_distinct simp: strict_sorted_iff)

interpretation sorted_bitmap: roaring_bitmap list_roaring
  by (rule list_roaring_lawful)

end
