(* ===== verification/Ffs.thy ===== *)
theory Ffs
  imports Lexe_Prelude
begin

text \<open>
  \<^verbatim>\<open>app-rs/src/ffs.rs\<close>: flat file systems.  The trait \<^verbatim>\<open>Ffs\<close> is the record \<open>ffs\<close>; the locale \<open>flat_files\<close> is
  what its users rely on, over a view of the file contents by name.  A failed write may leave the
  written file in any state, but no other.  \<open>flat_file_fs\<close> models \<^verbatim>\<open>FlatFileFs\<close> over the directory as the
  operating system keeps it: the entries in the order in which they are listed (entries that are no
  files or have a name that is not UTF-8 are skipped by \<^verbatim>\<open>read_dir_visitor\<close> and left out here), and what
  will happen to the coming writes.
\<close>

datatype IoError = NotFound | WriteFailed | DeleteFailed

record 'f ffs =
  ffs_read :: "string \<Rightarrow> 'f \<Rightarrow> IoError + bytes"
  ffs_read_dir :: "'f \<Rightarrow> string list"
  ffs_write :: "string \<Rightarrow> bytes \<Rightarrow> 'f \<Rightarrow> (IoError + unit) \<times> 'f"
  ffs_delete_all :: "'f \<Rightarrow> (IoError + unit) \<times> 'f"
  ffs_delete :: "string \<Rightarrow> 'f \<Rightarrow> (IoError + unit) \<times> 'f"

locale flat_files =
  fixes fs :: "'f ffs" and files :: "'f \<Rightarrow> string \<rightharpoonup> bytes" and fok :: "'f \<Rightarrow> bool"
  assumes read: "fok f \<Longrightarrow>
      ffs_read fs n f = (case files f n of Some d \<Rightarrow> Inr d | None \<Rightarrow> Inl NotFound)"
    and read_dir: "fok f \<Longrightarrow> set (ffs_read_dir fs f) = dom (files f) \<and> distinct (ffs_read_dir fs f)"
    and write_ok: "fok f \<Longrightarrow> ffs_write fs n d f = (Inr u, f') \<Longrightarrow> fok f' \<and> files f' = (files f)(n \<mapsto> d)"
    and write_err: "fok f \<Longrightarrow> ffs_write fs n d f = (Inl e, f') \<Longrightarrow>
      fok f' \<and> (\<forall>m. m \<noteq> n \<longrightarrow> files f' m = files f m)"
    and delete_all_ok: "fok f \<Longrightarrow> ffs_delete_all fs f = (Inr u, f') \<Longrightarrow> fok f' \<and> files f' = (\<lambda>_. None)"
    and delete_ok: "fok f \<Longrightarrow> ffs_delete fs n f = (Inr u, f') \<Longrightarrow> fok f' \<and> files f' = (files f)(n := None)"

section \<open>FlatFileFs\<close>

text \<open>
  The fate of a write: it succeeds, or it fails with the file untouched or left with some content.
\<close>

datatype fate = Succeeds | FailsUntouched | FailsWith bytes

record flat_dir =
  fd_entries :: "(string \<times> bytes) list"
  fd_fates :: "fate list"

fun put_file :: "string \<Rightarrow> bytes \<Rightarrow> (string \<times> bytes) list \<Rightarrow> (string \<times> bytes) list" where
  "put_file n d [] = [(n, d)]"
| "put_file n d ((m, c) # es) = (if m = n then (m, d) # es else (m, c) # put_file n d es)"

definition next_fate :: "flat_dir \<Rightarrow> fate \<times> fate list" where
  "next_fate f = (case fd_fates f of [] \<Rightarrow> (Succeeds, []) | x # xs \<Rightarrow> (x, xs))"

definition ff_read :: "string \<Rightarrow> flat_dir \<Rightarrow> IoError + bytes" where
  "ff_read n f = ok_or NotFound (map_of (fd_entries f) n)"

definition ff_write :: "string \<Rightarrow> bytes \<Rightarrow> flat_dir \<Rightarrow> (IoError + unit) \<times> flat_dir" where
  "ff_write n d f =
     (case next_fate f of
        (Succeeds, rest) \<Rightarrow> (Inr (), f\<lparr>fd_entries := put_file n d (fd_entries f), fd_fates := rest\<rparr>)
      | (FailsUntouched, rest) \<Rightarrow> (Inl WriteFailed, f\<lparr>fd_fates := rest\<rparr>)
      | (FailsWith c, rest) \<Rightarrow>
          (Inl WriteFailed, f\<lparr>fd_entries := put_file n c (fd_entries f), fd_fates := rest\<rparr>))"

text \<open>\<^verbatim>\<open>remove_dir_all\<close> then \<^verbatim>\<open>create_dir\<close>; when it fails, some of the entries may be gone.\<close>

definition ff_delete_all :: "flat_dir \<Rightarrow> (IoError + unit) \<times> flat_dir" where
  "ff_delete_all f =
     (case next_fate f of
        (Succeeds, rest) \<Rightarrow> (Inr (), \<lparr>fd_entries = [], fd_fates = rest\<rparr>)
      | (FailsUntouched, rest) \<Rightarrow> (Inl DeleteFailed, f\<lparr>fd_fates := rest\<rparr>)
      | (FailsWith c, rest) \<Rightarrow>
          (Inl DeleteFailed, \<lparr>fd_entries = drop (length c) (fd_entries f), fd_fates = rest\<rparr>))"

definition ff_delete :: "string \<Rightarrow> flat_dir \<Rightarrow> (IoError + unit) \<times> flat_dir" where
  "ff_delete n f =
     (if n \<notin> fst ` set (fd_entries f) then (Inl NotFound, f)
      else case next_fate f of
        (Succeeds, rest) \<Rightarrow>
          (Inr (), \<lparr>fd_entries = filter (\<lambda>(m, _). m \<noteq> n) (fd_entries f), fd_fates = rest\<rparr>)
      | (_, rest) \<Rightarrow> (Inl DeleteFailed, f\<lparr>fd_fates := rest\<rparr>))"

definition flat_file_fs :: "flat_dir ffs" where
  "flat_file_fs =
     \<lparr>ffs_read = ff_read, ffs_read_dir = (\<lambda>f. map fst (fd_entries f)), ffs_write = ff_write,
      ffs_delete_all = ff_delete_all, ffs_delete = ff_delete\<rparr>"

definition fd_ok :: "flat_dir \<Rightarrow> bool" where
  "fd_ok f \<longleftrightarrow> distinct (map fst (fd_entries f))"

lemma put_file_set: "fst ` set (put_file n d es) = insert n (fst ` set es)"
  by (induction es rule: put_file.induct) auto

lemma put_file_distinct: "distinct (map fst es) \<Longrightarrow> distinct (map fst (put_file n d es))"
  by (induction es rule: put_file.induct) (auto simp: put_file_set)

lemma map_of_put_file: "map_of (put_file n d es) = (map_of es)(n \<mapsto> d)"
  by (induction es rule: put_file.induct) auto

lemma map_of_filter_name: "map_of (filter (\<lambda>(m, _). m \<noteq> n) es) = (map_of es)(n := None)"
  by (induction es) auto

interpretation flat_dir: flat_files flat_file_fs "\<lambda>f. map_of (fd_entries f)" fd_ok
proof
  fix f n assume "fd_ok f"
  show "ffs_read flat_file_fs n f = (case map_of (fd_entries f) n of Some d \<Rightarrow> Inr d | None \<Rightarrow> Inl NotFound)"
    by (simp add: flat_file_fs_def ff_read_def ok_or_def)
next
  fix f assume "fd_ok f"
  then show "set (ffs_read_dir flat_file_fs f) = dom (map_of (fd_entries f)) \<and> distinct (ffs_read_dir flat_file_fs f)"
    by (simp add: flat_file_fs_def fd_ok_def dom_map_of_conv_image_fst)
next
  fix f f' n d u assume "fd_ok f" "ffs_write flat_file_fs n d f = (Inr u, f')"
  then show "fd_ok f' \<and> map_of (fd_entries f') = (map_of (fd_entries f))(n \<mapsto> d)"
    by (auto simp: flat_file_fs_def ff_write_def fd_ok_def put_file_distinct map_of_put_file
        split: prod.splits fate.splits if_splits)
next
  fix f f' n d e assume "fd_ok f" "ffs_write flat_file_fs n d f = (Inl e, f')"
  then show "fd_ok f' \<and> (\<forall>m. m \<noteq> n \<longrightarrow> map_of (fd_entries f') m = map_of (fd_entries f) m)"
    by (auto simp: flat_file_fs_def ff_write_def fd_ok_def put_file_distinct map_of_put_file
        split: prod.splits fate.splits if_splits)
next
  fix f f' u assume "fd_ok f" "ffs_delete_all flat_file_fs f = (Inr u, f')"
  then show "fd_ok f' \<and> map_of (fd_entries f') = (\<lambda>_. None)"
    by (auto simp: flat_file_fs_def ff_delete_all_def fd_ok_def split: prod.splits fate.splits)
next
  fix f f' n u assume "fd_ok f" "ffs_delete flat_file_fs n f = (Inr u, f')"
  then show "fd_ok f' \<and> map_of (fd_entries f') = (map_of (fd_entries f))(n := None)"
    by (auto simp: flat_file_fs_def ff_delete_def fd_ok_def map_of_filter_name distinct_map_filter
        split: prod.splits fate.splits if_splits)
qed

end
