(* ===== verification/App_Payments.thy ===== *)
theory App_Payments
  imports Basic_Payment BTree_Map Roaring Ffs
begin

text \<open>
  \<^verbatim>\<open>app-rs/src/payments.rs\<close>: the app's local copy of the node's payments, kept as one file per payment and,
  in memory, as a vector in ascending index order with three bitmap indexes.  Methods that take
  \<^verbatim>\<open>&mut self\<close> return the database they leave behind, on failure too; \<open>Panics\<close> stands for a failed
  \<^verbatim>\<open>assert!\<close>, \<^verbatim>\<open>expect\<close> or slice access.  The model is of a release build, where
  \<^verbatim>\<open>debug_assert_invariants\<close> returns at once; \<open>state_inv\<close> is what it checks.
\<close>

section \<open>Strict total orders\<close>

text \<open>\<^verbatim>\<open>common/src/iter.rs\<close>.\<close>

fun strict_from :: "('k \<Rightarrow> 'k \<Rightarrow> ordering) \<Rightarrow> 'k \<Rightarrow> 'k list \<Rightarrow> bool" where
  "strict_from c prev [] = True"
| "strict_from c prev (nxt # rest) =
     (case c prev nxt of Greater \<Rightarrow> False | Equal \<Rightarrow> False | Less \<Rightarrow> strict_from c nxt rest)"

fun is_strict_total_order :: "('k \<Rightarrow> 'k \<Rightarrow> ordering) \<Rightarrow> 'k list \<Rightarrow> bool" where
  "is_strict_total_order c [] = True"
| "is_strict_total_order c (x # xs) = strict_from c x xs"

definition is_strict_total_order_by_key ::
    "('k \<Rightarrow> 'k \<Rightarrow> ordering) \<Rightarrow> ('a \<Rightarrow> 'k) \<Rightarrow> 'a list \<Rightarrow> bool" where
  "is_strict_total_order_by_key c f xs = is_strict_total_order c (map f xs)"

section \<open>State\<close>

text \<open>\<^verbatim>\<open>serde_json\<close> for \<^verbatim>\<open>BasicPayment\<close>.\<close>

record basic_json =
  bj_to_vec :: "BasicPayment \<Rightarrow> bytes"
  bj_from_slice :: "bytes \<Rightarrow> BasicPayment option"

record ('b, 'f) app_lib =
  al_invoice :: invoice_lib
  al_txid :: txid_lib
  al_json :: basic_json
  al_bitmap :: "'b roaring"
  al_ffs :: "'f ffs"

record 'b PaymentDbState =
  payments :: "BasicPayment list"
  st_pending :: 'b
  pending_not_junk :: 'b
  finalized_not_junk :: 'b

record ('b, 'f) PaymentDb =
  db_ffs :: 'f
  db_state :: "'b PaymentDbState"

datatype AppDbError =
    NotSortedOrUnique | OlderThanDb | AlreadyInPending | AlreadyInPendingNotJunk
  | AlreadyInFinalizedNotJunk | Io IoError | BadPaymentFile | WrongPaymentFile
  | NonExistentPayment | Panics

section \<open>PaymentDbState\<close>

definition state_empty :: "('b, 'f) app_lib \<Rightarrow> 'b PaymentDbState" where
  "state_empty lib =
     \<lparr>payments = [], st_pending = rb_new (al_bitmap lib), pending_not_junk = rb_new (al_bitmap lib),
      finalized_not_junk = rb_new (al_bitmap lib)\<rparr>"

text \<open>The enumerated payments that satisfy the filter; \<open>None\<close> is a panic of \<^verbatim>\<open>expect\<close>.\<close>

definition build_index :: "'b roaring \<Rightarrow> BasicPayment list \<Rightarrow> (BasicPayment \<Rightarrow> bool) \<Rightarrow> 'b option" where
  "build_index rb ps P =
     rb_from_sorted_iter rb (map (\<lambda>(i, _). of_nat i) (filter (\<lambda>(_, p). P p) (enumerate 0 ps)))"

definition build_pending_index where
  "build_pending_index lib ps = build_index (al_bitmap lib) ps is_pending"

definition build_pending_not_junk_index where
  "build_pending_not_junk_index lib ps = build_index (al_bitmap lib) ps (is_pending_not_junk (al_invoice lib))"

definition build_finalized_not_junk_index where
  "build_finalized_not_junk_index lib ps = build_index (al_bitmap lib) ps (is_finalized_not_junk (al_invoice lib))"

text \<open>
  \<^verbatim>\<open>sort_unstable_by\<close> and \<^verbatim>\<open>dedup_by\<close> of the standard library.  Which of several payments with equal index
  survives is not specified there; here it is the first.
\<close>

fun insert_by_index :: "BasicPayment \<Rightarrow> BasicPayment list \<Rightarrow> BasicPayment list" where
  "insert_by_index p [] = [p]"
| "insert_by_index p (q # qs) =
     (if index_cmp (bp_index p) (bp_index q) = Greater then q # insert_by_index p qs else p # q # qs)"

definition sort_by_index :: "BasicPayment list \<Rightarrow> BasicPayment list" where
  "sort_by_index ps = foldr insert_by_index ps []"

fun dedup_by_index :: "BasicPayment list \<Rightarrow> BasicPayment list" where
  "dedup_by_index (p # q # qs) =
     (if bp_index q = bp_index p then dedup_by_index (p # qs) else p # dedup_by_index (q # qs))"
| "dedup_by_index ps = ps"

definition from_unsorted_vec :: "('b, 'f) app_lib \<Rightarrow> BasicPayment list \<Rightarrow> AppDbError + 'b PaymentDbState" where
  "from_unsorted_vec lib unsorted =
     (let ps = dedup_by_index (sort_by_index unsorted)
      in case (build_pending_index lib ps, build_pending_not_junk_index lib ps,
               build_finalized_not_junk_index lib ps) of
           (Some a, Some b, Some c) \<Rightarrow>
             Inr \<lparr>payments = ps, st_pending = a, pending_not_junk = b, finalized_not_junk = c\<rparr>
         | _ \<Rightarrow> Inl Panics)"

fun read_visit :: "('b, 'f) app_lib \<Rightarrow> 'f \<Rightarrow> string list \<Rightarrow> AppDbError + BasicPayment list" where
  "read_visit lib f [] = Inr []"
| "read_visit lib f (filename # names) =
     (case index_from_str (al_txid lib) filename of
        Inl _ \<Rightarrow> read_visit lib f names
      | Inr payment_index \<Rightarrow>
          and_then (map_err Io (ffs_read (al_ffs lib) filename f)) (\<lambda>buf.
          and_then (ok_or BadPaymentFile (bj_from_slice (al_json lib) buf)) (\<lambda>payment.
          ensure (payment_index = bp_index payment) WrongPaymentFile (
          map_ok (\<lambda>ps. payment # ps) (read_visit lib f names)))))"

definition state_read :: "('b, 'f) app_lib \<Rightarrow> 'f \<Rightarrow> AppDbError + 'b PaymentDbState" where
  "state_read lib f =
     and_then (read_visit lib f (ffs_read_dir (al_ffs lib) f)) (from_unsorted_vec lib)"

definition num_payments :: "'b PaymentDbState \<Rightarrow> nat" where
  "num_payments st = length (payments st)"

definition num_pending :: "('b, 'f) app_lib \<Rightarrow> 'b PaymentDbState \<Rightarrow> nat" where
  "num_pending lib st = rb_len (al_bitmap lib) (st_pending st)"

definition num_finalized :: "('b, 'f) app_lib \<Rightarrow> 'b PaymentDbState \<Rightarrow> nat" where
  "num_finalized lib st = num_payments st - num_pending lib st"

definition num_pending_not_junk :: "('b, 'f) app_lib \<Rightarrow> 'b PaymentDbState \<Rightarrow> nat" where
  "num_pending_not_junk lib st = rb_len (al_bitmap lib) (pending_not_junk st)"

definition num_finalized_not_junk :: "('b, 'f) app_lib \<Rightarrow> 'b PaymentDbState \<Rightarrow> nat" where
  "num_finalized_not_junk lib st = rb_len (al_bitmap lib) (finalized_not_junk st)"

definition latest_payment_index :: "'b PaymentDbState \<Rightarrow> PaymentIndex option" where
  "latest_payment_index st = (if payments st = [] then None else Some (bp_index (last (payments st))))"

definition vec_get :: "'a list \<Rightarrow> nat \<Rightarrow> 'a option" where
  "vec_get xs i = (if i < length xs then Some (xs ! i) else None)"

text \<open>\<open>None\<close> is an out-of-bounds panic.\<close>

definition pending_ids :: "('b, 'f) app_lib \<Rightarrow> 'b PaymentDbState \<Rightarrow> LxPaymentId list option" where
  "pending_ids lib st =
     those (map (\<lambda>vec_idx. map_option (\<lambda>p. index_id (bp_index p)) (vec_get (payments st) (unat vec_idx)))
       (rb_iter (al_bitmap lib) (st_pending st)))"

text \<open>The loop of \<^verbatim>\<open>slice::binary_search_by\<close>, between \<open>left\<close> and \<open>right\<close>.\<close>

function binary_search :: "('k \<Rightarrow> ordering) \<Rightarrow> 'k list \<Rightarrow> nat \<Rightarrow> nat \<Rightarrow> nat option" where
  "binary_search c xs left right =
     (if left < right then
        (let mid = left + (right - left) div 2
         in case c (xs ! mid) of
              Equal \<Rightarrow> Some mid
            | Less \<Rightarrow> binary_search c xs (mid + 1) right
            | Greater \<Rightarrow> binary_search c xs left mid)
      else None)"
  by auto
termination by (relation "measure (\<lambda>(_, _, left, right). right - left)") auto

declare binary_search.simps [simp del]

definition get_vec_idx_by_payment_index :: "'b PaymentDbState \<Rightarrow> PaymentIndex \<Rightarrow> nat option" where
  "get_vec_idx_by_payment_index st payment_index =
     binary_search (\<lambda>k. index_cmp k payment_index) (map bp_index (payments st)) 0 (length (payments st))"

section \<open>Scrolling\<close>

text \<open>All of these return the vector index and the payment; the outer \<open>None\<close> is a panic.\<close>

definition get_payment_by_scroll_idx ::
    "'b PaymentDbState \<Rightarrow> nat \<Rightarrow> (nat \<times> BasicPayment) option" where
  "get_payment_by_scroll_idx st scroll_idx =
     (let n = num_payments st
      in if scroll_idx \<ge> n then None
         else let vec_idx = n - scroll_idx - 1 in Some (vec_idx, payments st ! vec_idx))"

definition select_scroll_idx ::
    "'b roaring \<Rightarrow> 'b \<Rightarrow> BasicPayment list \<Rightarrow> nat \<Rightarrow> (nat \<times> BasicPayment) option option" where
  "select_scroll_idx rb index ps scroll_idx =
     (let n = rb_len rb index
      in if scroll_idx \<ge> n then Some None
         else
           (let rank = n - scroll_idx - 1
            in Option.bind (rb_select rb (of_nat rank) index) (\<lambda>vec_idx.
               map_option (\<lambda>p. Some (unat vec_idx, p)) (vec_get ps (unat vec_idx)))))"

definition get_pending_payment_by_scroll_idx where
  "get_pending_payment_by_scroll_idx lib st = select_scroll_idx (al_bitmap lib) (st_pending st) (payments st)"

definition get_pending_not_junk_payment_by_scroll_idx where
  "get_pending_not_junk_payment_by_scroll_idx lib st =
     select_scroll_idx (al_bitmap lib) (pending_not_junk st) (payments st)"

definition get_finalized_not_junk_payment_by_scroll_idx where
  "get_finalized_not_junk_payment_by_scroll_idx lib st =
     select_scroll_idx (al_bitmap lib) (finalized_not_junk st) (payments st)"

definition get_finalized_payment_by_scroll_idx ::
    "('b, 'f) app_lib \<Rightarrow> 'b PaymentDbState \<Rightarrow> nat \<Rightarrow> (nat \<times> BasicPayment) option option" where
  "get_finalized_payment_by_scroll_idx lib st scroll_idx =
     (if scroll_idx \<ge> num_finalized lib st then Some None
      else
        (let rev_idx = num_payments st - scroll_idx - 1;
             num_pending_at_or_above = rb_rank (al_bitmap lib) (of_nat rev_idx) (st_pending st);
             num_pending_below = num_pending lib st - num_pending_at_or_above
         in map_option Some (vec_get
              (filter (\<lambda>(_, p). is_finalized p) (drop scroll_idx (rev (enumerate 0 (payments st)))))
              num_pending_below)))"

section \<open>PaymentDb\<close>

definition db_empty :: "('b, 'f) app_lib \<Rightarrow> 'f \<Rightarrow> ('b, 'f) PaymentDb" where
  "db_empty lib f = \<lparr>db_ffs = f, db_state = state_empty lib\<rparr>"

definition db_read :: "('b, 'f) app_lib \<Rightarrow> 'f \<Rightarrow> AppDbError + ('b, 'f) PaymentDb" where
  "db_read lib f = map_ok (\<lambda>st. \<lparr>db_ffs = f, db_state = st\<rparr>) (state_read lib f)"

definition db_delete :: "('b, 'f) app_lib \<Rightarrow> ('b, 'f) PaymentDb \<Rightarrow> (AppDbError + unit) \<times> ('b, 'f) PaymentDb" where
  "db_delete lib db =
     (case ffs_delete_all (al_ffs lib) (db_ffs db) of
        (r, f) \<Rightarrow> (map_err Io r, \<lparr>db_ffs = f, db_state = state_empty lib\<rparr>))"

definition write_payment :: "('b, 'f) app_lib \<Rightarrow> BasicPayment \<Rightarrow> 'f \<Rightarrow> (IoError + unit) \<times> 'f" where
  "write_payment lib p =
     ffs_write (al_ffs lib) (index_display (al_txid lib) (bp_index p)) (bj_to_vec (al_json lib) p)"

text \<open>Insert into an index if wanted; the flag says that the element was not there before.\<close>

definition index_add :: "'b roaring \<Rightarrow> bool \<Rightarrow> u32 \<Rightarrow> 'b \<Rightarrow> bool \<times> 'b" where
  "index_add rb wanted vec_idx b = (if wanted then rb_insert rb vec_idx b else (True, b))"

definition index_del :: "'b roaring \<Rightarrow> bool \<Rightarrow> u32 \<Rightarrow> 'b \<Rightarrow> bool \<times> 'b" where
  "index_del rb wanted vec_idx b = (if wanted then rb_remove rb vec_idx b else (True, b))"

text \<open>The loop over the new payments, which adds \<^verbatim>\<open>u32\<close> indexes from \<open>vec_idx\<close> on.\<close>

fun insert_loop ::
    "('b, 'f) app_lib \<Rightarrow> u32 \<Rightarrow> BasicPayment list \<Rightarrow> ('b, 'f) PaymentDb \<Rightarrow>
     (AppDbError + unit) \<times> ('b, 'f) PaymentDb" where
  "insert_loop lib vec_idx [] db = (Inr (), db)"
| "insert_loop lib vec_idx (p # ps) db =
     (let rb = al_bitmap lib; st = db_state db;
          (new1, b1) = index_add rb (is_pending p) vec_idx (st_pending st);
          st1 = st\<lparr>st_pending := b1\<rparr>
      in if \<not> new1 then (Inl AlreadyInPending, db\<lparr>db_state := st1\<rparr>)
         else
      (let (new2, b2) = index_add rb (is_pending_not_junk (al_invoice lib) p) vec_idx (pending_not_junk st);
           st2 = st1\<lparr>pending_not_junk := b2\<rparr>
       in if \<not> new2 then (Inl AlreadyInPendingNotJunk, db\<lparr>db_state := st2\<rparr>)
          else
      (let (new3, b3) = index_add rb (is_finalized_not_junk (al_invoice lib) p) vec_idx (finalized_not_junk st);
           st3 = st2\<lparr>finalized_not_junk := b3\<rparr>
       in if \<not> new3 then (Inl AlreadyInFinalizedNotJunk, db\<lparr>db_state := st3\<rparr>)
          else
      (case write_payment lib p (db_ffs db) of
         (Inl e, f) \<Rightarrow> (Inl (Io e), \<lparr>db_ffs = f, db_state = st3\<rparr>)
       | (Inr _, f) \<Rightarrow> insert_loop lib (vec_idx + 1) ps \<lparr>db_ffs = f, db_state = st3\<rparr>))))"

definition option_less :: "('k \<Rightarrow> 'k \<Rightarrow> ordering) \<Rightarrow> 'k option \<Rightarrow> 'k \<Rightarrow> bool" where
  "option_less c a b = (case a of None \<Rightarrow> True | Some x \<Rightarrow> c x b = Less)"

definition insert_new_payments ::
    "('b, 'f) app_lib \<Rightarrow> BasicPayment list \<Rightarrow> ('b, 'f) PaymentDb \<Rightarrow> (AppDbError + unit) \<times> ('b, 'f) PaymentDb" where
  "insert_new_payments lib new_payments db =
     (case new_payments of
        [] \<Rightarrow> (Inr (), db)
      | oldest_new_payment # _ \<Rightarrow>
          if \<not> is_strict_total_order_by_key index_cmp bp_index new_payments then (Inl NotSortedOrUnique, db)
          else if \<not> option_less index_cmp (latest_payment_index (db_state db)) (bp_index oldest_new_payment)
          then (Inl OlderThanDb, db)
          else
            (case insert_loop lib (of_nat (num_payments (db_state db))) new_payments db of
               (Inl e, db') \<Rightarrow> (Inl e, db')
             | (Inr _, db') \<Rightarrow>
                 (Inr (), db'\<lparr>db_state := (db_state db')\<lparr>payments := payments (db_state db') @ new_payments\<rparr>\<rparr>)))"

definition update_pending_payment ::
    "('b, 'f) app_lib \<Rightarrow> BasicPayment \<Rightarrow> ('b, 'f) PaymentDb \<Rightarrow> (AppDbError + nat) \<times> ('b, 'f) PaymentDb" where
  "update_pending_payment lib updated db =
     (let rb = al_bitmap lib; inv = al_invoice lib; st = db_state db
      in case get_vec_idx_by_payment_index st (bp_index updated) of
           None \<Rightarrow> (Inl Panics, db)
         | Some vec_idx \<Rightarrow>
           (let existing = payments st ! vec_idx
            in if updated = existing then (Inr 0, db)
               else
               (case write_payment lib updated (db_ffs db) of
                  (Inl e, f) \<Rightarrow> (Inl (Io e), db\<lparr>db_ffs := f\<rparr>)
                | (Inr _, f) \<Rightarrow>
                  (let (was_in1, b1) = index_del rb (is_pending existing \<and> \<not> is_pending updated)
                         (of_nat vec_idx) (st_pending st);
                       st1 = st\<lparr>st_pending := b1\<rparr>
                   in if \<not> was_in1 then (Inl Panics, \<lparr>db_ffs = f, db_state = st1\<rparr>)
                      else
                  (let (was_in2, b2) = index_del rb (is_pending_not_junk inv existing \<and> \<not> is_pending_not_junk inv updated)
                         (of_nat vec_idx) (pending_not_junk st);
                       st2 = st1\<lparr>pending_not_junk := b2\<rparr>
                   in if \<not> was_in2 then (Inl Panics, \<lparr>db_ffs = f, db_state = st2\<rparr>)
                      else
                  (let (was_not_in, b3) = index_add rb (\<not> is_finalized_not_junk inv existing \<and> is_finalized_not_junk inv updated)
                         (of_nat vec_idx) (finalized_not_junk st);
                       st3 = st2\<lparr>finalized_not_junk := b3\<rparr>
                   in if \<not> was_not_in then (Inl Panics, \<lparr>db_ffs = f, db_state = st3\<rparr>)
                      else (Inr 1, \<lparr>db_ffs = f, db_state = st3\<lparr>payments := (payments st)[vec_idx := updated]\<rparr>\<rparr>)))))))"

fun update_pending_payments ::
    "('b, 'f) app_lib \<Rightarrow> BasicPayment list \<Rightarrow> ('b, 'f) PaymentDb \<Rightarrow> (AppDbError + nat) \<times> ('b, 'f) PaymentDb" where
  "update_pending_payments lib [] db = (Inr 0, db)"
| "update_pending_payments lib (p # ps) db =
     (case update_pending_payment lib p db of
        (Inl e, db') \<Rightarrow> (Inl e, db')
      | (Inr n, db') \<Rightarrow>
          (case update_pending_payments lib ps db' of (r, db'') \<Rightarrow> (map_ok (\<lambda>m. n + m) r, db'')))"

text \<open>The note is set in memory before it is written.\<close>

definition app_update_payment_note ::
    "('b, 'f) app_lib \<Rightarrow> PaymentIndex \<Rightarrow> string option \<Rightarrow> ('b, 'f) PaymentDb \<Rightarrow>
     (AppDbError + unit) \<times> ('b, 'f) PaymentDb" where
  "app_update_payment_note lib index note db =
     (let st = db_state db
      in case get_vec_idx_by_payment_index st index of
           None \<Rightarrow> (Inl NonExistentPayment, db)
         | Some vec_idx \<Rightarrow>
           (let payment = (payments st ! vec_idx)\<lparr>bp_note := note\<rparr>;
                st' = st\<lparr>payments := (payments st)[vec_idx := payment]\<rparr>
            in case write_payment lib payment (db_ffs db) of
                 (r, f) \<Rightarrow> (map_err Io r, \<lparr>db_ffs = f, db_state = st'\<rparr>)))"

end
