(* ===== verification/App_Db.thy ===== *)
theory App_Db
  imports App_Payments
begin

text \<open>
  The app's payment database: the invariants that \<^verbatim>\<open>debug_assert_invariants\<close> checks, their preservation,
  agreement with the files, and what the scroll accessors return.
\<close>

section \<open>Sorted vectors and binary search\<close>

context total_cmp
begin

lemma strict_from_iff: "strict_from c x xs \<longleftrightarrow> sorted_wrt (\<lambda>a b. c a b = Less) (x # xs)"
proof (induction xs arbitrary: x)
  case (Cons y ys)
  have "c x y = Less \<and> sorted_wrt (\<lambda>a b. c a b = Less) (y # ys) \<longleftrightarrow>
      sorted_wrt (\<lambda>a b. c a b = Less) (x # y # ys)"
    by (auto intro: cmp_trans)
  then show ?case using Cons.IH [of y] by (auto split: ordering.split)
qed simp

lemma is_strict_iff: "is_strict_total_order c xs \<longleftrightarrow> sorted_wrt (\<lambda>a b. c a b = Less) xs"
  by (cases xs) (simp_all only: is_strict_total_order.simps strict_from_iff sorted_wrt.simps)

lemma less_irrefl: "c x x \<noteq> Less"
  using cmp_eq [of x x] by auto

lemma sorted_nth_less:
  "sorted_wrt (\<lambda>a b. c a b = Less) xs \<Longrightarrow> i < j \<Longrightarrow> j < length xs \<Longrightarrow> c (xs ! i) (xs ! j) = Less"
  by (simp add: sorted_wrt_iff_nth_less)

lemma sorted_distinct: "sorted_wrt (\<lambda>a b. c a b = Less) xs \<Longrightarrow> distinct xs"
  by (induction xs) (auto simp: less_irrefl)

lemma binary_search_correct:
  assumes "sorted_wrt (\<lambda>a b. c a b = Less) xs" and "right \<le> length xs"
  shows "binary_search (\<lambda>k. c k key) xs left right = Some i \<longleftrightarrow> left \<le> i \<and> i < right \<and> xs ! i = key"
  using assms
proof (induction "\<lambda>k. c k key" xs left right rule: binary_search.induct)
  case (1 xs left right)
  show ?case
  proof (cases "left < right")
    case True
    define mid where "mid = left + (right - left) div 2"
    have mid: "left \<le> mid" "mid < right" using True by (auto simp: mid_def)
    have inj: "xs ! j = xs ! k \<longleftrightarrow> j = k" if "j < right" "k < right" for j k
      by (rule nth_eq_iff_index_eq [OF sorted_distinct [OF 1(3)]]) (use that 1(4) in linarith)+
    note simps = binary_search.simps [of _ xs left right] mid_def [symmetric]
    show ?thesis
    proof (cases "c (xs ! mid) key")
      case Less
      have "xs ! j \<noteq> key" if "j \<le> mid" for j
        using sorted_nth_less [OF 1(3), of j mid] that mid 1(4) Less
        by (metis cmp_trans less_irrefl le_neq_implies_less less_le_trans)
      then show ?thesis
        using 1(1) [OF True mid_def Less 1(3,4)] 1(4) mid Less True by (auto simp: simps Suc_le_eq) (metis leI)
    next
      case Equal
      then have "xs ! mid = key" by (simp add: cmp_eq)
      then show ?thesis using Equal True mid inj by (auto simp: simps)
    next
      case Greater
      then have less: "c key (xs ! mid) = Less" by (simp add: cmp_flip)
      have "xs ! j \<noteq> key" if "mid \<le> j" "j < right" for j
        using sorted_nth_less [OF 1(3), of mid j] that 1(4) less
        by (metis cmp_trans less_irrefl le_neq_implies_less less_le_trans)
      then show ?thesis
        using 1(2) [OF True mid_def Greater 1(3)] 1(4) mid Greater True by (auto simp: simps not_le) (metis leI)
    qed
  next
    case False
    then show ?thesis by (simp add: binary_search.simps [of _ xs left right])
  qed
qed

end

section \<open>Invariants\<close>

definition sorted_payments :: "BasicPayment list \<Rightarrow> bool" where
  "sorted_payments ps \<longleftrightarrow> is_strict_total_order_by_key index_cmp bp_index ps"

lemma sorted_payments_wrt:
  "sorted_payments ps \<longleftrightarrow> sorted_wrt (\<lambda>a b. index_cmp a b = Less) (map bp_index ps)"
  by (simp add: sorted_payments_def is_strict_total_order_by_key_def payment_index.is_strict_iff)

text \<open>A bitmap that holds exactly the positions of the payments with some property.\<close>

definition positions :: "(BasicPayment \<Rightarrow> bool) \<Rightarrow> BasicPayment list \<Rightarrow> u32 set" where
  "positions P ps = of_nat ` {i. i < length ps \<and> P (ps ! i)}"

definition indexes_ok :: "('b, 'f) app_lib \<Rightarrow> 'b PaymentDbState \<Rightarrow> BasicPayment list \<Rightarrow> bool" where
  "indexes_ok lib st ps \<longleftrightarrow>
     set (rb_iter (al_bitmap lib) (st_pending st)) = positions is_pending ps \<and>
     set (rb_iter (al_bitmap lib) (pending_not_junk st)) = positions (is_pending_not_junk (al_invoice lib)) ps \<and>
     set (rb_iter (al_bitmap lib) (finalized_not_junk st)) = positions (is_finalized_not_junk (al_invoice lib)) ps"

definition state_inv :: "('b, 'f) app_lib \<Rightarrow> 'b PaymentDbState \<Rightarrow> bool" where
  "state_inv lib st \<longleftrightarrow>
     sorted_payments (payments st) \<and> length (payments st) \<le> 2 ^ 32 \<and> indexes_ok lib st (payments st)"

text \<open>
  The files hold exactly the payments, each under its index; files whose name is not a payment index
  may lie around.
\<close>

definition disk_inv :: "('b, 'f) app_lib \<Rightarrow> (string \<rightharpoonup> bytes) \<Rightarrow> BasicPayment list \<Rightarrow> bool" where
  "disk_inv lib fs ps \<longleftrightarrow>
     (\<forall>p \<in> set ps. index_valid (bp_index p) \<and>
       fs (index_display (al_txid lib) (bp_index p)) = Some (bj_to_vec (al_json lib) p)) \<and>
     (\<forall>n \<in> dom fs. is_ok (index_from_str (al_txid lib) n) \<longrightarrow>
       n \<in> (\<lambda>p. index_display (al_txid lib) (bp_index p)) ` set ps)"

lemma find_by_index:
  assumes "sorted_payments (payments st)"
  shows "get_vec_idx_by_payment_index st idx = Some i \<longleftrightarrow>
    i < length (payments st) \<and> bp_index (payments st ! i) = idx"
  using payment_index.binary_search_correct [OF assms [unfolded sorted_payments_wrt], of "length (payments st)" idx 0 i]
  by (auto simp: get_vec_idx_by_payment_index_def)

lemma sorted_payments_inj:
  assumes "sorted_payments ps" "i < length ps" "j < length ps" "bp_index (ps ! i) = bp_index (ps ! j)"
  shows "i = j"
  using payment_index.sorted_distinct [OF assms(1) [unfolded sorted_payments_wrt]] assms(2-)
  by (auto simp: distinct_conv_nth)

lemma sorted_payments_update:
  assumes "sorted_payments ps" "i < length ps" "bp_index p = bp_index (ps ! i)"
  shows "sorted_payments (ps[i := p])"
  using assms by (simp add: sorted_payments_wrt map_update) (metis list_update_id length_map nth_map)

lemma sorted_payments_append:
  "sorted_payments (xs @ ys) \<longleftrightarrow>
     sorted_payments xs \<and> sorted_payments ys \<and>
     (\<forall>x \<in> set xs. \<forall>y \<in> set ys. index_cmp (bp_index x) (bp_index y) = Less)"
  by (auto simp: sorted_payments_wrt sorted_wrt_append)

lemma sorted_payments_last:
  assumes "sorted_payments xs" "x \<in> set xs"
  shows "x = last xs \<or> index_cmp (bp_index x) (bp_index (last xs)) = Less"
proof -
  have "sorted_payments (butlast xs @ [last xs])" "x \<in> set (butlast xs) \<or> x = last xs"
    using assms by (cases xs rule: rev_cases; auto)+
  then show ?thesis by (auto simp: sorted_payments_append)
qed

text \<open>New payments are newer than all old ones as soon as the oldest of them is newer than the last.\<close>

lemma sorted_payments_extend:
  assumes "sorted_payments xs" and "sorted_payments (y # ys)"
    and "xs = [] \<or> index_cmp (bp_index (last xs)) (bp_index y) = Less"
  shows "sorted_payments (xs @ y # ys)"
proof -
  have "index_cmp (bp_index x) (bp_index y) = Less" if "x \<in> set xs" for x
    using sorted_payments_last [OF assms(1) that] assms(3) that by (auto intro: payment_index.cmp_trans)
  moreover have "z = y \<or> index_cmp (bp_index y) (bp_index z) = Less" if "z \<in> set (y # ys)" for z
    using assms(2) that by (auto simp: sorted_payments_wrt)
  ultimately have "index_cmp (bp_index x) (bp_index z) = Less" if "x \<in> set xs" "z \<in> set (y # ys)" for x z
    using that by (metis payment_index.cmp_trans)
  with assms(1,2) show ?thesis by (simp add: sorted_payments_append)
qed

lemma of_nat_u32_eq: "i < 2 ^ 32 \<Longrightarrow> j < 2 ^ 32 \<Longrightarrow> (of_nat i :: u32) = of_nat j \<longleftrightarrow> i = j"
  by (simp add: of_nat_inverse word_of_nat_eq_iff take_bit_nat_eq_self)

lemma positions_append: "positions P (xs @ [y]) = positions P xs \<union> (if P y then {of_nat (length xs)} else {})"
  by (auto simp: positions_def nth_append less_Suc_eq)

lemma positions_mem: "i < length ps \<Longrightarrow> length ps \<le> 2 ^ 32 \<Longrightarrow> of_nat i \<in> positions P ps \<longleftrightarrow> P (ps ! i)"
  by (auto simp: positions_def of_nat_u32_eq)

lemma positions_update:
  assumes "i < length ps" "length ps \<le> 2 ^ 32"
  shows "positions P (ps[i := p]) =
    (if P p then insert (of_nat i) (positions P ps) else positions P ps - {of_nat i})"
  using assms by (auto simp: positions_def nth_list_update of_nat_u32_eq image_iff split: if_splits)

text \<open>The positions in ascending order.\<close>

definition hits :: "(BasicPayment \<Rightarrow> bool) \<Rightarrow> BasicPayment list \<Rightarrow> nat list" where
  "hits P ps = map fst (filter (\<lambda>(_, p). P p) (enumerate 0 ps))"

lemma set_hits: "set (hits P ps) = {i. i < length ps \<and> P (ps ! i)}"
  by (force simp: hits_def enumerate_eq_zip set_zip)

lemma length_hits: "length (filter (\<lambda>(_, p). P p) (enumerate n ps)) = length (hits P ps)"
  by (induction ps arbitrary: n) (simp_all add: hits_def enumerate_Suc_eq filter_map comp_def split_def)

lemma hit_entry:
  assumes "k < length (hits P ps)"
  shows "filter (\<lambda>(_, p). P p) (enumerate 0 ps) ! k = (hits P ps ! k, ps ! (hits P ps ! k))"
proof -
  let ?es = "filter (\<lambda>(_, p). P p) (enumerate 0 ps)"
  have "?es ! k \<in> set (enumerate 0 ps)" using assms nth_mem [of k ?es] by (auto simp: hits_def)
  then have "snd (?es ! k) = ps ! fst (?es ! k)" by (auto simp: enumerate_eq_zip set_zip)
  with assms show ?thesis by (simp add: hits_def prod_eq_iff)
qed

lemma positions_hits: "positions P ps = of_nat ` set (hits P ps)"
  by (simp add: positions_def set_hits)

lemma hits_ascending: "sorted_wrt (<) (hits P ps)"
proof -
  have "sorted_wrt (<) (map fst (enumerate 0 ps))" by simp
  then have "sorted_wrt (\<lambda>a b. fst a < fst b) (enumerate 0 ps)" by (simp only: sorted_wrt_map)
  then show ?thesis unfolding hits_def sorted_wrt_map by (rule sorted_wrt_filter)
qed

lemma hits_sorted:
  assumes "length ps \<le> 2 ^ 32"
  shows "sorted_wrt (<) (map (of_nat :: nat \<Rightarrow> u32) (hits P ps))"
  unfolding sorted_wrt_map
proof (rule sorted_wrt_mono_rel [OF _ hits_ascending])
  fix i j assume "i \<in> set (hits P ps)" "j \<in> set (hits P ps)" "i < j"
  then have "i < 2 ^ 32" "j < 2 ^ 32" using assms by (auto simp: set_hits intro: less_le_trans)
  then have "unat (of_nat i :: u32) = i" "unat (of_nat j :: u32) = j" by (simp_all add: unat_of_nat)
  with \<open>i < j\<close> show "(of_nat i :: u32) < of_nat j" by (simp only: word_less_nat_alt)
qed

text \<open>
  Skipping \<open>k\<close> elements and then as many wanted ones as there were unwanted ones among the skipped, one
  arrives at the \<open>k\<close>th wanted element.
\<close>

lemma skip_then_nth:
  assumes "k < length (filter Q l)"
  shows "vec_get (filter Q (drop k l)) (length (filter (\<lambda>x. \<not> Q x) (take k l))) = vec_get (filter Q l) k"
proof -
  have "k \<le> length l" using assms length_filter_le [of Q l] by linarith
  then have sum: "length (filter Q (take k l)) + length (filter (\<lambda>x. \<not> Q x) (take k l)) = k"
    using sum_length_filter_compl [of Q "take k l"] by simp
  have split: "filter Q l = filter Q (take k l) @ filter Q (drop k l)"
    by (metis append_take_drop_id filter_append)
  have "k - length (filter Q (take k l)) = length (filter (\<lambda>x. \<not> Q x) (take k l))" using sum by linarith
  moreover have "length (filter Q l) = length (filter Q (take k l)) + length (filter Q (drop k l))"
    by (subst split) simp
  ultimately show ?thesis
    using assms sum by (simp add: vec_get_def split nth_append)
qed

lemma drop_enumerate_filter: "filter (\<lambda>(i, _). s + m \<le> i) (enumerate s ps) = drop m (enumerate s ps)"
proof (induction ps arbitrary: s m)
  case (Cons p ps)
  show ?case
  proof (cases m)
    case 0
    have "filter (\<lambda>(i, _). s \<le> i) (enumerate (Suc s) ps) = enumerate (Suc s) ps"
      by (rule filter_True) (auto simp: in_set_enumerate_eq)
    with 0 show ?thesis by simp
  next
    case (Suc k)
    with Cons.IH [of "Suc s" k] show ?thesis by simp
  qed
qed simp

lemma sorted_payments_unique:
  assumes "sorted_payments xs" "sorted_payments ys" "set xs = set ys"
  shows "xs = ys"
  using assms
proof (induction xs arbitrary: ys)
  case (Cons x xs)
  then obtain y ys' where ys: "ys = y # ys'" by (cases ys) auto
  have less: "index_cmp (bp_index x) (bp_index z) = Less" if "z \<in> set xs" for z
    using Cons.prems(1) that by (auto simp: sorted_payments_wrt)
  have less': "index_cmp (bp_index y) (bp_index z) = Less" if "z \<in> set ys'" for z
    using Cons.prems(2) that by (auto simp: ys sorted_payments_wrt)
  have mem: "y = x \<or> y \<in> set xs" "x = y \<or> x \<in> set ys'" using Cons.prems(3) by (auto simp: ys)
  have xy: "x = y"
  proof (rule ccontr)
    assume "x \<noteq> y"
    then have "index_cmp (bp_index x) (bp_index y) = Less" "index_cmp (bp_index y) (bp_index x) = Less"
      using less less' mem by auto
    then show False using payment_index.cmp_trans payment_index.less_irrefl by blast
  qed
  have "x \<notin> set xs" "x \<notin> set ys'"
    using less less' xy payment_index.less_irrefl by blast+
  with Cons.prems(3) have "set xs = set ys'" by (auto simp: ys xy)
  with Cons.IH [of ys'] Cons.prems(1,2) show ?case
    by (simp add: ys xy sorted_payments_wrt)
qed simp

lemma set_insert_by_index [simp]: "set (insert_by_index p qs) = insert p (set qs)"
  by (induction qs) auto

lemma sorted_insert_by_index:
  assumes "sorted_payments qs" and "\<forall>q \<in> set qs. bp_index q \<noteq> bp_index p"
  shows "sorted_payments (insert_by_index p qs)"
  using assms
proof (induction qs)
  case (Cons q qs)
  have tail: "sorted_payments qs" "\<forall>z \<in> set qs. index_cmp (bp_index q) (bp_index z) = Less"
    using Cons.prems(1) by (auto simp: sorted_payments_wrt)
  show ?case
  proof (cases "index_cmp (bp_index p) (bp_index q) = Greater")
    case True
    then have "index_cmp (bp_index q) (bp_index p) = Less" by (simp add: payment_index.cmp_flip)
    with Cons.IH [OF tail(1)] Cons.prems(2) tail True show ?thesis by (auto simp: sorted_payments_wrt)
  next
    case False
    then have "index_cmp (bp_index p) (bp_index q) = Less"
      using Cons.prems(2) payment_index.cmp_eq [of "bp_index p" "bp_index q"]
      by (cases "index_cmp (bp_index p) (bp_index q)") auto
    with tail False Cons.prems(1) show ?thesis
      by (auto simp: sorted_payments_wrt intro: payment_index.cmp_trans)
  qed
qed (simp add: sorted_payments_wrt)

lemma sort_by_index_set [simp]: "set (sort_by_index ps) = set ps"
  by (induction ps) (simp_all add: sort_by_index_def)

lemma sort_by_index_sorted: "distinct (map bp_index ps) \<Longrightarrow> sorted_payments (sort_by_index ps)"
proof (induction ps)
  case (Cons p ps)
  have "\<forall>q \<in> set (sort_by_index ps). bp_index q \<noteq> bp_index p"
    using Cons.prems by auto (metis image_eqI)
  with Cons sorted_insert_by_index [of "sort_by_index ps" p] show ?case by (simp add: sort_by_index_def)
qed (simp add: sort_by_index_def sorted_payments_wrt)

lemma dedup_sorted: "sorted_payments ps \<Longrightarrow> dedup_by_index ps = ps"
  by (induction ps rule: dedup_by_index.induct) (auto simp: sorted_payments_wrt payment_index.less_irrefl)

text \<open>Memory and disk of a database in order.\<close>

definition app_db_ok ::
    "('b, 'f) app_lib \<Rightarrow> ('f \<Rightarrow> string \<rightharpoonup> bytes) \<Rightarrow> ('f \<Rightarrow> bool) \<Rightarrow> ('b, 'f) PaymentDb \<Rightarrow> bool" where
  "app_db_ok lib files fok db \<longleftrightarrow> state_inv lib (db_state db) \<and> fok (db_ffs db) \<and>
     disk_inv lib (files (db_ffs db)) (payments (db_state db))"

section \<open>Preservation\<close>

locale app_db =
  fixes lib :: "('b, 'f) app_lib" and files :: "'f \<Rightarrow> string \<rightharpoonup> bytes" and fok :: "'f \<Rightarrow> bool"
  assumes bitmap: "roaring_bitmap (al_bitmap lib)"
    and disk: "flat_files (al_ffs lib) files fok"
    and json: "bj_from_slice (al_json lib) (bj_to_vec (al_json lib) p) = Some p"
    and txid: "bitcoin_txid (al_txid lib)"

sublocale app_db \<subseteq> bm: roaring_bitmap "al_bitmap lib"
  by (rule bitmap)

sublocale app_db \<subseteq> fs: flat_files "al_ffs lib" files fok
  by (rule disk)

sublocale app_db \<subseteq> txids: bitcoin_txid "al_txid lib"
  by (rule txid)

context app_db
begin

abbreviation fname :: "BasicPayment \<Rightarrow> string" where
  "fname p \<equiv> index_display (al_txid lib) (bp_index p)"

abbreviation db_ok :: "('b, 'f) PaymentDb \<Rightarrow> bool" where
  "db_ok \<equiv> app_db_ok lib files fok"

lemma fname_eq: "index_valid (bp_index p) \<Longrightarrow> index_valid (bp_index q) \<Longrightarrow> fname p = fname q \<longleftrightarrow> bp_index p = bp_index q"
  using txids.index_roundtrip by (metis sum.inject(2))

lemma fname_parses: "index_valid (bp_index p) \<Longrightarrow> index_from_str (al_txid lib) (fname p) = Inr (bp_index p)"
  by (rule txids.index_roundtrip)

lemma add_ok:
  assumes "x \<notin> bm.members b"
  obtains b' where "index_add (al_bitmap lib) w x b = (True, b')"
    and "bm.members b' = bm.members b \<union> (if w then {x} else {})"
  using assms bm.insert_result [of x b] bm.insert_set [of x b] that [of "snd (index_add (al_bitmap lib) w x b)"]
  by (auto simp: index_add_def prod_eq_iff split: if_splits)

lemma positions_fresh: "length ps < 2 ^ 32 \<Longrightarrow> of_nat (length ps) \<notin> positions P ps"
  by (auto simp: positions_def of_nat_u32_eq)

text \<open>One round of the insertion loop.\<close>

lemma insert_loop_step:
  assumes "indexes_ok lib (db_state db) qs" and "length qs < 2 ^ 32"
    and "write_payment lib p (db_ffs db) = (r, f)"
  shows "\<exists>st. insert_loop lib (of_nat (length qs)) (p # ps) db =
      (case r of Inl e \<Rightarrow> (Inl (Io e), \<lparr>db_ffs = f, db_state = st\<rparr>)
       | Inr _ \<Rightarrow> insert_loop lib (of_nat (length (qs @ [p]))) ps \<lparr>db_ffs = f, db_state = st\<rparr>) \<and>
    indexes_ok lib st (qs @ [p]) \<and> payments st = payments (db_state db)"
proof -
  note fresh = positions_fresh [OF assms(2)]
  have n: "of_nat (length qs) \<notin> bm.members (st_pending (db_state db))"
    "of_nat (length qs) \<notin> bm.members (pending_not_junk (db_state db))"
    "of_nat (length qs) \<notin> bm.members (finalized_not_junk (db_state db))"
    using assms(1) fresh by (simp_all add: indexes_ok_def)
  obtain b1 where b1: "index_add (al_bitmap lib) (is_pending p) (of_nat (length qs)) (st_pending (db_state db)) = (True, b1)"
    "bm.members b1 = bm.members (st_pending (db_state db)) \<union> (if is_pending p then {of_nat (length qs)} else {})"
    using add_ok [OF n(1)] by blast
  obtain b2 where b2: "index_add (al_bitmap lib) (is_pending_not_junk (al_invoice lib) p) (of_nat (length qs))
      (pending_not_junk (db_state db)) = (True, b2)"
    "bm.members b2 = bm.members (pending_not_junk (db_state db)) \<union>
      (if is_pending_not_junk (al_invoice lib) p then {of_nat (length qs)} else {})"
    using add_ok [OF n(2)] by blast
  obtain b3 where b3: "index_add (al_bitmap lib) (is_finalized_not_junk (al_invoice lib) p) (of_nat (length qs))
      (finalized_not_junk (db_state db)) = (True, b3)"
    "bm.members b3 = bm.members (finalized_not_junk (db_state db)) \<union>
      (if is_finalized_not_junk (al_invoice lib) p then {of_nat (length qs)} else {})"
    using add_ok [OF n(3)] by blast
  let ?st = "(db_state db)\<lparr>st_pending := b1, pending_not_junk := b2, finalized_not_junk := b3\<rparr>"
  have "indexes_ok lib ?st (qs @ [p])"
    using assms(1) b1(2) b2(2) b3(2) by (simp add: indexes_ok_def positions_append)
  moreover have "insert_loop lib (of_nat (length qs)) (p # ps) db =
      (case r of Inl e \<Rightarrow> (Inl (Io e), \<lparr>db_ffs = f, db_state = ?st\<rparr>)
       | Inr _ \<Rightarrow> insert_loop lib (of_nat (length (qs @ [p]))) ps \<lparr>db_ffs = f, db_state = ?st\<rparr>)"
    by (cases r) (simp_all add: Let_def b1(1) b2(1) b3(1) assms(3) add.commute)
  ultimately show ?thesis by (intro exI [of _ ?st]) simp
qed

lemma disk_inv_new:
  assumes "disk_inv lib fs qs" and "index_valid (bp_index p)" and "\<forall>q \<in> set qs. bp_index q \<noteq> bp_index p"
  shows "disk_inv lib (fs(fname p \<mapsto> bj_to_vec (al_json lib) p)) (qs @ [p])"
  using assms fname_eq [of _ p] unfolding disk_inv_def by auto

lemma disk_inv_update:
  assumes "disk_inv lib fs qs" and "i < length qs" and "sorted_payments qs" and "bp_index p = bp_index (qs ! i)"
  shows "disk_inv lib (fs(fname p \<mapsto> bj_to_vec (al_json lib) p)) (qs[i := p])"
proof -
  have old: "qs ! j \<in> set (qs[i := p])" "fname (qs ! j) \<noteq> fname p" if "j < length qs" "j \<noteq> i" for j
  proof -
    show "qs ! j \<in> set (qs[i := p])" using that by (metis length_list_update nth_list_update_neq nth_mem)
    have "index_valid (bp_index (qs ! j))" "index_valid (bp_index p)"
      using assms(1,2,4) that(1) by (auto simp: disk_inv_def)
    then show "fname (qs ! j) \<noteq> fname p"
      using sorted_payments_inj [OF assms(3) that(1) assms(2)] that(2) assms(4) by (auto simp: fname_eq)
  qed
  have new: "p \<in> set (qs[i := p])" using assms(2) by (simp add: set_update_memI)
  have valid: "index_valid (bp_index p)" using assms(1,2,4) by (simp add: disk_inv_def)
  have names: "fname q \<in> fname ` set (qs[i := p])" if "q \<in> set qs" for q
    using that old(1) new assms(4) by (metis image_eqI in_set_conv_nth)
  have files: "fs (fname q) = Some (bj_to_vec (al_json lib) q) \<and> index_valid (bp_index q) \<and> fname q \<noteq> fname p"
    if mem: "q \<in> set (qs[i := p])" and neq: "q \<noteq> p" for q
  proof -
    obtain j where "j < length qs" "qs[i := p] ! j = q" using mem by (auto simp: in_set_conv_nth)
    with neq assms(2) have "j < length qs" "j \<noteq> i" "q = qs ! j" by (auto simp: nth_list_update split: if_splits)
    with old(2) assms(1) show ?thesis by (auto simp: disk_inv_def)
  qed
  show ?thesis
    unfolding disk_inv_def
  proof (intro conjI ballI impI)
    fix q assume "q \<in> set (qs[i := p])"
    then show "index_valid (bp_index q)" using files valid by blast
    show "(fs(fname p \<mapsto> bj_to_vec (al_json lib) p)) (fname q) = Some (bj_to_vec (al_json lib) q)"
      using files [OF \<open>q \<in> set (qs[i := p])\<close>] by (cases "q = p") auto
  next
    fix n assume "n \<in> dom (fs(fname p \<mapsto> bj_to_vec (al_json lib) p))" "is_ok (index_from_str (al_txid lib) n)"
    then show "n \<in> fname ` set (qs[i := p])"
      using assms(1) names new unfolding disk_inv_def by (cases "n = fname p") auto
  qed
qed

lemma insert_loop_ok:
  assumes "insert_loop lib (of_nat (length qs)) ps db = (Inr u, db')"
    and "indexes_ok lib (db_state db) qs" and "length (qs @ ps) \<le> 2 ^ 32"
    and "fok (db_ffs db)" and "disk_inv lib (files (db_ffs db)) qs"
    and "sorted_payments (qs @ ps)" and "\<forall>p \<in> set ps. index_valid (bp_index p)"
  shows "indexes_ok lib (db_state db') (qs @ ps) \<and> payments (db_state db') = payments (db_state db) \<and>
    fok (db_ffs db') \<and> disk_inv lib (files (db_ffs db')) (qs @ ps)"
  using assms
proof (induction ps arbitrary: qs db)
  case (Cons p ps)
  obtain r f where w: "write_payment lib p (db_ffs db) = (r, f)" by force
  have len: "length qs < 2 ^ 32" using Cons.prems(3) by simp
  obtain st where st: "insert_loop lib (of_nat (length qs)) (p # ps) db =
      (case r of Inl e \<Rightarrow> (Inl (Io e), \<lparr>db_ffs = f, db_state = st\<rparr>)
       | Inr _ \<Rightarrow> insert_loop lib (of_nat (length (qs @ [p]))) ps \<lparr>db_ffs = f, db_state = st\<rparr>)"
    "indexes_ok lib st (qs @ [p])" "payments st = payments (db_state db)"
    using insert_loop_step [OF Cons.prems(2) len w] by blast
  with Cons.prems(1) obtain v where r: "r = Inr v"
    and loop: "insert_loop lib (of_nat (length (qs @ [p]))) ps \<lparr>db_ffs = f, db_state = st\<rparr> = (Inr u, db')"
    by (cases r) auto
  have f: "fok f" "files f = (files (db_ffs db))(fname p \<mapsto> bj_to_vec (al_json lib) p)"
    using fs.write_ok [OF Cons.prems(4)] w r unfolding write_payment_def by blast+
  have "bp_index q \<noteq> bp_index p" if "q \<in> set qs" for q
    using Cons.prems(6) that payment_index.less_irrefl by (auto simp: sorted_payments_append)
  then have "disk_inv lib (files f) (qs @ [p])"
    unfolding f(2) using disk_inv_new [OF Cons.prems(5)] Cons.prems(7) by simp
  then show ?case
    using Cons.IH [OF loop] st Cons.prems f(1) by simp
qed simp

lemma insert_loop_error:
  assumes "insert_loop lib (of_nat (length qs)) ps db = (Inl e, db')"
    and "indexes_ok lib (db_state db) qs" and "length (qs @ ps) \<le> 2 ^ 32"
  shows "\<exists>io. e = Io io"
  using assms
proof (induction ps arbitrary: qs db)
  case (Cons p ps)
  obtain r f where w: "write_payment lib p (db_ffs db) = (r, f)" by force
  have len: "length qs < 2 ^ 32" using Cons.prems(3) by simp
  obtain st where "insert_loop lib (of_nat (length qs)) (p # ps) db =
      (case r of Inl e \<Rightarrow> (Inl (Io e), \<lparr>db_ffs = f, db_state = st\<rparr>)
       | Inr _ \<Rightarrow> insert_loop lib (of_nat (length (qs @ [p]))) ps \<lparr>db_ffs = f, db_state = st\<rparr>)"
    "indexes_ok lib st (qs @ [p])"
    using insert_loop_step [OF Cons.prems(2) len w] by blast
  then show ?case
    using Cons.prems(1,3) Cons.IH [of "qs @ [p]" "\<lparr>db_ffs = f, db_state = st\<rparr>"] by (cases r) auto
qed simp

lemma insert_new_payments_ok:
  assumes ok: "db_ok db" and valid: "\<forall>p \<in> set ps. index_valid (bp_index p)"
    and len: "length (payments (db_state db)) + length ps \<le> 2 ^ 32"
    and ins: "insert_new_payments lib ps db = (Inr u, db')"
  shows "db_ok db' \<and> payments (db_state db') = payments (db_state db) @ ps"
proof (cases ps)
  case Nil
  then show ?thesis using ok ins by (simp add: insert_new_payments_def)
next
  case (Cons p rest)
  let ?qs = "payments (db_state db)"
  from ins Cons obtain db1 where
    strict: "sorted_payments (p # rest)" and newer: "option_less index_cmp (latest_payment_index (db_state db)) (bp_index p)"
    and loop: "insert_loop lib (of_nat (length ?qs)) ps db = (Inr (), db1)"
    and db': "db' = db1\<lparr>db_state := (db_state db1)\<lparr>payments := payments (db_state db1) @ ps\<rparr>\<rparr>"
    by (auto simp: insert_new_payments_def sorted_payments_def num_payments_def split: if_splits prod.splits sum.splits)
  have "?qs = [] \<or> index_cmp (bp_index (last ?qs)) (bp_index p) = Less"
    using newer by (auto simp: option_less_def latest_payment_index_def split: if_splits)
  with strict ok have sorted: "sorted_payments (?qs @ ps)"
    unfolding Cons by (intro sorted_payments_extend) (auto simp: app_db_ok_def state_inv_def)
  with insert_loop_ok [OF loop] ok len valid
  have "indexes_ok lib (db_state db1) (?qs @ ps) \<and> payments (db_state db1) = ?qs \<and> fok (db_ffs db1) \<and>
      disk_inv lib (files (db_ffs db1)) (?qs @ ps)"
    by (auto simp: app_db_ok_def state_inv_def)
  with sorted len show ?thesis by (simp add: db' app_db_ok_def state_inv_def indexes_ok_def)
qed

end

text \<open>
  The transitions that the index maintenance of \<^verbatim>\<open>update_pending_payment\<close> provides for: a payment may
  leave the pending indexes and enter the finalized one, not the other way round.
\<close>

definition handled_update :: "invoice_lib \<Rightarrow> BasicPayment \<Rightarrow> BasicPayment \<Rightarrow> bool" where
  "handled_update ilib old new \<longleftrightarrow>
     (is_pending new \<longrightarrow> is_pending old) \<and>
     (is_pending_not_junk ilib new \<longrightarrow> is_pending_not_junk ilib old) \<and>
     (is_finalized_not_junk ilib old \<longrightarrow> is_finalized_not_junk ilib new)"

context app_db
begin

lemma index_del_ok:
  assumes "bm.members b = positions P ps" "i < length ps" "length ps \<le> 2 ^ 32" "P new \<Longrightarrow> P (ps ! i)"
  obtains b' where "index_del (al_bitmap lib) (P (ps ! i) \<and> \<not> P new) (of_nat i) b = (True, b')"
    and "bm.members b' = positions P (ps[i := new])"
proof -
  have "of_nat i \<in> bm.members b \<longleftrightarrow> P (ps ! i)" using assms(1-3) by (simp add: positions_mem)
  then show thesis
    using assms bm.remove_result [of "of_nat i" b] bm.remove_set [of "of_nat i" b]
      that [of "snd (index_del (al_bitmap lib) (P (ps ! i) \<and> \<not> P new) (of_nat i) b)"]
    by (auto simp: index_del_def prod_eq_iff positions_update insert_absorb split: if_splits)
qed

lemma index_add_ok:
  assumes "bm.members b = positions P ps" "i < length ps" "length ps \<le> 2 ^ 32" "P (ps ! i) \<Longrightarrow> P new"
  obtains b' where "index_add (al_bitmap lib) (\<not> P (ps ! i) \<and> P new) (of_nat i) b = (True, b')"
    and "bm.members b' = positions P (ps[i := new])"
proof -
  have "of_nat i \<in> bm.members b \<longleftrightarrow> P (ps ! i)" using assms(1-3) by (simp add: positions_mem)
  then show thesis
    using assms bm.insert_result [of "of_nat i" b] bm.insert_set [of "of_nat i" b]
      that [of "snd (index_add (al_bitmap lib) (\<not> P (ps ! i) \<and> P new) (of_nat i) b)"]
    by (auto simp: index_add_def prod_eq_iff positions_update insert_absorb split: if_splits)
qed

text \<open>
  For an update that the index maintenance provides for, none of the assertions fires: the payment is
  replaced unless the write fails.
\<close>

lemma update_pending_payment_cases:
  assumes ok: "db_ok db" and i: "i < length (payments (db_state db))"
    and idx: "bp_index (payments (db_state db) ! i) = bp_index p"
    and handled: "handled_update (al_invoice lib) (payments (db_state db) ! i) p"
    and neq: "p \<noteq> payments (db_state db) ! i" and w: "write_payment lib p (db_ffs db) = (r, f)"
  obtains st where "update_pending_payment lib p db =
      (case r of Inl e \<Rightarrow> (Inl (Io e), db\<lparr>db_ffs := f\<rparr>) | Inr _ \<Rightarrow> (Inr 1, \<lparr>db_ffs = f, db_state = st\<rparr>))"
    and "payments st = (payments (db_state db))[i := p]" and "state_inv lib st"
proof -
  let ?st = "db_state db" and ?ps = "payments (db_state db)"
  have st: "sorted_payments ?ps" "length ?ps \<le> 2 ^ 32" "indexes_ok lib ?st ?ps"
    using ok by (auto simp: app_db_ok_def state_inv_def)
  have find: "get_vec_idx_by_payment_index ?st (bp_index p) = Some i"
    using i idx by (simp add: find_by_index [OF st(1)])
  obtain b1 where b1: "index_del (al_bitmap lib) (is_pending (?ps ! i) \<and> \<not> is_pending p) (of_nat i) (st_pending ?st) = (True, b1)"
    "bm.members b1 = positions is_pending (?ps[i := p])"
    using index_del_ok [of "st_pending ?st" is_pending ?ps i p] st(2,3) i handled
    by (auto simp: indexes_ok_def handled_update_def)
  obtain b2 where b2: "index_del (al_bitmap lib) (is_pending_not_junk (al_invoice lib) (?ps ! i) \<and>
      \<not> is_pending_not_junk (al_invoice lib) p) (of_nat i) (pending_not_junk ?st) = (True, b2)"
    "bm.members b2 = positions (is_pending_not_junk (al_invoice lib)) (?ps[i := p])"
    using index_del_ok [of "pending_not_junk ?st" "is_pending_not_junk (al_invoice lib)" ?ps i p] st(2,3) i handled
    by (auto simp: indexes_ok_def handled_update_def)
  obtain b3 where b3: "index_add (al_bitmap lib) (\<not> is_finalized_not_junk (al_invoice lib) (?ps ! i) \<and>
      is_finalized_not_junk (al_invoice lib) p) (of_nat i) (finalized_not_junk ?st) = (True, b3)"
    "bm.members b3 = positions (is_finalized_not_junk (al_invoice lib)) (?ps[i := p])"
    using index_add_ok [of "finalized_not_junk ?st" "is_finalized_not_junk (al_invoice lib)" ?ps i p] st(2,3) i handled
    by (auto simp: indexes_ok_def handled_update_def)
  let ?new = "\<lparr>payments = ?ps[i := p], st_pending = b1, pending_not_junk = b2, finalized_not_junk = b3\<rparr>"
  have "update_pending_payment lib p db =
      (case r of Inl e \<Rightarrow> (Inl (Io e), db\<lparr>db_ffs := f\<rparr>) | Inr _ \<Rightarrow> (Inr 1, \<lparr>db_ffs = f, db_state = ?new\<rparr>))"
    using neq by (cases r) (simp_all add: update_pending_payment_def find b1(1) b2(1) b3(1) Let_def w)
  moreover have "state_inv lib ?new"
    using sorted_payments_update [OF st(1) i idx [symmetric]] b1(2) b2(2) b3(2) st(2)
    by (simp add: state_inv_def indexes_ok_def)
  ultimately show thesis using that by simp
qed

lemma update_pending_payment_ok:
  assumes ok: "db_ok db" and i: "i < length (payments (db_state db))"
    and idx: "bp_index (payments (db_state db) ! i) = bp_index p"
    and handled: "handled_update (al_invoice lib) (payments (db_state db) ! i) p"
    and upd: "update_pending_payment lib p db = (Inr n, db')"
  shows "db_ok db' \<and> payments (db_state db') = (payments (db_state db))[i := p]"
proof (cases "p = payments (db_state db) ! i")
  case True
  have "sorted_payments (payments (db_state db))" using ok by (simp add: app_db_ok_def state_inv_def)
  then have "get_vec_idx_by_payment_index (db_state db) (bp_index p) = Some i"
    using i idx by (simp add: find_by_index)
  with upd True have "db' = db" by (simp add: update_pending_payment_def)
  with ok True show ?thesis by simp
next
  case False
  obtain r f where w: "write_payment lib p (db_ffs db) = (r, f)" by force
  obtain st where st: "update_pending_payment lib p db =
      (case r of Inl e \<Rightarrow> (Inl (Io e), db\<lparr>db_ffs := f\<rparr>) | Inr _ \<Rightarrow> (Inr 1, \<lparr>db_ffs = f, db_state = st\<rparr>))"
    "payments st = (payments (db_state db))[i := p]" "state_inv lib st"
    using update_pending_payment_cases [OF ok i idx handled False w] by blast
  with upd obtain u where r: "r = Inr u" and db': "db' = \<lparr>db_ffs = f, db_state = st\<rparr>" by (cases r) auto
  have fok: "fok (db_ffs db)" and disk: "disk_inv lib (files (db_ffs db)) (payments (db_state db))"
    and sorted: "sorted_payments (payments (db_state db))"
    using ok by (auto simp: app_db_ok_def state_inv_def)
  have "fok f" "files f = (files (db_ffs db))(fname p \<mapsto> bj_to_vec (al_json lib) p)"
    using fs.write_ok [OF fok] w r unfolding write_payment_def by blast+
  with disk_inv_update [OF disk i sorted idx [symmetric]] st(2,3) show ?thesis
    by (simp add: db' app_db_ok_def)
qed

lemma update_note_ok:
  assumes ok: "db_ok db"
    and junk: "\<forall>q \<in> set (payments (db_state db)). bp_index q = idx \<longrightarrow>
      is_junk (al_invoice lib) (q\<lparr>bp_note := n\<rparr>) = is_junk (al_invoice lib) q"
    and upd: "app_update_payment_note lib idx n db = (Inr u, db')"
  shows "db_ok db' \<and> (\<exists>i < length (payments (db_state db)). bp_index (payments (db_state db) ! i) = idx \<and>
    payments (db_state db') = (payments (db_state db))[i := (payments (db_state db) ! i)\<lparr>bp_note := n\<rparr>])"
proof -
  let ?st = "db_state db" and ?ps = "payments (db_state db)"
  have st: "sorted_payments ?ps" "length ?ps \<le> 2 ^ 32" "indexes_ok lib ?st ?ps"
    using ok by (auto simp: app_db_ok_def state_inv_def)
  obtain i where find: "get_vec_idx_by_payment_index ?st idx = Some i"
    using upd by (cases "get_vec_idx_by_payment_index ?st idx") (auto simp: app_update_payment_note_def)
  then have i: "i < length ?ps" "bp_index (?ps ! i) = idx" by (auto simp: find_by_index [OF st(1)])
  let ?p = "(?ps ! i)\<lparr>bp_note := n\<rparr>"
  obtain u f where w: "write_payment lib ?p (db_ffs db) = (Inr u, f)"
    and db': "db' = \<lparr>db_ffs = f, db_state = ?st\<lparr>payments := ?ps[i := ?p]\<rparr>\<rparr>"
    using upd by (auto simp: app_update_payment_note_def find Let_def result_simps split: prod.splits sum.splits)
  have fok: "fok (db_ffs db)" and disk: "disk_inv lib (files (db_ffs db)) ?ps"
    using ok by (auto simp: app_db_ok_def)
  have f: "fok f" "files f = (files (db_ffs db))(fname ?p \<mapsto> bj_to_vec (al_json lib) ?p)"
    using fs.write_ok [OF fok] w unfolding write_payment_def by blast+
  have pos: "positions P (?ps[i := ?p]) = positions P ?ps" if "P ?p = P (?ps ! i)" for P
    using that positions_update [OF i(1) st(2), of P ?p] positions_mem [OF i(1) st(2), of P]
    by (auto simp: insert_absorb)
  have same: "is_pending ?p = is_pending (?ps ! i)" "is_finalized ?p = is_finalized (?ps ! i)"
    by (simp_all add: is_pending_def is_finalized_def)
  then have "indexes_ok lib (?st\<lparr>payments := ?ps[i := ?p]\<rparr>) (?ps[i := ?p])"
    using st(3) pos junk i by (simp add: indexes_ok_def is_pending_not_junk_def is_finalized_not_junk_def)
  with disk_inv_update [OF disk i(1) st(1), of ?p] sorted_payments_update [OF st(1) i(1), of ?p] f st(2) i
  show ?thesis by (auto simp: db' app_db_ok_def state_inv_def)
qed

lemma build_index_ok:
  assumes "length ps \<le> 2 ^ 32"
  obtains b where "build_index (al_bitmap lib) ps P = Some b" and "bm.members b = positions P ps"
proof -
  obtain b where "rb_from_sorted_iter (al_bitmap lib) (map of_nat (hits P ps)) = Some b"
    "rb_iter (al_bitmap lib) b = map of_nat (hits P ps)"
    using bm.from_sorted [OF hits_sorted [OF assms]] by blast
  then show thesis
    using that by (simp add: build_index_def hits_def positions_hits comp_def split_def image_image)
qed

lemma iter_hits: "bm.members b = positions P ps \<Longrightarrow> length ps \<le> 2 ^ 32 \<Longrightarrow> rb_iter (al_bitmap lib) b = map of_nat (hits P ps)"
  using hits_sorted by (intro bm.iter_unique) (simp_all add: positions_hits)

lemma from_unsorted_vec_ok:
  assumes "distinct (map bp_index qs)" "set qs = set ps" "sorted_payments ps" "length ps \<le> 2 ^ 32"
  shows "\<exists>st. from_unsorted_vec lib qs = Inr st \<and> payments st = ps \<and> state_inv lib st"
proof -
  have "sort_by_index qs = ps"
    using sort_by_index_sorted [OF assms(1)] assms(2,3) by (intro sorted_payments_unique) simp_all
  then have "dedup_by_index (sort_by_index qs) = ps" using dedup_sorted [OF assms(3)] by simp
  moreover obtain b1 where "build_pending_index lib ps = Some b1" "bm.members b1 = positions is_pending ps"
    using build_index_ok [OF assms(4)] unfolding build_pending_index_def by metis
  moreover obtain b2 where "build_pending_not_junk_index lib ps = Some b2"
    "bm.members b2 = positions (is_pending_not_junk (al_invoice lib)) ps"
    using build_index_ok [OF assms(4)] unfolding build_pending_not_junk_index_def by metis
  moreover obtain b3 where "build_finalized_not_junk_index lib ps = Some b3"
    "bm.members b3 = positions (is_finalized_not_junk (al_invoice lib)) ps"
    using build_index_ok [OF assms(4)] unfolding build_finalized_not_junk_index_def by metis
  ultimately show ?thesis
    using assms(3,4) by (simp add: from_unsorted_vec_def state_inv_def indexes_ok_def)
qed

lemma read_visit_ok:
  assumes "fok f" "disk_inv lib (files f) ps" "set names \<subseteq> dom (files f)" "distinct names"
  shows "\<exists>qs. read_visit lib f names = Inr qs \<and> distinct (map bp_index qs) \<and>
    set qs = {p \<in> set ps. fname p \<in> set names}"
  using assms(3,4)
proof (induction names)
  case (Cons n names)
  obtain qs where qs: "read_visit lib f names = Inr qs" "distinct (map bp_index qs)"
    "set qs = {p \<in> set ps. fname p \<in> set names}"
    using Cons by auto
  show ?case
  proof (cases "index_from_str (al_txid lib) n")
    case (Inl e)
    then have "fname p \<noteq> n" if "p \<in> set ps" for p
      using that assms(2) fname_parses [of p] by (auto simp: disk_inv_def)
    with Inl qs show ?thesis by (intro exI [of _ qs]) auto
  next
    case (Inr idx)
    then obtain p where p: "p \<in> set ps" "n = fname p"
      using Cons.prems(1) bspec [OF conjunct2 [OF assms(2) [unfolded disk_inv_def]], of n] by (auto simp: is_ok_def)
    have v: "index_valid (bp_index p)" "files f n = Some (bj_to_vec (al_json lib) p)"
      using p assms(2) by (auto simp: disk_inv_def)
    have idx: "idx = bp_index p" using Inr fname_parses [OF v(1)] p(2) by simp
    have same: "q = p" if "q \<in> set ps" "fname q = n" for q
    proof -
      have "files f n = Some (bj_to_vec (al_json lib) q)" using that assms(2) by (auto simp: disk_inv_def)
      with v(2) have "bj_to_vec (al_json lib) q = bj_to_vec (al_json lib) p" by simp
      then show ?thesis using json by (metis option.inject)
    qed
    have "bp_index p \<notin> bp_index ` set qs"
    proof
      assume "bp_index p \<in> bp_index ` set qs"
      then obtain q where q: "q \<in> set qs" "bp_index q = bp_index p" by (metis imageE)
      then have "fname q \<in> set names" using qs(3) by blast
      with q(2) p(2) Cons.prems(2) show False by simp
    qed
    moreover have "read_visit lib f (n # names) = Inr (p # qs)"
      using fs.read [OF assms(1), of n] v(2) Inr idx qs(1) by (simp add: json)
    moreover have "set (p # qs) = {p \<in> set ps. fname p \<in> set (n # names)}"
      using qs(3) p same by auto
    ultimately show ?thesis using qs(2) by (intro exI [of _ "p # qs"]) simp
  qed
qed simp

lemma read_back:
  assumes "fok f" "disk_inv lib (files f) ps" "sorted_payments ps" "length ps \<le> 2 ^ 32"
  shows "\<exists>st. state_read lib f = Inr st \<and> payments st = ps \<and> state_inv lib st"
proof -
  have dir: "set (ffs_read_dir (al_ffs lib) f) = dom (files f)" "distinct (ffs_read_dir (al_ffs lib) f)"
    using fs.read_dir [OF assms(1)] by auto
  from read_visit_ok [OF assms(1,2) _ dir(2)] dir(1) obtain qs where
    qs: "read_visit lib f (ffs_read_dir (al_ffs lib) f) = Inr qs" "distinct (map bp_index qs)"
      "set qs = {p \<in> set ps. fname p \<in> dom (files f)}"
    by auto
  have "set qs = set ps" using qs(3) assms(2) by (auto simp: disk_inv_def)
  from from_unsorted_vec_ok [OF qs(2) this assms(3,4)] qs(1) show ?thesis
    by (simp add: state_read_def result_simps)
qed

section \<open>Scrolling\<close>

lemma select_scroll_ok:
  assumes "bm.members b = positions P ps" "length ps < 2 ^ 32"
  shows "select_scroll_idx (al_bitmap lib) b ps i =
    Some (vec_get (rev (filter (\<lambda>(_, p). P p) (enumerate 0 ps))) i)"
proof (cases "i < length (hits P ps)")
  case True
  define k where "k = length (hits P ps) - i - 1"
  have iter: "rb_iter (al_bitmap lib) b = map of_nat (hits P ps)"
    using iter_hits [OF assms(1)] assms(2) by simp
  have k: "k < length (hits P ps)" using True by (simp add: k_def)
  have "length (hits P ps) \<le> length ps" using length_filter_le [of _ "enumerate 0 ps"] by (simp add: hits_def)
  then have "k < 2 ^ 32" using k assms(2) by simp
  then have uk: "unat (of_nat k :: u32) = k" by (simp add: unat_of_nat)
  have hit: "hits P ps ! k < length ps" "P (ps ! (hits P ps ! k))"
    using nth_mem [OF k] by (auto simp: set_hits)
  then have uh: "unat (of_nat (hits P ps ! k) :: u32) = hits P ps ! k" using assms(2) by (simp add: unat_of_nat)
  have rank: "rb_len (al_bitmap lib) b - i - 1 = k" by (simp add: bm.len iter k_def)
  have sel: "rb_select (al_bitmap lib) (of_nat k) b = Some (of_nat (hits P ps ! k))"
    using k by (simp add: bm.select iter uk)
  have "select_scroll_idx (al_bitmap lib) b ps i = Some (Some (hits P ps ! k, ps ! (hits P ps ! k)))"
    unfolding select_scroll_idx_def Let_def rank sel using True hit by (simp add: bm.len iter vec_get_def uh)
  moreover have "vec_get (rev (filter (\<lambda>(_, p). P p) (enumerate 0 ps))) i = Some (hits P ps ! k, ps ! (hits P ps ! k))"
    using True hit_entry [OF k] by (simp add: vec_get_def length_hits rev_nth k_def)
  ultimately show ?thesis by simp
next
  case False
  then show ?thesis
    using iter_hits [OF assms(1)] assms(2) by (simp add: select_scroll_idx_def bm.len vec_get_def length_hits)
qed

lemma finalized_scroll_ok:
  assumes "state_inv lib st" "length (payments st) < 2 ^ 32"
  shows "get_finalized_payment_by_scroll_idx lib st i =
    Some (vec_get (rev (filter (\<lambda>(_, p). is_finalized p) (enumerate 0 (payments st)))) i)"
proof -
  let ?ps = "payments st" and ?es = "enumerate 0 (payments st)" and ?Q = "\<lambda>(_, p). is_finalized p"
  have iter: "rb_iter (al_bitmap lib) (st_pending st) = map of_nat (hits is_pending ?ps)"
    using iter_hits assms by (auto simp: state_inv_def indexes_ok_def)
  have notQ: "(\<lambda>x. \<not> ?Q x) = (\<lambda>(_, p). is_pending p)" by (auto simp: is_finalized_def)
  have fin: "num_finalized lib st = length (filter ?Q ?es)"
    using sum_length_filter_compl [of ?Q ?es]
    by (simp add: num_finalized_def num_payments_def num_pending_def bm.len iter notQ length_hits)
  show ?thesis
  proof (cases "i < num_finalized lib st")
    case True
    define n where "n = length ?ps"
    have i: "i < n" using True by (simp add: num_finalized_def num_payments_def n_def)
    let ?m = "n - i" and ?r = "n - Suc i"
    have le: "of_nat j \<le> (of_nat ?r :: u32) \<longleftrightarrow> j < ?m" if "j \<in> set (hits is_pending ?ps)" for j
    proof -
      have "j < 2 ^ 32" "?r < 2 ^ 32" using that assms(2) by (auto simp: set_hits n_def)
      then have "unat (of_nat j :: u32) = j" "unat (of_nat ?r :: u32) = ?r" by (simp_all add: unat_of_nat)
      then show ?thesis using i by (simp add: word_le_nat_alt) linarith
    qed
    have "rb_rank (al_bitmap lib) (of_nat ?r) (st_pending st) = length (filter (\<lambda>j. j < ?m) (hits is_pending ?ps))"
      unfolding bm.rank iter filter_map length_map by (rule arg_cong [where f = length], rule filter_cong) (simp_all add: le)
    then have "num_pending lib st - rb_rank (al_bitmap lib) (of_nat ?r) (st_pending st)
        = length (filter (\<lambda>j. ?m \<le> j) (hits is_pending ?ps))"
      using sum_length_filter_compl [of "\<lambda>j. j < ?m" "hits is_pending ?ps"]
      by (simp add: num_pending_def bm.len iter not_less)
    also have "\<dots> = length (filter (\<lambda>(_, p). is_pending p) (filter (\<lambda>(j, _). ?m \<le> j) ?es))"
      by (simp add: hits_def filter_map comp_def split_def conj_commute)
    also have "\<dots> = length (filter (\<lambda>x. \<not> ?Q x) (take i (rev ?es)))"
      using drop_enumerate_filter [of 0 ?m ?ps] i
      by (simp add: take_rev rev_filter [symmetric] notQ n_def)
    finally have below: "num_pending lib st - rb_rank (al_bitmap lib) (of_nat ?r) (st_pending st)
        = length (filter (\<lambda>x. \<not> ?Q x) (take i (rev ?es)))" .
    have len: "i < length (filter ?Q (rev ?es))" using True fin by (simp add: rev_filter [symmetric])
    have r: "num_payments st - i - 1 = ?r" by (simp add: num_payments_def n_def)
    have "get_finalized_payment_by_scroll_idx lib st i = map_option Some (vec_get (filter ?Q (rev ?es)) i)"
      unfolding get_finalized_payment_by_scroll_idx_def Let_def r below skip_then_nth [OF len]
      using True by simp
    with len show ?thesis by (simp add: rev_filter vec_get_def)
  next
    case False
    then show ?thesis by (simp add: get_finalized_payment_by_scroll_idx_def fin vec_get_def)
  qed
qed

end

end
