(* ===== verification/App_Sync.thy ===== *)
theory App_Sync
  imports App_Db
begin

text \<open>
  \<^verbatim>\<open>sync_payments\<close> of \<^verbatim>\<open>app-rs/src/payments.rs\<close>: first the pending payments are refreshed by id, then new
  payments are fetched batch by batch.  The node is reached through its API, a state-passing record.
  The lock on the database is only taken per access; the model has no other writers in between.
\<close>

record 'n app_node_api =
  get_payments_by_ids :: "string list \<Rightarrow> 'n \<Rightarrow> (unit + BasicPayment list) \<times> 'n"
  get_new_payments :: "PaymentIndex option \<Rightarrow> 16 word option \<Rightarrow> 'n \<Rightarrow> (unit + BasicPayment list) \<times> 'n"

record PaymentSyncSummary =
  num_updated :: nat
  num_new :: nat

datatype SyncError = NodeFailed | TooManyPayments | Db AppDbError | SyncPanics

definition any_changes :: "PaymentSyncSummary \<Rightarrow> bool" where
  "any_changes s \<longleftrightarrow> num_new s > 0 \<or> num_updated s > 0"

text \<open>\<^verbatim>\<open>slice::chunks\<close>.\<close>

function chunks :: "nat \<Rightarrow> 'a list \<Rightarrow> 'a list list" where
  "chunks n xs = (if n = 0 \<or> xs = [] then [] else take n xs # chunks n (drop n xs))"
  by auto
termination by (relation "measure (\<lambda>(n, xs). length xs)") auto

declare chunks.simps [simp del]

fun sync_pending_batches ::
    "('b, 'f) app_lib \<Rightarrow> 'n app_node_api \<Rightarrow> LxPaymentId list list \<Rightarrow> nat \<Rightarrow> ('b, 'f) PaymentDb \<Rightarrow> 'n \<Rightarrow>
     (SyncError + nat) \<times> ('b, 'f) PaymentDb \<times> 'n" where
  "sync_pending_batches lib api [] acc db n = (Inr acc, db, n)"
| "sync_pending_batches lib api (batch # batches) acc db n =
     (case get_payments_by_ids api (map (id_display (al_txid lib)) batch) n of
        (Inl _, n') \<Rightarrow> (Inl NodeFailed, db, n')
      | (Inr resp_payments, n') \<Rightarrow>
          if length resp_payments > length batch then (Inl TooManyPayments, db, n')
          else
            (case update_pending_payments lib resp_payments db of
               (Inl e, db') \<Rightarrow> (Inl (Db e), db', n')
             | (Inr k, db') \<Rightarrow> sync_pending_batches lib api batches (acc + k) db' n'))"

definition sync_pending_payments ::
    "('b, 'f) app_lib \<Rightarrow> 'n app_node_api \<Rightarrow> 16 word \<Rightarrow> ('b, 'f) PaymentDb \<Rightarrow> 'n \<Rightarrow>
     (SyncError + nat) \<times> ('b, 'f) PaymentDb \<times> 'n" where
  "sync_pending_payments lib api batch_size db n =
     (if rb_is_empty (al_bitmap lib) (st_pending (db_state db)) then (Inr 0, db, n)
      else case pending_ids lib (db_state db) of
        None \<Rightarrow> (Inl (Db Panics), db, n)
      | Some ids \<Rightarrow> sync_pending_batches lib api (chunks (unat batch_size) ids) 0 db n)"

text \<open>The loop of \<^verbatim>\<open>sync_new_payments\<close>; \<open>None\<close> means that it does not end.\<close>

partial_function (option) sync_new_loop ::
    "('b, 'f) app_lib \<Rightarrow> 'n app_node_api \<Rightarrow> 16 word \<Rightarrow> PaymentIndex option \<Rightarrow> nat \<Rightarrow> ('b, 'f) PaymentDb \<Rightarrow> 'n \<Rightarrow>
     ((SyncError + nat) \<times> ('b, 'f) PaymentDb \<times> 'n) option" where
  "sync_new_loop lib api batch_size latest acc db n =
     (case get_new_payments api latest (Some batch_size) n of
        (Inl _, n') \<Rightarrow> Some (Inl NodeFailed, db, n')
      | (Inr resp_payments, n') \<Rightarrow>
          (case insert_new_payments lib resp_payments db of
             (Inl e, db') \<Rightarrow> Some (Inl (Db e), db', n')
           | (Inr _, db') \<Rightarrow>
               if length resp_payments < unat batch_size
               then Some (Inr (acc + length resp_payments), db', n')
               else sync_new_loop lib api batch_size (latest_payment_index (db_state db'))
                      (acc + length resp_payments) db' n'))"

definition sync_new_payments ::
    "('b, 'f) app_lib \<Rightarrow> 'n app_node_api \<Rightarrow> 16 word \<Rightarrow> ('b, 'f) PaymentDb \<Rightarrow> 'n \<Rightarrow>
     ((SyncError + nat) \<times> ('b, 'f) PaymentDb \<times> 'n) option" where
  "sync_new_payments lib api batch_size db n =
     sync_new_loop lib api batch_size (latest_payment_index (db_state db)) 0 db n"

definition sync_payments ::
    "('b, 'f) app_lib \<Rightarrow> 'n app_node_api \<Rightarrow> 16 word \<Rightarrow> ('b, 'f) PaymentDb \<Rightarrow> 'n \<Rightarrow>
     ((SyncError + PaymentSyncSummary) \<times> ('b, 'f) PaymentDb \<times> 'n) option" where
  "sync_payments lib api batch_size db n =
     (if batch_size = 0 then Some (Inl SyncPanics, db, n)
      else case sync_pending_payments lib api batch_size db n of
        (Inl e, db', n') \<Rightarrow> Some (Inl e, db', n')
      | (Inr updated, db', n') \<Rightarrow>
          map_option (\<lambda>(r, db'', n''). (map_ok (\<lambda>new. \<lparr>num_updated = updated, num_new = new\<rparr>) r, db'', n''))
            (sync_new_payments lib api batch_size db' n'))"

end
