(* ===== verification/App_Sync_Proofs.thy ===== *)
theory App_Sync_Proofs
  imports App_Sync
begin

text \<open>
  Synchronisation against a node whose payments do not change meanwhile, on a disk whose writes
  succeed: it ends, and afterwards the app holds the node's payments.
\<close>

lemma chunks_concat: "0 < n \<Longrightarrow> concat (chunks n xs) = xs"
  by (induction n xs rule: chunks.induct) (subst chunks.simps, auto)

lemma those_map: "(\<And>x. x \<in> set xs \<Longrightarrow> f x = Some (g x)) \<Longrightarrow> those (map f xs) = Some (map g xs)"
  by (induction xs) simp_all

text \<open>
  The local payments are the oldest of the node's, finalized ones are up to date, and the node has
  not revived a payment that was junk here.
\<close>

definition behind_node :: "('b, 'f) app_lib \<Rightarrow> BasicPayment list \<Rightarrow> BasicPayment list \<Rightarrow> bool" where
  "behind_node lib remote ps \<longleftrightarrow> length ps \<le> length remote \<and>
     (\<forall>i < length ps. bp_index (ps ! i) = bp_index (remote ! i) \<and>
       (if is_pending (ps ! i) then handled_update (al_invoice lib) (ps ! i) (remote ! i) else ps ! i = remote ! i))"

locale app_sync = app_db lib files fok
  for lib :: "('b, 'f) app_lib" and files :: "'f \<Rightarrow> string \<rightharpoonup> bytes" and fok :: "'f \<Rightarrow> bool" +
  fixes api :: "'n app_node_api" and node :: 'n and remote :: "BasicPayment list"
  assumes healthy: "fok f \<Longrightarrow> \<exists>f'. ffs_write (al_ffs lib) name d f = (Inr (), f')"
    and remote_sorted: "sorted_payments remote"
    and remote_ids: "distinct (map bp_payment_id remote)"
    and remote_valid: "p \<in> set remote \<Longrightarrow> index_valid (bp_index p)"
    and remote_len: "length remote \<le> 2 ^ 32"
    and by_ids: "get_payments_by_ids api ids node =
      (Inr (filter (\<lambda>p. id_display (al_txid lib) (bp_payment_id p) \<in> set ids) remote), node)"
    and new: "unat limit \<le> 100 \<Longrightarrow> get_new_payments api start (Some limit) node =
      (Inr (take (unat limit) (filter (\<lambda>p. option_less index_cmp start (bp_index p)) remote)), node)"
begin

lemma write_total:
  assumes "fok (db_ffs db)"
  obtains f where "write_payment lib p (db_ffs db) = (Inr (), f)"
  using healthy [OF assms] unfolding write_payment_def by blast

section \<open>New payments\<close>

lemma insert_loop_total:
  assumes "indexes_ok lib (db_state db) qs" and "length (qs @ ps) \<le> 2 ^ 32" and "fok (db_ffs db)"
  shows "\<exists>db'. insert_loop lib (of_nat (length qs)) ps db = (Inr (), db')"
  using assms
proof (induction ps arbitrary: qs db)
  case (Cons p ps)
  obtain f where w: "write_payment lib p (db_ffs db) = (Inr (), f)" using write_total [OF Cons.prems(3)] .
  then have "fok f" using fs.write_ok [OF Cons.prems(3)] unfolding write_payment_def by blast
  have len: "length qs < 2 ^ 32" using Cons.prems(2) by simp
  obtain st where "insert_loop lib (of_nat (length qs)) (p # ps) db =
      insert_loop lib (of_nat (length (qs @ [p]))) ps \<lparr>db_ffs = f, db_state = st\<rparr>"
    "indexes_ok lib st (qs @ [p])"
    using insert_loop_step [OF Cons.prems(1) len w] by auto
  with Cons.IH [of "\<lparr>db_ffs = f, db_state = st\<rparr>" "qs @ [p]"] Cons.prems(2) \<open>fok f\<close> show ?case by simp
qed simp

lemma insert_new_payments_total:
  assumes "db_ok db" and "sorted_payments (payments (db_state db) @ ps)"
    and "length (payments (db_state db) @ ps) \<le> 2 ^ 32"
  shows "\<exists>db'. insert_new_payments lib ps db = (Inr (), db')"
proof (cases ps)
  case Nil
  then show ?thesis by (simp add: insert_new_payments_def)
next
  case (Cons p rest)
  have "sorted_payments (p # rest)" using assms(2) by (simp add: Cons sorted_payments_append)
  then have sorted: "is_strict_total_order_by_key index_cmp bp_index (p # rest)"
    by (simp only: sorted_payments_def)
  have newer: "option_less index_cmp (latest_payment_index (db_state db)) (bp_index p)"
    using assms(2) by (auto simp: Cons option_less_def latest_payment_index_def sorted_payments_append)
  obtain db1 where "insert_loop lib (of_nat (length (payments (db_state db)))) (p # rest) db = (Inr (), db1)"
    using insert_loop_total [of db "payments (db_state db)" ps] assms
    by (auto simp: Cons app_db_ok_def state_inv_def)
  with sorted newer show ?thesis by (simp add: Cons insert_new_payments_def num_payments_def)
qed

text \<open>What is newer than the last of the first \<open>m\<close> payments are the others.\<close>

lemma newer_than_prefix:
  assumes "m \<le> length remote" and "payments st = take m remote"
  shows "filter (\<lambda>p. option_less index_cmp (latest_payment_index st) (bp_index p)) remote = drop m remote"
proof -
  let ?newer = "\<lambda>p. option_less index_cmp (latest_payment_index st) (bp_index p)"
  have split: "remote = take m remote @ drop m remote" by simp
  have sorted: "sorted_payments (take m remote @ drop m remote)" using remote_sorted by simp
  have "\<not> ?newer p" if "p \<in> set (take m remote)" for p
  proof -
    have ne: "take m remote \<noteq> []" using that by (metis empty_iff empty_set)
    have "sorted_payments (take m remote)" using sorted by (simp only: sorted_payments_append)
    from sorted_payments_last [OF this that] have "index_cmp (bp_index (last (take m remote))) (bp_index p) \<noteq> Less"
      using payment_index.less_irrefl payment_index.cmp_trans by metis
    with ne show ?thesis by (simp add: option_less_def latest_payment_index_def assms(2))
  qed
  moreover have "?newer p" if "p \<in> set (drop m remote)" for p
  proof (cases "take m remote = []")
    case False
    have "\<forall>x \<in> set (take m remote). \<forall>y \<in> set (drop m remote). index_cmp (bp_index x) (bp_index y) = Less"
      using sorted [unfolded sorted_payments_append] by blast
    with that last_in_set [OF False] show ?thesis
      by (simp add: option_less_def latest_payment_index_def assms(2))
  qed (simp add: option_less_def latest_payment_index_def assms(2))
  ultimately have "filter ?newer (take m remote) = []" "filter ?newer (drop m remote) = drop m remote"
    by (auto simp: filter_empty_conv filter_id_conv)
  then show ?thesis by (subst split) (simp only: filter_append append_Nil)
qed

lemma sync_new_loop_total:
  assumes "db_ok db" "payments (db_state db) = take m remote" "m \<le> length remote"
    and "0 < unat batch_size" "unat batch_size \<le> 100"
  shows "\<exists>db'. sync_new_loop lib api batch_size (latest_payment_index (db_state db)) acc db node =
      Some (Inr (acc + (length remote - m)), db', node) \<and> db_ok db' \<and> payments (db_state db') = remote"
  using assms(1-3)
proof (induction "length remote - m" arbitrary: m db acc rule: less_induct)
  case less
  let ?b = "unat batch_size"
  define resp where "resp = take ?b (drop m remote)"
  have get: "get_new_payments api (latest_payment_index (db_state db)) (Some batch_size) node = (Inr resp, node)"
    using new [OF assms(5)] newer_than_prefix [OF less.prems(3,2)] by (simp add: resp_def)
  have take: "take m remote @ resp = take (m + ?b) remote" by (simp add: resp_def take_add)
  have sorted: "sorted_payments (payments (db_state db) @ resp)"
    unfolding less.prems(2) take using remote_sorted
    by (metis append_take_drop_id sorted_payments_append)
  have len: "length (payments (db_state db) @ resp) \<le> 2 ^ 32"
    unfolding less.prems(2) take using remote_len by simp
  obtain db1 where ins: "insert_new_payments lib resp db = (Inr (), db1)"
    using insert_new_payments_total [OF less.prems(1) sorted len] by blast
  have valid: "\<forall>p \<in> set resp. index_valid (bp_index p)"
    using remote_valid by (auto simp: resp_def dest!: in_set_takeD in_set_dropD)
  have db1: "db_ok db1" "payments (db_state db1) = take (m + ?b) remote"
    using insert_new_payments_ok [OF less.prems(1) valid len [unfolded length_append] ins]
    by (simp_all add: less.prems(2) take)
  note unfold = sync_new_loop.simps [of lib api batch_size "latest_payment_index (db_state db)" acc db node]
  show ?case
  proof (cases "length resp < ?b")
    case True
    then have "length resp = length remote - m" "length remote \<le> m + ?b" by (auto simp: resp_def)
    with True db1 show ?thesis by (simp add: unfold get ins)
  next
    case False
    then have more: "m + ?b \<le> length remote" "length resp = ?b" using assms(4) by (auto simp: resp_def)
    with less.hyps [of "m + ?b" db1 "acc + ?b"] db1 assms(4) False show ?thesis
      by (simp add: unfold get ins)
  qed
qed

section \<open>Pending payments\<close>

abbreviation behind :: "BasicPayment list \<Rightarrow> bool" where
  "behind \<equiv> behind_node lib remote"

text \<open>The positions in \<open>S\<close> have been refreshed.\<close>

definition refreshed :: "BasicPayment list \<Rightarrow> nat set \<Rightarrow> BasicPayment list \<Rightarrow> bool" where
  "refreshed ps S qs \<longleftrightarrow> length qs = length ps \<and>
     (\<forall>i < length ps. qs ! i = (if i \<in> S then remote ! i else ps ! i))"

lemma handled_refl: "handled_update ilib p p"
  by (simp add: handled_update_def)

lemma update_one:
  assumes "behind ps" "db_ok db" "refreshed ps S (payments (db_state db))" "j < length ps" "is_pending (ps ! j)"
  shows "\<exists>k db'. update_pending_payment lib (remote ! j) db = (Inr k, db') \<and> db_ok db' \<and>
    refreshed ps (insert j S) (payments (db_state db'))"
proof -
  let ?qs = "payments (db_state db)" and ?p = "remote ! j"
  have old: "bp_index (ps ! j) = bp_index ?p" "handled_update (al_invoice lib) (ps ! j) ?p"
    using assms(1,4,5) by (auto simp: behind_node_def)
  have j: "j < length ?qs" "?qs ! j = (if j \<in> S then ?p else ps ! j)"
    using assms(3,4) by (simp_all add: refreshed_def)
  have idx: "bp_index (?qs ! j) = bp_index ?p" and handled: "handled_update (al_invoice lib) (?qs ! j) ?p"
    using old j handled_refl by auto
  have new: "refreshed ps (insert j S) (?qs[j := ?p])"
    using assms(3,4) by (auto simp: refreshed_def nth_list_update)
  have "\<exists>k db'. update_pending_payment lib ?p db = (Inr k, db')"
  proof (cases "?p = ?qs ! j")
    case True
    have "sorted_payments ?qs" using assms(2) by (simp add: app_db_ok_def state_inv_def)
    then have "get_vec_idx_by_payment_index (db_state db) (bp_index ?p) = Some j"
      using j(1) idx by (simp add: find_by_index)
    with True show ?thesis by (simp add: update_pending_payment_def)
  next
    case False
    have "fok (db_ffs db)" using assms(2) by (simp add: app_db_ok_def)
    then obtain f where "write_payment lib ?p (db_ffs db) = (Inr (), f)" by (rule write_total)
    then show ?thesis
      using update_pending_payment_cases [OF assms(2) j(1) idx handled False] by (metis sum.simps(6))
  qed
  then obtain k db' where upd: "update_pending_payment lib ?p db = (Inr k, db')" by blast
  from update_pending_payment_ok [OF assms(2) j(1) idx handled upd] new upd show ?thesis by auto
qed

lemma update_many:
  assumes "behind ps" "db_ok db" "refreshed ps S (payments (db_state db))"
    and "\<forall>j \<in> set js. j < length ps \<and> is_pending (ps ! j)"
  shows "\<exists>k db'. update_pending_payments lib (map ((!) remote) js) db = (Inr k, db') \<and> db_ok db' \<and>
    refreshed ps (S \<union> set js) (payments (db_state db'))"
  using assms(2-)
proof (induction js arbitrary: db S)
  case (Cons j js)
  have j: "j < length ps" "is_pending (ps ! j)" using Cons.prems(3) by simp_all
  obtain k db1 where one: "update_pending_payment lib (remote ! j) db = (Inr k, db1)" "db_ok db1"
    "refreshed ps (insert j S) (payments (db_state db1))"
    using update_one [OF assms(1) Cons.prems(1,2) j] by blast
  with Cons.IH [OF one(2,3)] Cons.prems(3) show ?case by auto
qed simp

text \<open>The node's answer to a batch of ids of pending payments.\<close>

lemma answer:
  assumes "behind ps" and batch: "set batch \<subseteq> (\<lambda>j. bp_payment_id (ps ! j)) ` {j. j < length ps \<and> is_pending (ps ! j)}"
  obtains js where
    "filter (\<lambda>p. id_display (al_txid lib) (bp_payment_id p) \<in> set (map (id_display (al_txid lib)) batch)) remote
      = map ((!) remote) js"
    and "set js = {j. j < length ps \<and> is_pending (ps ! j) \<and> bp_payment_id (ps ! j) \<in> set batch}"
    and "length js \<le> length batch"
proof -
  have same: "bp_payment_id (ps ! j) = bp_payment_id (remote ! j)" "j < length remote" if "j < length ps" for j
    using assms(1) that by (auto simp: behind_node_def bp_payment_id_def)
  have valid: "id_valid (bp_payment_id (remote ! j))" if "j < length remote" for j
    using remote_valid [OF nth_mem [OF that]] by (simp add: index_valid_def bp_payment_id_def)
  have inj: "j = l" if "j < length remote" "l < length remote" "bp_payment_id (remote ! j) = bp_payment_id (remote ! l)" for j l
    using remote_ids that by (simp add: distinct_conv_nth) metis
  define js where "js = filter (\<lambda>j. bp_payment_id (remote ! j) \<in> set batch) [0..<length remote]"
  have id_mem: "id_display (al_txid lib) (bp_payment_id (remote ! j)) \<in> set (map (id_display (al_txid lib)) batch) \<longleftrightarrow>
      bp_payment_id (remote ! j) \<in> set batch" if j: "j < length remote" for j
  proof -
    have "x = bp_payment_id (remote ! j)"
      if "x \<in> set batch" "id_display (al_txid lib) (bp_payment_id (remote ! j)) = id_display (al_txid lib) x" for x
    proof -
      obtain l where "l < length ps" "x = bp_payment_id (ps ! l)" using batch \<open>x \<in> set batch\<close> by auto
      then have "id_valid x" using valid same by metis
      with that(2) valid [OF j] show ?thesis using txids.id_roundtrip by (metis sum.inject(2))
    qed
    then show ?thesis by auto
  qed
  have "filter (\<lambda>p. id_display (al_txid lib) (bp_payment_id p) \<in> set (map (id_display (al_txid lib)) batch)) remote
      = map ((!) remote) js"
  proof -
    have nths: "filter Q remote = map ((!) remote) (filter (\<lambda>j. Q (remote ! j)) [0..<length remote])" for Q
      by (metis (no_types, lifting) filter_map map_nth comp_apply filter_cong)
    have "filter (\<lambda>j. id_display (al_txid lib) (bp_payment_id (remote ! j)) \<in>
        set (map (id_display (al_txid lib)) batch)) [0..<length remote] = js"
      unfolding js_def by (rule filter_cong) (simp_all only: id_mem set_upt atLeastLessThan_iff)
    then show ?thesis by (subst nths) (rule arg_cong)
  qed
  moreover have set_js: "set js = {j. j < length ps \<and> is_pending (ps ! j) \<and> bp_payment_id (ps ! j) \<in> set batch}"
  proof -
    have "j < length ps \<and> is_pending (ps ! j)" if "j < length remote" "bp_payment_id (remote ! j) \<in> set batch" for j
    proof -
      obtain l where l: "l < length ps" "is_pending (ps ! l)" "bp_payment_id (remote ! j) = bp_payment_id (ps ! l)"
        using batch \<open>bp_payment_id (remote ! j) \<in> set batch\<close> by auto
      with inj [OF \<open>j < length remote\<close>, of l] same show ?thesis by auto
    qed
    then show ?thesis using same by (auto simp: js_def)
  qed
  moreover have "length js \<le> length batch"
  proof -
    have "distinct (map (\<lambda>j. bp_payment_id (remote ! j)) js)"
      using inj by (auto simp: js_def distinct_map inj_on_def)
    then have "length js = card ((\<lambda>j. bp_payment_id (remote ! j)) ` set js)"
      by (metis distinct_card length_map set_map)
    also have "\<dots> \<le> card (set batch)" by (rule card_mono) (auto simp: js_def)
    finally show ?thesis using card_length [of batch] by linarith
  qed
  ultimately show thesis using that by blast
qed

lemma sync_batches_total:
  assumes "behind ps" "db_ok db" "refreshed ps S (payments (db_state db))"
    and "set (concat batches) \<subseteq> (\<lambda>j. bp_payment_id (ps ! j)) ` {j. j < length ps \<and> is_pending (ps ! j)}"
  shows "\<exists>k db'. sync_pending_batches lib api batches acc db node = (Inr k, db', node) \<and> db_ok db' \<and>
    refreshed ps (S \<union> {j. j < length ps \<and> is_pending (ps ! j) \<and> bp_payment_id (ps ! j) \<in> set (concat batches)})
      (payments (db_state db'))"
  using assms(2-)
proof (induction batches arbitrary: db S acc)
  case (Cons batch batches)
  let ?hit = "\<lambda>X. {j. j < length ps \<and> is_pending (ps ! j) \<and> bp_payment_id (ps ! j) \<in> X}"
  have "set batch \<subseteq> (\<lambda>j. bp_payment_id (ps ! j)) ` {j. j < length ps \<and> is_pending (ps ! j)}"
    and rest: "set (concat batches) \<subseteq> (\<lambda>j. bp_payment_id (ps ! j)) ` {j. j < length ps \<and> is_pending (ps ! j)}"
    using Cons.prems(3) by auto
  from answer [OF assms(1) this(1)] obtain js where
    js: "filter (\<lambda>p. id_display (al_txid lib) (bp_payment_id p) \<in> set (map (id_display (al_txid lib)) batch)) remote
      = map ((!) remote) js" "set js = ?hit (set batch)" "length js \<le> length batch"
    by blast
  have "\<forall>j \<in> set js. j < length ps \<and> is_pending (ps ! j)" using js(2) by simp
  from update_many [OF assms(1) Cons.prems(1,2) this] obtain k db1 where
    upd: "update_pending_payments lib (map ((!) remote) js) db = (Inr k, db1)" "db_ok db1"
      "refreshed ps (S \<union> set js) (payments (db_state db1))"
    by blast
  obtain m db2 where loop: "sync_pending_batches lib api batches (acc + k) db1 node = (Inr m, db2, node)"
    "db_ok db2" "refreshed ps (S \<union> set js \<union> ?hit (set (concat batches))) (payments (db_state db2))"
    using Cons.IH [OF upd(2,3) rest] by blast
  have call: "sync_pending_batches lib api (batch # batches) acc db node = (Inr m, db2, node)"
    using js(3) upd(1) loop(1) by (simp only: sync_pending_batches.simps by_ids js(1)) simp
  have sets: "S \<union> set js \<union> ?hit (set (concat batches)) = S \<union> ?hit (set (concat (batch # batches)))"
    using js(2) by auto
  show ?case using call loop(2) loop(3) [unfolded sets] by blast
qed (simp add: refreshed_def)

lemma pending_ids_eq:
  assumes "state_inv lib st"
  shows "pending_ids lib st = Some (map (\<lambda>j. bp_payment_id (payments st ! j)) (hits is_pending (payments st)))"
proof -
  have inv: "bm.members (st_pending st) = positions is_pending (payments st)" "length (payments st) \<le> 2 ^ 32"
    using assms by (auto simp: state_inv_def indexes_ok_def)
  have "vec_get (payments st) (unat (of_nat j :: u32)) = Some (payments st ! j)"
    if "j \<in> set (hits is_pending (payments st))" for j
  proof -
    have "j < length (payments st)" using that by (simp add: set_hits)
    moreover then have "unat (of_nat j :: u32) = j" using inv(2) by (simp add: unat_of_nat)
    ultimately show ?thesis by (simp add: vec_get_def)
  qed
  then show ?thesis
    unfolding pending_ids_def iter_hits [OF inv] map_map
    by (intro those_map) (simp add: bp_payment_id_def)
qed

lemma sync_pending_total:
  assumes "db_ok db" "behind (payments (db_state db))" "0 < unat batch_size"
  shows "\<exists>k db'. sync_pending_payments lib api batch_size db node = (Inr k, db', node) \<and> db_ok db' \<and>
    payments (db_state db') = take (length (payments (db_state db))) remote"
proof -
  let ?ps = "payments (db_state db)"
  let ?P = "{j. j < length ?ps \<and> is_pending (?ps ! j)}"
  have inv: "state_inv lib (db_state db)" using assms(1) by (simp add: app_db_ok_def)
  have len: "length ?ps \<le> length remote" using assms(2) unfolding behind_node_def by (rule conjunct1)
  have finish: "qs = take (length ?ps) remote" if ref: "refreshed ?ps ?P qs" for qs
  proof (rule nth_equalityI)
    show "length qs = length (take (length ?ps) remote)"
      using ref len by (simp add: refreshed_def)
    fix i assume "i < length qs"
    then have i: "i < length ?ps" using ref by (simp add: refreshed_def)
    with ref have "qs ! i = (if is_pending (?ps ! i) then remote ! i else ?ps ! i)" by (simp add: refreshed_def)
    also have "\<dots> = remote ! i" using i assms(2) unfolding behind_node_def by metis
    finally show "qs ! i = take (length ?ps) remote ! i" using i by simp
  qed
  have start: "refreshed ?ps {} ?ps" by (simp add: refreshed_def)
  show ?thesis
  proof (cases "rb_is_empty (al_bitmap lib) (st_pending (db_state db))")
    case True
    then have "?P = {}"
      using inv by (auto simp: bm.is_empty state_inv_def indexes_ok_def positions_def)
    with True start finish assms(1) show ?thesis by (simp add: sync_pending_payments_def)
  next
    case False
    let ?ids = "map (\<lambda>j. bp_payment_id (?ps ! j)) (hits is_pending ?ps)"
    have ids: "set ?ids = (\<lambda>j. bp_payment_id (?ps ! j)) ` ?P" by (simp add: set_hits)
    have concat: "concat (chunks (unat batch_size) ?ids) = ?ids" by (rule chunks_concat [OF assms(3)])
    have sub: "set (concat (chunks (unat batch_size) ?ids)) \<subseteq> (\<lambda>j. bp_payment_id (?ps ! j)) ` ?P"
      unfolding concat ids by simp
    have "{} \<union> {j. j < length ?ps \<and> is_pending (?ps ! j) \<and> bp_payment_id (?ps ! j) \<in> set ?ids} = ?P"
      unfolding ids by auto
    with sync_batches_total [OF assms(2,1) start sub, of 0, unfolded concat]
    obtain k db' where "sync_pending_batches lib api (chunks (unat batch_size) ?ids) 0 db node = (Inr k, db', node)"
      "db_ok db'" "refreshed ?ps ?P (payments (db_state db'))"
      by metis
    with finish False show ?thesis by (simp add: sync_pending_payments_def pending_ids_eq [OF inv])
  qed
qed

lemma sync_total:
  assumes "db_ok db" "behind (payments (db_state db))" "0 < unat batch_size" "unat batch_size \<le> 100"
  shows "\<exists>summary db'. sync_payments lib api batch_size db node = Some (Inr summary, db', node) \<and> db_ok db' \<and>
    payments (db_state db') = remote \<and> num_new summary = length remote - length (payments (db_state db))"
proof -
  let ?m = "length (payments (db_state db))"
  obtain k db1 where one: "sync_pending_payments lib api batch_size db node = (Inr k, db1, node)" "db_ok db1"
    "payments (db_state db1) = take ?m remote"
    using sync_pending_total [OF assms(1-3)] by blast
  have "?m \<le> length remote" using assms(2) unfolding behind_node_def by (rule conjunct1)
  from sync_new_loop_total [OF one(2,3) this assms(3,4), of 0] obtain db2 where
    "sync_new_payments lib api batch_size db1 node = Some (Inr (length remote - ?m), db2, node)"
    "db_ok db2" "payments (db_state db2) = remote"
    by (auto simp: sync_new_payments_def)
  moreover have "batch_size \<noteq> 0" using assms(3) by auto
  ultimately show ?thesis using one(1) by (simp add: sync_payments_def)
qed

end

end
