(* ===== verification/App_Node.thy ===== *)
theory App_Node
  imports Node_Payments App_Sync_Proofs
begin

text \<open>
  The app synchronising from a user node: the app's API is served by \<^verbatim>\<open>node/src/server/app.rs\<close> from the
  node's persister, here over the mock backend's payments table.
\<close>

definition node_app_api ::
    "node_crypto \<Rightarrow> decimal_ops \<Rightarrow> 'w backend_api \<Rightarrow> 'w app_node_api" where
  "node_app_api nc ops api =
     \<lparr>get_payments_by_ids = (\<lambda>ids. call_err (\<lambda>_. ()) (read_payments_by_ids nc ops api ids)),
      get_new_payments = (\<lambda>start limit. call_err (\<lambda>_. ()) (read_new_payments nc ops api start limit))\<rparr>"

text \<open>All the node's payments, as the app sees them, in ascending index order.\<close>

definition node_basics :: "node_crypto \<Rightarrow> decimal_ops \<Rightarrow> mock_backend \<Rightarrow> BasicPayment list" where
  "node_basics nc ops b = List.map_filter (\<lambda>(_, db). ok (decrypt_basic nc ops db)) (mb_payments b)"

lemma basic_payment_total:
  assumes "decimal_laws ops"
  obtains bp where "basic_payment ops p = Some bp" and "bp_index bp = payment_index p"
    and "bp_status bp = payment_status p"
proof -
  obtain z where "from_msat ops 0 = Some z" using from_msat_ok [OF assms] by blast
  then have "\<exists>f. payment_fees ops p = Some f" by (cases p) simp_all
  then show thesis using that by (auto simp: basic_payment_def)
qed

context node_store
begin

text \<open>Every row decrypts to the \<^verbatim>\<open>BasicPayment\<close> of the payment stored under its key.\<close>

lemma rows:
  assumes "decimal_laws ops" "mock_ok nc b"
  obtains f where "\<forall>e \<in> set (mb_payments b). decrypt_basic nc ops (snd e) = Inr (f e) \<and> bp_index (f e) = fst e \<and>
      index_valid (fst e) \<and> db_id (snd e) = id_display (nc_txid nc) (index_id (fst e))"
    and "node_basics nc ops b = map f (mb_payments b)"
proof -
  have "\<exists>bp. decrypt_basic nc ops (snd e) = Inr bp \<and> bp_index bp = fst e \<and> index_valid (fst e) \<and>
      db_id (snd e) = id_display (nc_txid nc) (index_id (fst e))" if mem: "e \<in> set (mb_payments b)" for e
  proof -
    obtain p where p: "entry_of nc p e" using assms(2) mem by (auto simp: mock_ok_def)
    obtain bp where "basic_payment ops p = Some bp" "bp_index bp = payment_index p"
      using basic_payment_total [OF assms(1)] .
    with p show ?thesis
      by (auto simp: entry_of_def decrypt_basic_def storable_def index_valid_def)
  qed
  then obtain f where f: "\<forall>e \<in> set (mb_payments b). decrypt_basic nc ops (snd e) = Inr (f e) \<and> bp_index (f e) = fst e \<and>
      index_valid (fst e) \<and> db_id (snd e) = id_display (nc_txid nc) (index_id (fst e))"
    by metis
  have "List.map_filter (\<lambda>(_, db). ok (decrypt_basic nc ops db)) es = map f es"
    if "\<forall>e \<in> set es. decrypt_basic nc ops (snd e) = Inr (f e)" for es
    using that by (induction es) (auto simp: List.map_filter_simps ok_def case_prod_beta)
  with f have "node_basics nc ops b = map f (mb_payments b)" by (simp add: node_basics_def)
  with f show thesis using that by blast
qed

lemma collect_rows:
  assumes "\<forall>e \<in> set es. decrypt_basic nc ops (snd e) = Inr (f e)"
  shows "collect_results (map (decrypt_basic nc ops) (map snd es)) = Inr (map f es)"
  using assms by (induction es) simp_all

lemma serves_by_ids:
  assumes "decimal_laws ops" "mock_ok nc b" "token (mb_draws b) = Inr ()"
  shows "get_payments_by_ids (node_app_api nc ops api) ids b =
    (Inr (filter (\<lambda>p. id_display (nc_txid nc) (bp_payment_id p) \<in> set ids) (node_basics nc ops b)), b)"
proof -
  obtain f where f: "\<forall>e \<in> set (mb_payments b). decrypt_basic nc ops (snd e) = Inr (f e) \<and> bp_index (f e) = fst e \<and>
      index_valid (fst e) \<and> db_id (snd e) = id_display (nc_txid nc) (index_id (fst e))"
    and basics: "node_basics nc ops b = map f (mb_payments b)"
    using rows [OF assms(1,2)] by blast
  define es where "es = filter (\<lambda>e. db_id (snd e) \<in> set ids) (mb_payments b)"
  have "filter (\<lambda>p. db_id p \<in> set ids) (map snd (mb_payments b)) = map snd es"
    by (simp add: es_def filter_map comp_def)
  moreover have "collect_results (map (decrypt_basic nc ops) (map snd es)) = Inr (map f es)"
    using f by (intro collect_rows) (simp add: es_def)
  moreover have "map f es = filter (\<lambda>p. id_display (nc_txid nc) (bp_payment_id p) \<in> set ids) (map f (mb_payments b))"
  proof -
    have "es = filter (\<lambda>e. id_display (nc_txid nc) (bp_payment_id (f e)) \<in> set ids) (mb_payments b)"
      unfolding es_def using f by (intro filter_cong) (auto simp: bp_payment_id_def)
    then show ?thesis by (simp add: filter_map comp_def)
  qed
  ultimately show ?thesis
    by (simp add: node_app_api_def read_payments_by_ids_def call_err_def call_then_def call_pure_def token_call_def
        mock_api_def mock_get_payments_by_ids_def assms(3) basics)
qed

lemma serves_new:
  assumes "decimal_laws ops" "mock_ok nc b" "token (mb_draws b) = Inr ()" "unat limit \<le> 100"
  shows "get_new_payments (node_app_api nc ops api) start (Some limit) b =
    (Inr (take (unat limit) (filter (\<lambda>p. option_less index_cmp start (bp_index p)) (node_basics nc ops b))), b)"
proof -
  obtain f where f: "\<forall>e \<in> set (mb_payments b). decrypt_basic nc ops (snd e) = Inr (f e) \<and> bp_index (f e) = fst e \<and>
      index_valid (fst e) \<and> db_id (snd e) = id_display (nc_txid nc) (index_id (fst e))"
    and basics: "node_basics nc ops b = map f (mb_payments b)"
    using rows [OF assms(1,2)] by blast
  define es where "es = take (unat limit) (filter (\<lambda>(index, _). case start of
      Some s \<Rightarrow> index_cmp index s = Greater | None \<Rightarrow> True) (mb_payments b))"
  have "collect_results (map (decrypt_basic nc ops) (map snd es)) = Inr (map f es)"
    using f by (intro collect_rows) (auto simp: es_def dest!: in_set_takeD)
  moreover have "map f es = take (unat limit) (filter (\<lambda>p. option_less index_cmp start (bp_index p)) (map f (mb_payments b)))"
  proof -
    have "filter (\<lambda>(index, _). case start of Some s \<Rightarrow> index_cmp index s = Greater | None \<Rightarrow> True) (mb_payments b)
        = filter (\<lambda>e. option_less index_cmp start (bp_index (f e))) (mb_payments b)"
      using f by (intro filter_cong)
        (auto simp: option_less_def payment_index.cmp_flip split: option.split)
    then show ?thesis by (simp add: es_def filter_map comp_def take_map)
  qed
  moreover have "\<not> MAX_PAYMENTS_BATCH_SIZE < limit"
    using assms(4) by (simp add: MAX_PAYMENTS_BATCH_SIZE_def word_less_nat_alt)
  ultimately show ?thesis
    by (simp add: node_app_api_def read_new_payments_def call_err_def call_then_def call_pure_def token_call_def
        mock_api_def mock_get_new_payments_def assms(3) basics es_def)
qed

lemma basics_sorted:
  assumes "decimal_laws ops" "mock_ok nc b"
  shows "sorted_payments (node_basics nc ops b)" and "distinct (map bp_payment_id (node_basics nc ops b))"
    and "p \<in> set (node_basics nc ops b) \<Longrightarrow> index_valid (bp_index p)"
    and "length (node_basics nc ops b) = length (mb_payments b)"
proof -
  obtain f where f: "\<forall>e \<in> set (mb_payments b). decrypt_basic nc ops (snd e) = Inr (f e) \<and> bp_index (f e) = fst e \<and>
      index_valid (fst e) \<and> db_id (snd e) = id_display (nc_txid nc) (index_id (fst e))"
    and basics: "node_basics nc ops b = map f (mb_payments b)"
    using rows [OF assms] by blast
  have keys: "map bp_index (node_basics nc ops b) = map fst (mb_payments b)"
    using f by (simp add: basics)
  have sorted: "sorted_wrt (\<lambda>a b. index_cmp a b = Less) (map fst (mb_payments b))"
    using assms(2) by (simp add: mock_ok_def bt_sorted_def sorted_wrt_map)
  then show "sorted_payments (node_basics nc ops b)" by (simp add: sorted_payments_wrt keys)
  have "distinct (map fst (mb_payments b))" by (rule payment_index.sorted_distinct [OF sorted])
  then have "distinct (map index_id (map fst (mb_payments b)))"
    using assms(2) by (simp add: distinct_map mock_ok_def comp_inj_on)
  then show "distinct (map bp_payment_id (node_basics nc ops b))"
    using keys by (metis (no_types, lifting) bp_payment_id_def list.map_comp map_eq_conv comp_apply)
  show "index_valid (bp_index p)" if "p \<in> set (node_basics nc ops b)"
    using that f by (auto simp: basics)
  show "length (node_basics nc ops b) = length (mb_payments b)" by (simp add: basics)
qed

end

end
