(* ===== verification/App_Properties.thy ===== *)
theory App_Properties
  imports App_Node
begin

text \<open>
  What the app's payment database guarantees, alone and together with a node, and two ways in which
  it gets out of step with itself.
\<close>

section \<open>A concrete database\<close>

fun id_parts :: "LxPaymentId \<Rightarrow> ClientPaymentId + LxTxid + LxPaymentHash" where
  "id_parts (LxPaymentId.OnchainSend c) = Inl c"
| "id_parts (OnchainRecv t) = Inr (Inl t)"
| "id_parts (Lightning h) = Inr (Inr h)"

fun id_unparts :: "ClientPaymentId + LxTxid + LxPaymentHash \<Rightarrow> LxPaymentId" where
  "id_unparts (Inl c) = LxPaymentId.OnchainSend c"
| "id_unparts (Inr (Inl t)) = OnchainRecv t"
| "id_unparts (Inr (Inr h)) = Lightning h"

definition c_index :: "PaymentIndex codec" where
  "c_index = c_map (\<lambda>i. (index_created_at i, index_id i))
     (\<lambda>(t, i). \<lparr>index_created_at = t, index_id = i\<rparr>)
     (c_pair c_time (c_map id_parts id_unparts (c_sum c_cid (c_sum c_txid c_hash))))"

definition c_kind :: "PaymentKind codec" where
  "c_kind = c_enum [PaymentKind.Onchain, PaymentKind.Invoice, PaymentKind.Spontaneous]"

definition c_direction :: "PaymentDirection codec" where
  "c_direction = c_enum [PaymentDirection.Inbound, PaymentDirection.Outbound]"

definition c_status :: "PaymentStatus codec" where
  "c_status = c_enum [PaymentStatus.Pending, PaymentStatus.Completed, PaymentStatus.Failed]"

definition c_basic :: "BasicPayment codec" where
  "c_basic = c_map
     (\<lambda>p. (bp_index p, bp_kind p, bp_direction p, bp_invoice p, bp_replacement p, bp_amount p, bp_fees p,
       bp_status p, bp_status_str p, bp_note p, bp_finalized_at p))
     (\<lambda>(idx, kind, direction, invoice, replacement, amount, fees, status, status_str, n, fin).
       \<lparr>bp_index = idx, bp_kind = kind, bp_direction = direction, bp_invoice = invoice,
        bp_replacement = replacement, bp_amount = amount, bp_fees = fees, bp_status = status,
        bp_status_str = status_str, bp_note = n, bp_finalized_at = fin\<rparr>)
     (c_pair c_index (c_pair c_kind (c_pair c_direction (c_pair (c_option c_invoice) (c_pair (c_option c_txid)
       (c_pair (c_option c_amount) (c_pair c_amount (c_pair c_status (c_pair c_string
       (c_pair (c_option c_string) (c_option c_time)))))))))))"

lemma lossless_index: "lossless c_index"
  unfolding c_index_def
proof (intro lossless_map codec_intros)
  fix i show "id_unparts (id_parts i) = i" by (cases i) simp_all
qed simp

lemma lossless_kinds: "lossless c_kind" "lossless c_direction" "lossless c_status"
  unfolding c_kind_def c_direction_def c_status_def
  by (rule lossless_enum, rename_tac x, case_tac x; simp)+

lemma lossless_basic: "lossless c_basic"
  unfolding c_basic_def by (intro lossless_map codec_intros lossless_index lossless_kinds) simp

definition basic_codec :: basic_json where
  "basic_codec = \<lparr>bj_to_vec = fst c_basic, bj_from_slice = (\<lambda>b. map_option fst (snd c_basic b))\<rparr>"

lemma basic_codec_lossless: "bj_from_slice basic_codec (bj_to_vec basic_codec p) = Some p"
proof -
  have "snd c_basic (fst c_basic p @ []) = Some (p, [])"
    using lossless_basic unfolding lossless_def by blast
  then show ?thesis by (simp add: basic_codec_def)
qed

definition example_app :: "(u32 list, flat_dir) app_lib" where
  "example_app = \<lparr>al_invoice = unary_lib, al_txid = reverse_hex_lib, al_json = basic_codec,
     al_bitmap = list_roaring, al_ffs = flat_file_fs\<rparr>"

abbreviation dir_files :: "flat_dir \<Rightarrow> string \<rightharpoonup> bytes" where
  "dir_files f \<equiv> map_of (fd_entries f)"

text \<open>A directory on which no write will fail.\<close>

definition sound_dir :: "flat_dir \<Rightarrow> bool" where
  "sound_dir f \<longleftrightarrow> fd_ok f \<and> fd_fates f = []"

lemma sound_dir_next: "fd_fates f = [] \<Longrightarrow> next_fate f = (Succeeds, [])"
  by (simp add: next_fate_def)

interpretation sound_disk: flat_files flat_file_fs dir_files sound_dir
proof
  fix f n assume "sound_dir f"
  then show "ffs_read flat_file_fs n f = (case dir_files f n of Some d \<Rightarrow> Inr d | None \<Rightarrow> Inl NotFound)"
    using flat_dir.read by (simp add: sound_dir_def)
next
  fix f assume "sound_dir f"
  then show "set (ffs_read_dir flat_file_fs f) = dom (dir_files f) \<and> distinct (ffs_read_dir flat_file_fs f)"
    using flat_dir.read_dir by (simp add: sound_dir_def)
next
  fix f f' n d u assume "sound_dir f" "ffs_write flat_file_fs n d f = (Inr u, f')"
  then show "sound_dir f' \<and> dir_files f' = (dir_files f)(n \<mapsto> d)"
    by (auto simp: sound_dir_def flat_file_fs_def ff_write_def sound_dir_next fd_ok_def put_file_distinct map_of_put_file)
next
  fix f f' n d e assume "sound_dir f" "ffs_write flat_file_fs n d f = (Inl e, f')"
  then show "sound_dir f' \<and> (\<forall>m. m \<noteq> n \<longrightarrow> dir_files f' m = dir_files f m)"
    by (auto simp: sound_dir_def flat_file_fs_def ff_write_def sound_dir_next)
next
  fix f f' u assume "sound_dir f" "ffs_delete_all flat_file_fs f = (Inr u, f')"
  then show "sound_dir f' \<and> dir_files f' = (\<lambda>_. None)"
    by (auto simp: sound_dir_def flat_file_fs_def ff_delete_all_def sound_dir_next fd_ok_def)
next
  fix f f' n u assume "sound_dir f" "ffs_delete flat_file_fs n f = (Inr u, f')"
  then show "sound_dir f' \<and> dir_files f' = (dir_files f)(n := None)"
    by (auto simp: sound_dir_def flat_file_fs_def ff_delete_def sound_dir_next fd_ok_def map_of_filter_name
        distinct_map_filter split: if_splits)
qed

lemma example_app_db: "app_db example_app dir_files fd_ok" "app_db example_app dir_files sound_dir"
  by (rule app_db.intro; simp add: example_app_def list_roaring_lawful flat_dir.flat_files_axioms
      sound_disk.flat_files_axioms basic_codec_lossless reverse_hex.bitcoin_txid_axioms)+

interpretation example_db: app_db example_app dir_files fd_ok
  by (rule example_app_db(1))

section \<open>Runs of the database\<close>

text \<open>
  Successful operations, restarts included.  An update is one that the index maintenance provides
  for, and a change of note must not turn junk into something else or the other way round.
\<close>

inductive db_step :: "('b, 'f) app_lib \<Rightarrow> ('b, 'f) PaymentDb \<Rightarrow> ('b, 'f) PaymentDb \<Rightarrow> bool" for lib where
  insert: "\<forall>p \<in> set ps. index_valid (bp_index p) \<Longrightarrow> length (payments (db_state db)) + length ps \<le> 2 ^ 32 \<Longrightarrow>
    insert_new_payments lib ps db = (Inr u, db') \<Longrightarrow> db_step lib db db'"
| update: "i < length (payments (db_state db)) \<Longrightarrow> bp_index (payments (db_state db) ! i) = bp_index p \<Longrightarrow>
    handled_update (al_invoice lib) (payments (db_state db) ! i) p \<Longrightarrow>
    update_pending_payment lib p db = (Inr n, db') \<Longrightarrow> db_step lib db db'"
| set_note: "\<forall>q \<in> set (payments (db_state db)). bp_index q = idx \<longrightarrow>
      is_junk (al_invoice lib) (q\<lparr>bp_note := msg\<rparr>) = is_junk (al_invoice lib) q \<Longrightarrow>
    app_update_payment_note lib idx msg db = (Inr u, db') \<Longrightarrow> db_step lib db db'"
| delete: "db_delete lib db = (Inr u, db') \<Longrightarrow> db_step lib db db'"
| restart: "db_read lib (db_ffs db) = Inr db' \<Longrightarrow> db_step lib db db'"

context app_db
begin

lemma empty_state_inv: "state_inv lib (state_empty lib)"
  by (simp add: state_inv_def state_empty_def indexes_ok_def sorted_payments_wrt positions_def bm.iter_new)

lemma reload:
  assumes "db_ok db"
  shows "\<exists>db'. db_read lib (db_ffs db) = Inr db' \<and> db_ok db' \<and> payments (db_state db') = payments (db_state db)"
proof -
  have "fok (db_ffs db)" "disk_inv lib (files (db_ffs db)) (payments (db_state db))"
    "sorted_payments (payments (db_state db))" "length (payments (db_state db)) \<le> 2 ^ 32"
    using assms by (auto simp: app_db_ok_def state_inv_def)
  from read_back [OF this] this show ?thesis by (auto simp: db_read_def app_db_ok_def)
qed

lemma db_step_ok: "db_step lib db db' \<Longrightarrow> db_ok db \<Longrightarrow> db_ok db'"
proof (induction rule: db_step.induct)
  case (insert ps db u db')
  then show ?case using insert_new_payments_ok by blast
next
  case (update i db p n db')
  then show ?case using update_pending_payment_ok by blast
next
  case (set_note db idx msg u db')
  then show ?case using update_note_ok by blast
next
  case (delete db u db')
  then obtain v f where f: "ffs_delete_all (al_ffs lib) (db_ffs db) = (Inr v, f)"
    and db': "db' = \<lparr>db_ffs = f, db_state = state_empty lib\<rparr>"
    by (auto simp: db_delete_def result_simps split: prod.splits)
  have "fok (db_ffs db)" using delete.prems by (simp add: app_db_ok_def)
  from fs.delete_all_ok [OF this f] empty_state_inv show ?case
    by (simp add: db' app_db_ok_def disk_inv_def state_empty_def)
next
  case (restart db db')
  then show ?case using reload [OF restart.prems] by auto
qed

lemma db_steps_ok: "(db_step lib)\<^sup>*\<^sup>* db db' \<Longrightarrow> db_ok db \<Longrightarrow> db_ok db'"
  by (induction rule: rtranclp_induct) (auto dest: db_step_ok)

lemma empty_ok:
  assumes "fok f" "\<forall>n \<in> dom (files f). \<not> is_ok (index_from_str (al_txid lib) n)"
  shows "db_ok (db_empty lib f)"
  using assms empty_state_inv by (simp add: app_db_ok_def db_empty_def disk_inv_def state_empty_def)

end


definition empty_dir :: flat_dir where
  "empty_dir = \<lparr>fd_entries = [], fd_fates = []\<rparr>"

definition example_bp :: BasicPayment where
  "example_bp = \<lparr>bp_index = example_index 5 1, bp_kind = PaymentKind.Invoice, bp_direction = PaymentDirection.Inbound,
     bp_invoice = None, bp_replacement = None, bp_amount = None, bp_fees = amount_zero,
     bp_status = PaymentStatus.Pending, bp_status_str = ''invoice generated'', bp_note = Some ''coffee'',
     bp_finalized_at = None\<rparr>"

lemma example_bp_valid: "index_valid (bp_index example_bp)"
  by (simp add: example_bp_def example_index_valid i64_max_def)

definition example_bp_db :: "(u32 list, flat_dir) PaymentDb" where
  "example_bp_db = snd (insert_new_payments example_app [example_bp] (db_empty example_app empty_dir))"

lemma empty_dir_ok: "fd_ok empty_dir" "sound_dir empty_dir" "dom (dir_files empty_dir) = {}"
  by (simp_all add: fd_ok_def sound_dir_def empty_dir_def)

lemma example_insert:
  "insert_new_payments example_app [example_bp] (db_empty example_app empty_dir) = (Inr (), example_bp_db)"
  "payments (db_state example_bp_db) = [example_bp]"
proof -
  have "\<exists>db. insert_new_payments example_app [example_bp] (db_empty example_app empty_dir) = (Inr (), db) \<and>
      payments (db_state db) = [example_bp]"
    by (simp add: insert_new_payments_def is_strict_total_order_by_key_def option_less_def latest_payment_index_def
        db_empty_def state_empty_def example_app_def list_roaring_def index_add_def write_payment_def
        flat_file_fs_def ff_write_def next_fate_def empty_dir_def num_payments_def Let_def)
  then show "insert_new_payments example_app [example_bp] (db_empty example_app empty_dir) = (Inr (), example_bp_db)"
    "payments (db_state example_bp_db) = [example_bp]"
    by (auto simp: example_bp_db_def)
qed

lemma example_db_steps: "(db_step example_app)\<^sup>*\<^sup>* (db_empty example_app empty_dir) example_bp_db"
  using db_step.insert [OF _ _ example_insert(1)] example_bp_valid
  by (intro r_into_rtranclp) (simp add: db_empty_def state_empty_def)


lemma example_db_ok:
  "app_db_ok example_app dir_files fd_ok example_bp_db" "app_db_ok example_app dir_files sound_dir example_bp_db"
  using app_db.db_steps_ok [OF example_app_db(1) example_db_steps app_db.empty_ok [OF example_app_db(1)]]
    app_db.db_steps_ok [OF example_app_db(2) example_db_steps app_db.empty_ok [OF example_app_db(2)]] empty_dir_ok
  by simp_all

section \<open>Lists in the user interface\<close>

text \<open>C4: In a database whose invariants hold, each of the scroll accessors returns, with its position in the
  vector, the requested payment of the corresponding list in reverse order (newest first), nothing
  when there are fewer, and never panics.  For the finalized payments, which have no index of their
  own, this is the correctness of the rank computation on the pending index.  A binary search by
  index finds a payment exactly when it is there.\<close>

theorem app_scroll_correct:
  assumes "app_db lib files fok" and "state_inv lib st" and "length (payments st) < 2 ^ 32"
  shows "get_payment_by_scroll_idx st i = vec_get (rev (enumerate 0 (payments st))) i \<and>
    get_pending_payment_by_scroll_idx lib st i =
      Some (vec_get (rev (filter (\<lambda>(_, p). is_pending p) (enumerate 0 (payments st)))) i) \<and>
    get_pending_not_junk_payment_by_scroll_idx lib st i =
      Some (vec_get (rev (filter (\<lambda>(_, p). is_pending_not_junk (al_invoice lib) p) (enumerate 0 (payments st)))) i) \<and>
    get_finalized_not_junk_payment_by_scroll_idx lib st i =
      Some (vec_get (rev (filter (\<lambda>(_, p). is_finalized_not_junk (al_invoice lib) p) (enumerate 0 (payments st)))) i) \<and>
    get_finalized_payment_by_scroll_idx lib st i =
      Some (vec_get (rev (filter (\<lambda>(_, p). is_finalized p) (enumerate 0 (payments st)))) i) \<and>
    (get_vec_idx_by_payment_index st idx = Some j \<longleftrightarrow> j < length (payments st) \<and> bp_index (payments st ! j) = idx)"
proof (intro conjI)
  have idx: "set (rb_iter (al_bitmap lib) (st_pending st)) = positions is_pending (payments st)"
    "set (rb_iter (al_bitmap lib) (pending_not_junk st)) = positions (is_pending_not_junk (al_invoice lib)) (payments st)"
    "set (rb_iter (al_bitmap lib) (finalized_not_junk st)) = positions (is_finalized_not_junk (al_invoice lib)) (payments st)"
    using assms(2) by (auto simp: state_inv_def indexes_ok_def)
  note select = app_db.select_scroll_ok [OF assms(1) _ assms(3)]
  show "get_payment_by_scroll_idx st i = vec_get (rev (enumerate 0 (payments st))) i"
    by (auto simp: get_payment_by_scroll_idx_def vec_get_def num_payments_def Let_def rev_nth nth_enumerate_eq)
  show "get_pending_payment_by_scroll_idx lib st i =
      Some (vec_get (rev (filter (\<lambda>(_, p). is_pending p) (enumerate 0 (payments st)))) i)"
    unfolding get_pending_payment_by_scroll_idx_def by (rule select [OF idx(1)])
  show "get_pending_not_junk_payment_by_scroll_idx lib st i =
      Some (vec_get (rev (filter (\<lambda>(_, p). is_pending_not_junk (al_invoice lib) p) (enumerate 0 (payments st)))) i)"
    unfolding get_pending_not_junk_payment_by_scroll_idx_def by (rule select [OF idx(2)])
  show "get_finalized_not_junk_payment_by_scroll_idx lib st i =
      Some (vec_get (rev (filter (\<lambda>(_, p). is_finalized_not_junk (al_invoice lib) p) (enumerate 0 (payments st)))) i)"
    unfolding get_finalized_not_junk_payment_by_scroll_idx_def by (rule select [OF idx(3)])
  show "get_finalized_payment_by_scroll_idx lib st i =
      Some (vec_get (rev (filter (\<lambda>(_, p). is_finalized p) (enumerate 0 (payments st)))) i)"
    by (rule app_db.finalized_scroll_ok [OF assms])
  show "get_vec_idx_by_payment_index st idx = Some j \<longleftrightarrow> j < length (payments st) \<and> bp_index (payments st ! j) = idx"
    using assms(2) by (intro find_by_index) (simp add: state_inv_def)
qed

theorem app_scroll_correct_witness:
  "get_pending_payment_by_scroll_idx example_app (db_state example_bp_db) 0 = Some (Some (0, example_bp)) \<and>
   get_finalized_payment_by_scroll_idx example_app (db_state example_bp_db) 0 = Some None"
proof -
  have inv: "state_inv example_app (db_state example_bp_db)" using example_db_ok(1) by (simp add: app_db_ok_def)
  have len: "length (payments (db_state example_bp_db)) < 2 ^ 32" by (simp add: example_insert(2))
  have "is_pending example_bp" by (simp add: example_bp_def is_pending_def)
  then show ?thesis
    using app_scroll_correct [OF example_app_db(1) inv len, where i = 0]
    by (simp add: example_insert(2) vec_get_def is_finalized_def)
qed

section \<open>Synchronisation with a node\<close>

lemma app_sync_node:
  assumes "app_db lib files fok" and "\<forall>f name d. fok f \<longrightarrow> fst (ffs_write (al_ffs lib) name d f) = Inr ()"
    and "node_store nc rng" and "decimal_laws ops" and "mock_ok nc b" and "token (mb_draws b) = Inr ()"
    and "al_txid lib = nc_txid nc" and "length (mb_payments b) \<le> 2 ^ 32"
  shows "app_sync lib files fok (node_app_api nc ops (mock_api (nc_txid nc) rng token)) b (node_basics nc ops b)"
proof (intro app_sync.intro [OF assms(1)] app_sync_axioms.intro)
  note rows = node_store.basics_sorted [OF assms(3,4,5)]
  show "sorted_payments (node_basics nc ops b)" by (rule rows(1))
  show "distinct (map bp_payment_id (node_basics nc ops b))" by (rule rows(2))
  show "length (node_basics nc ops b) \<le> 2 ^ 32" using rows(4) assms(8) by simp
  show "index_valid (bp_index p)" if "p \<in> set (node_basics nc ops b)" for p using rows(3) [OF that] .
  show "\<exists>f'. ffs_write (al_ffs lib) name d f = (Inr (), f')" if "fok f" for f name d
    using assms(2) that by (metis prod.collapse)
  show "get_payments_by_ids (node_app_api nc ops (mock_api (nc_txid nc) rng token)) ids b =
      (Inr (filter (\<lambda>p. id_display (al_txid lib) (bp_payment_id p) \<in> set ids) (node_basics nc ops b)), b)" for ids
    using node_store.serves_by_ids [where token = token, OF assms(3,4,5,6)] assms(7) by simp
  show "get_new_payments (node_app_api nc ops (mock_api (nc_txid nc) rng token)) start (Some limit) b =
      (Inr (take (unat limit) (filter (\<lambda>p. option_less index_cmp start (bp_index p)) (node_basics nc ops b))), b)"
    if "unat limit \<le> 100" for limit start
    by (rule node_store.serves_new [where token = token, OF assms(3,4,5,6) that])
qed


lemma sound_dir_writes: "\<forall>f name d. sound_dir f \<longrightarrow> fst (ffs_write (al_ffs example_app) name d f) = Inr ()"
  by (simp add: example_app_def flat_file_fs_def ff_write_def sound_dir_def sound_dir_next)


section \<open>Where the indexes go wrong\<close>

lemma those_None: "x \<in> set xs \<Longrightarrow> f x = None \<Longrightarrow> those (map f xs) = None"
  by (induction xs) (auto split: option.split)

text \<open>C38: An update by which a pending junk payment becomes interesting while it is still pending, is accepted
  but not entered in the index of pending non-junk payments, so the invariant is broken; and the next
  update, by which the payment is finalized, panics.\<close>

theorem revived_junk_panics:
  assumes "app_db lib files fok" and "app_db_ok lib files fok db" and "i < length (payments (db_state db))"
    and "is_junk (al_invoice lib) (payments (db_state db) ! i)" and "is_pending (payments (db_state db) ! i)"
    and "bp_index p = bp_index (payments (db_state db) ! i)" and "is_pending_not_junk (al_invoice lib) p"
    and "update_pending_payment lib p db = (Inr n, db')"
    and "bp_index q = bp_index p" and "\<not> is_pending q" and "fst (write_payment lib q (db_ffs db')) = Inr ()"
  shows "\<not> state_inv lib (db_state db') \<and> fst (update_pending_payment lib q db') = Inl Panics"
proof -
  let ?st = "db_state db" and ?ps = "payments (db_state db)" and ?rb = "al_bitmap lib"
  have bm: "roaring_bitmap ?rb" using assms(1) by (simp add: app_db_def)
  have inv: "sorted_payments ?ps" "length ?ps \<le> 2 ^ 32" "indexes_ok lib ?st ?ps"
    using assms(2) by (auto simp: app_db_ok_def state_inv_def)
  have find: "get_vec_idx_by_payment_index ?st (bp_index p) = Some i"
    using assms(3,6) by (simp add: find_by_index [OF inv(1)])
  have p: "is_pending p" "\<not> is_finalized_not_junk (al_invoice lib) p" "\<not> is_pending_not_junk (al_invoice lib) (?ps ! i)"
    "p \<noteq> ?ps ! i"
    using assms(4,7) by (auto simp: is_pending_not_junk_def is_finalized_not_junk_def is_finalized_def)
  obtain f where db': "db' = \<lparr>db_ffs = f, db_state = ?st\<lparr>payments := ?ps[i := p]\<rparr>\<rparr>"
    using assms(8) p by (auto simp: update_pending_payment_def find index_del_def index_add_def Let_def split: prod.splits sum.splits)
  have gone: "of_nat i \<notin> set (rb_iter ?rb (pending_not_junk ?st))"
    using inv assms(3) p(3) by (simp add: indexes_ok_def positions_mem)
  have "of_nat i \<in> positions (is_pending_not_junk (al_invoice lib)) (?ps[i := p])"
    using assms(3,7) inv(2) by (simp add: positions_mem)
  with gone have broken: "\<not> state_inv lib (db_state db')"
    by (auto simp: db' state_inv_def indexes_ok_def)
  have "sorted_payments (?ps[i := p])" using sorted_payments_update [OF inv(1) assms(3,6)] .
  then have find': "get_vec_idx_by_payment_index (db_state db') (bp_index q) = Some i"
    using assms(3,9) by (simp add: find_by_index db')
  have "fst (rb_remove ?rb (of_nat i) (st_pending ?st))" "\<not> fst (rb_remove ?rb (of_nat i) (pending_not_junk ?st))"
    using inv assms(3,5) gone roaring_bitmap.remove_result [OF bm] by (simp_all add: indexes_ok_def positions_mem)
  moreover have "\<not> is_pending_not_junk (al_invoice lib) q" "q \<noteq> p"
    using assms(10) p(1) by (auto simp: is_pending_not_junk_def)
  ultimately have "fst (update_pending_payment lib q db') = Inl Panics"
    using assms(3,7,10,11) p(1)
    by (cases "write_payment lib q (db_ffs db')")
      (simp add: update_pending_payment_def find' index_del_def Let_def case_prod_beta, simp add: db')
  with broken show ?thesis by blast
qed

definition revived_bp :: BasicPayment where
  "revived_bp = example_bp\<lparr>bp_amount := Some amount_zero\<rparr>"

definition finalized_bp :: BasicPayment where
  "finalized_bp = revived_bp\<lparr>bp_status := PaymentStatus.Completed\<rparr>"

lemma sound_write:
  assumes "sound_dir (db_ffs db)"
  obtains f where "write_payment example_app p (db_ffs db) = (Inr (), f)" and "sound_dir f"
  using assms
  by (auto simp: write_payment_def example_app_def flat_file_fs_def ff_write_def sound_dir_def sound_dir_next
      fd_ok_def put_file_distinct)

theorem revived_junk_panics_witness:
  "\<exists>db'. update_pending_payment example_app revived_bp example_bp_db = (Inr 1, db') \<and>
    \<not> state_inv example_app (db_state db') \<and>
    fst (update_pending_payment example_app finalized_bp db') = Inl Panics"
proof -
  have sound: "sound_dir (db_ffs example_bp_db)" using example_db_ok(2) by (simp add: app_db_ok_def)
  obtain f where w: "write_payment example_app revived_bp (db_ffs example_bp_db) = (Inr (), f)" "sound_dir f"
    using sound_write [OF sound] by blast
  have "sorted_payments (payments (db_state example_bp_db))"
    using example_db_ok(2) by (simp add: app_db_ok_def state_inv_def)
  then have "get_vec_idx_by_payment_index (db_state example_bp_db) (bp_index revived_bp) = Some 0"
    by (simp add: find_by_index example_insert(2) revived_bp_def)
  moreover have junk: "is_junk unary_lib example_bp" "is_pending example_bp" "is_pending revived_bp"
    "is_pending_not_junk unary_lib revived_bp" "revived_bp \<noteq> example_bp" "\<not> is_finalized_not_junk unary_lib revived_bp"
    by (simp_all add: example_bp_def revived_bp_def is_junk_def is_pending_def is_pending_not_junk_def
        note_or_description_def is_finalized_not_junk_def is_finalized_def)
  moreover have lib: "al_invoice example_app = unary_lib" by (simp add: example_app_def)
  ultimately obtain db' where upd: "update_pending_payment example_app revived_bp example_bp_db = (Inr 1, db')"
    and db': "db_ffs db' = f"
    by (auto simp: update_pending_payment_def example_insert(2) w index_del_def index_add_def
        is_pending_not_junk_def)
  have q: "bp_index finalized_bp = bp_index revived_bp" "\<not> is_pending finalized_bp"
    by (simp_all add: finalized_bp_def is_pending_def)
  have "sound_dir (db_ffs db')" using w(2) db' by simp
  then obtain f' where "write_payment example_app finalized_bp (db_ffs db') = (Inr (), f')"
    using sound_write by blast
  then have w': "fst (write_payment example_app finalized_bp (db_ffs db')) = Inr ()" by simp
  have "\<not> state_inv example_app (db_state db') \<and> fst (update_pending_payment example_app finalized_bp db') = Inl Panics"
    by (rule revived_junk_panics [OF example_app_db(2) example_db_ok(2) _ _ _ _ _ upd q w', where i = 0])
      (use junk lib in \<open>simp_all add: example_insert(2) revived_bp_def\<close>)
  with upd show ?thesis by blast
qed

text \<open>The node produces such an update: an inbound invoice without an amount is junk to the app for as long
  as it is unpaid, whatever its description, and once it is being claimed the payment is still
  pending, has an amount and is no longer junk.\<close>

theorem claiming_revives_junk:
  assumes "iip_check_payment_claimable lib clock hash secret pre amount iip = Inr iip'"
    and "iip_invoice_amount iip = None" and "iip_recvd_amount iip = None"
    and "description_str lib (iip_invoice iip) \<noteq> None"
    and "basic_payment ops (InboundInvoice iip) = Some p" and "basic_payment ops (InboundInvoice iip') = Some q"
  shows "is_junk lib p \<and> is_pending p \<and> bp_index q = bp_index p \<and> is_pending_not_junk lib q \<and>
    \<not> handled_update lib p q"
proof -
  from assms(1) have iip': "iip' = iip\<lparr>iip_recvd_amount := Some amount, iip_status := InboundInvoicePaymentStatus.Claiming\<rparr>"
    and st: "iip_payment_status (iip_status iip) = PaymentStatus.Pending"
    by (auto simp: iip_check_payment_claimable_def Let_def split: InboundInvoicePaymentStatus.splits)
  have p: "bp_kind p = PaymentKind.Invoice" "bp_direction p = PaymentDirection.Inbound" "bp_amount p = None"
    "bp_status p = PaymentStatus.Pending" "bp_index p = payment_index (InboundInvoice iip)"
    using assms(2,3,5) st by (auto simp: basic_payment_def)
  have q: "bp_amount q = Some amount" "bp_status q = PaymentStatus.Pending" "bp_index q = payment_index (InboundInvoice iip')"
    "bp_invoice q = Some (iip_invoice iip)"
    using assms(6) iip' by (auto simp: basic_payment_def)
  have "note_or_description lib q \<noteq> None"
    using q(4) assms(4) by (auto simp: note_or_description_def split: option.splits)
  then have "is_pending_not_junk lib q"
    using q by (auto simp: is_pending_not_junk_def is_junk_def is_pending_def)
  moreover have "is_junk lib p" "is_pending p" using p by (simp_all add: is_junk_def is_pending_def)
  moreover have "bp_index q = bp_index p" using p(5) q(3) iip' by (simp add: payment_index_def iip_id_def)
  ultimately show ?thesis by (auto simp: handled_update_def is_pending_not_junk_def)
qed

theorem claiming_revives_junk_witness:
  "\<exists>p q. basic_payment exact_ops (InboundInvoice example_iip) = Some p \<and> is_junk unary_lib p \<and>
    basic_payment exact_ops (InboundInvoice (example_iip\<lparr>iip_recvd_amount := Some amount_zero,
      iip_status := InboundInvoicePaymentStatus.Claiming\<rparr>)) = Some q \<and> is_pending_not_junk unary_lib q"
proof -
  obtain p where p: "basic_payment exact_ops (InboundInvoice example_iip) = Some p"
    using basic_payment_total [OF exact_ops_lawful] by blast
  let ?iip' = "example_iip\<lparr>iip_recvd_amount := Some amount_zero, iip_status := InboundInvoicePaymentStatus.Claiming\<rparr>"
  obtain q where q: "basic_payment exact_ops (InboundInvoice ?iip') = Some q"
    using basic_payment_total [OF exact_ops_lawful] by blast
  have "iip_check_payment_claimable unary_lib 0 (LxPaymentHash [1]) (LxPaymentSecret [2]) (LxPaymentPreimage [4])
      amount_zero example_iip = Inr ?iip'"
    by (simp add: iip_claimable_ok example_iip_def unary_lib_def invoice_is_expired_def)
  from claiming_revives_junk [OF this _ _ _ p q] p q show ?thesis
    by (auto simp: example_iip_def description_str_def unary_lib_def)
qed

text \<open>C39: When writing a new pending payment fails, the payment is left behind in the in-memory index: the
  invariant is broken, listing the pending payments for the next synchronisation is out of bounds,
  and inserting the payment again is refused although it is not there.\<close>

theorem failed_insert_corrupts:
  assumes "app_db lib files fok" and "app_db_ok lib files fok db" and "length (payments (db_state db)) < 2 ^ 32"
    and "is_pending p" and "insert_new_payments lib [p] db = (Inl (Io e), db')"
  shows "\<not> state_inv lib (db_state db') \<and> payments (db_state db') = payments (db_state db) \<and>
    pending_ids lib (db_state db') = None \<and> fst (insert_new_payments lib [p] db') = Inl AlreadyInPending"
proof -
  let ?ps = "payments (db_state db)" and ?rb = "al_bitmap lib"
  have bm: "roaring_bitmap ?rb" using assms(1) by (simp add: app_db_def)
  have idx: "indexes_ok lib (db_state db) ?ps" using assms(2) by (simp add: app_db_ok_def state_inv_def)
  have newer: "option_less index_cmp (latest_payment_index (db_state db)) (bp_index p)"
    and loop: "insert_loop lib (of_nat (length ?ps)) [p] db = (Inl (Io e), db')"
    using assms(5)
    by (auto simp: insert_new_payments_def num_payments_def is_strict_total_order_by_key_def
        split: if_splits prod.splits sum.splits)
  obtain r f where w: "write_payment lib p (db_ffs db) = (r, f)" by force
  obtain st where "insert_loop lib (of_nat (length ?ps)) [p] db =
      (case r of Inl e \<Rightarrow> (Inl (Io e), \<lparr>db_ffs = f, db_state = st\<rparr>)
       | Inr _ \<Rightarrow> insert_loop lib (of_nat (length (?ps @ [p]))) [] \<lparr>db_ffs = f, db_state = st\<rparr>)"
    and st: "indexes_ok lib st (?ps @ [p])" "payments st = ?ps"
    using app_db.insert_loop_step [OF assms(1) idx assms(3) w] by blast
  with loop have db': "db_state db' = st" by (cases r) auto
  have mem: "of_nat (length ?ps) \<in> set (rb_iter ?rb (st_pending st))"
    using st(1) assms(4) by (simp add: indexes_ok_def positions_append)
  have "of_nat (length ?ps) \<notin> positions is_pending ?ps" by (rule app_db.positions_fresh [OF assms(1,3)])
  with mem have broken: "\<not> state_inv lib st" by (auto simp: state_inv_def indexes_ok_def st(2))
  have "unat (of_nat (length ?ps) :: u32) = length ?ps" using assms(3) by (simp add: unat_of_nat)
  then have no_ids: "pending_ids lib st = None"
    using mem unfolding pending_ids_def
    by (intro those_None [where x = "of_nat (length ?ps)"]) (simp_all add: vec_get_def st(2))
  have "\<not> fst (rb_insert ?rb (of_nat (length ?ps)) (st_pending st))"
    using mem roaring_bitmap.insert_result [OF bm] by simp
  moreover have "latest_payment_index st = latest_payment_index (db_state db)"
    by (simp add: latest_payment_index_def st(2))
  ultimately have "fst (insert_new_payments lib [p] db') = Inl AlreadyInPending"
    using newer assms(4)
    by (simp add: insert_new_payments_def is_strict_total_order_by_key_def num_payments_def db' st(2)
        index_add_def Let_def case_prod_beta)
  then show ?thesis using broken no_ids by (simp add: db' st(2))
qed

definition full_dir :: flat_dir where
  "full_dir = \<lparr>fd_entries = [], fd_fates = [FailsUntouched]\<rparr>"

lemma failing_insert:
  "\<exists>db'. insert_new_payments example_app [example_bp] (db_empty example_app full_dir) = (Inl (Io WriteFailed), db')"
  by (simp add: insert_new_payments_def is_strict_total_order_by_key_def option_less_def latest_payment_index_def
      db_empty_def state_empty_def example_app_def list_roaring_def index_add_def write_payment_def
      flat_file_fs_def ff_write_def next_fate_def full_dir_def num_payments_def Let_def)

theorem failed_insert_corrupts_witness:
  "\<exists>db'. insert_new_payments example_app [example_bp] (db_empty example_app full_dir) = (Inl (Io WriteFailed), db') \<and>
    \<not> state_inv example_app (db_state db') \<and> pending_ids example_app (db_state db') = None \<and>
    fst (insert_new_payments example_app [example_bp] db') = Inl AlreadyInPending"
proof -
  obtain db' where ins:
    "insert_new_payments example_app [example_bp] (db_empty example_app full_dir) = (Inl (Io WriteFailed), db')"
    using failing_insert by blast
  have "app_db_ok example_app dir_files fd_ok (db_empty example_app full_dir)"
    using app_db.empty_ok [OF example_app_db(1)] by (simp add: full_dir_def fd_ok_def)
  from failed_insert_corrupts [OF example_app_db(1) this _ _ ins] ins show ?thesis
    by (simp add: db_empty_def state_empty_def example_bp_def is_pending_def)
qed

end
