(* ===== verification/Uri.thy ===== *)
theory Uri
  imports Hex
begin

text \<open>
  The URI layer of \<^verbatim>\<open>payment-uri/src/lib.rs\<close>: \<^verbatim>\<open>Uri\<close> and \<^verbatim>\<open>UriParam\<close>, with what they use of the standard
  library's strings.  A \<^verbatim>\<open>str\<close> is a \<open>string\<close> of its UTF-8 bytes.  The \<^verbatim>\<open>percent_encoding\<close> crate is the
  parameter \<open>percent_lib\<close>; the locale \<open>percent_coding\<close> states what it documents, and is interpreted at
  the end on a straightforward implementation.
\<close>

section \<open>Strings\<close>

abbreviation char_code :: "char \<Rightarrow> nat" where "char_code c \<equiv> of_char c"

text \<open>Valid UTF-8, the invariant of \<^verbatim>\<open>str\<close>.\<close>

definition is_cont :: "char \<Rightarrow> bool" where
  "is_cont c \<longleftrightarrow> 128 \<le> char_code c \<and> char_code c < 192"

fun utf8_valid :: "string \<Rightarrow> bool" where
  "utf8_valid [] = True"
| "utf8_valid (a # s) =
     (let x = char_code a
      in if x < 128 then utf8_valid s
         else (case s of [] \<Rightarrow> False | b # s2 \<Rightarrow>
           if 194 \<le> x \<and> x \<le> 223 then is_cont b \<and> utf8_valid s2
           else (case s2 of [] \<Rightarrow> False | c # s3 \<Rightarrow>
             if 224 \<le> x \<and> x \<le> 239
             then is_cont b \<and> (x = 224 \<longrightarrow> 160 \<le> char_code b) \<and> (x = 237 \<longrightarrow> char_code b < 160) \<and>
                  is_cont c \<and> utf8_valid s3
             else (case s3 of [] \<Rightarrow> False | d # s4 \<Rightarrow>
               240 \<le> x \<and> x \<le> 244 \<and> is_cont b \<and> (x = 240 \<longrightarrow> 144 \<le> char_code b) \<and>
               (x = 244 \<longrightarrow> char_code b < 144) \<and> is_cont c \<and> is_cont d \<and> utf8_valid s4))))"

text \<open>The UTF-8 encodings of the \<^verbatim>\<open>White_Space\<close> characters, which \<^verbatim>\<open>str::trim\<close> strips at both ends.\<close>

definition white_space :: "string list" where
  "white_space = map (map char_of)
     (map (\<lambda>c. [c]) [9, 10, 11, 12, 13, 32 :: nat] @ [[194, 133], [194, 160], [225, 154, 128]] @
      map (\<lambda>c. [226, 128, c]) [128..<139] @ [[226, 128, 168], [226, 128, 169], [226, 128, 175], [226, 129, 159],
      [227, 128, 128]])"

fun strip_one :: "string list \<Rightarrow> string \<Rightarrow> string option" where
  "strip_one [] s = None"
| "strip_one (w # ws) s = (if w \<noteq> [] \<and> take (length w) s = w then Some (drop (length w) s) else strip_one ws s)"

lemma strip_one_length: "strip_one ws s = Some t \<Longrightarrow> length t < length s"
proof (induction ws)
  case (Cons w ws)
  show ?case
  proof (cases "w \<noteq> [] \<and> take (length w) s = w")
    case True
    then have "s \<noteq> []" by auto
    with True Cons.prems show ?thesis by auto
  qed (use Cons in auto)
qed simp

function strip_all :: "string list \<Rightarrow> string \<Rightarrow> string" where
  "strip_all ws s = (case strip_one ws s of None \<Rightarrow> s | Some t \<Rightarrow> strip_all ws t)"
  by auto
termination by (relation "measure (length \<circ> snd)") (auto dest: strip_one_length)

declare strip_all.simps [simp del]

definition trim :: "string \<Rightarrow> string" where
  "trim s = rev (strip_all (map rev white_space) (rev (strip_all white_space s)))"

fun split_once :: "char \<Rightarrow> string \<Rightarrow> (string \<times> string) option" where
  "split_once c [] = None"
| "split_once c (x # xs) = (if x = c then Some ([], xs) else map_option (\<lambda>(a, b). (x # a, b)) (split_once c xs))"

definition eq_ignore_ascii_case :: "string \<Rightarrow> string \<Rightarrow> bool" where
  "eq_ignore_ascii_case s t \<longleftrightarrow> to_ascii_lowercase s = to_ascii_lowercase t"

definition starts_with :: "string \<Rightarrow> string \<Rightarrow> bool" where
  "starts_with p s \<longleftrightarrow> take (length p) s = p"

definition is_alphanumeric :: "char \<Rightarrow> bool" where
  "is_alphanumeric c \<longleftrightarrow> (48 \<le> char_code c \<and> char_code c \<le> 57) \<or> (65 \<le> char_code c \<and> char_code c \<le> 90) \<or>
     (97 \<le> char_code c \<and> char_code c \<le> 122)"

definition is_graphic :: "char \<Rightarrow> bool" where
  "is_graphic c \<longleftrightarrow> 33 \<le> char_code c \<and> char_code c \<le> 126"

section \<open>Uri and UriParam\<close>

text \<open>
  \<open>percent_encode set s\<close> is \<^verbatim>\<open>utf8_percent_encode\<close>; \<open>percent_decode s\<close> is \<^verbatim>\<open>percent_decode_str\<close> followed by
  \<^verbatim>\<open>decode_utf8().ok()\<close>.
\<close>

record percent_lib =
  percent_encode :: "(char \<Rightarrow> bool) \<Rightarrow> string \<Rightarrow> string"
  percent_decode :: "string \<Rightarrow> string option"

record UriParam =
  param_key :: string
  param_value :: string

record Uri =
  uri_scheme :: string
  uri_body :: string
  uri_params :: "UriParam list"

definition PERCENT_ENCODE_ASCII_SET :: "char \<Rightarrow> bool" where
  "PERCENT_ENCODE_ASCII_SET c \<longleftrightarrow> \<not> is_alphanumeric c \<and> c \<notin> set ''-._~''"

definition uri_param_parse :: "percent_lib \<Rightarrow> string \<Rightarrow> UriParam option" where
  "uri_param_parse pl s =
     Option.bind (split_once (CHR ''='') s) (\<lambda>(k, v).
     Option.bind (percent_decode pl k) (\<lambda>k.
     Option.bind (percent_decode pl v) (\<lambda>v. Some \<lparr>param_key = k, param_value = v\<rparr>)))"

definition uri_parse :: "percent_lib \<Rightarrow> string \<Rightarrow> Uri option" where
  "uri_parse pl s =
     Option.bind (split_once (CHR '':'') s) (\<lambda>(scheme, rest).
       if length scheme > 12 then None
       else
         (let (body, rest) = (case split_once (CHR ''?'') rest of Some br \<Rightarrow> br | None \<Rightarrow> (rest, []))
          in Some \<lparr>uri_scheme = scheme, uri_body = body,
               uri_params = List.map_filter (uri_param_parse pl) (split_char (CHR ''&'') rest)\<rparr>))"

fun display_params :: "percent_lib \<Rightarrow> char \<Rightarrow> UriParam list \<Rightarrow> string" where
  "display_params pl sep [] = []"
| "display_params pl sep (p # ps) =
     sep # percent_encode pl PERCENT_ENCODE_ASCII_SET (param_key p) @ CHR ''='' #
     percent_encode pl PERCENT_ENCODE_ASCII_SET (param_value p) @ display_params pl (CHR ''&'') ps"

definition uri_display :: "percent_lib \<Rightarrow> Uri \<Rightarrow> string" where
  "uri_display pl u = uri_scheme u @ CHR '':'' # uri_body u @ display_params pl (CHR ''?'') (uri_params u)"

section \<open>Printing and parsing\<close>

lemma split_once_append: "c \<notin> set a \<Longrightarrow> split_once c (a @ c # b) = Some (a, b)"
  by (induction a) auto

lemma split_once_free: "c \<notin> set a \<Longrightarrow> split_once c a = None"
  by (induction a) auto

lemma strip_none: "\<forall>w \<in> set ws. take (length w) s \<noteq> w \<Longrightarrow> strip_all ws s = s"
proof -
  assume "\<forall>w \<in> set ws. take (length w) s \<noteq> w"
  then have "strip_one ws s = None" by (induction ws) auto
  then show ?thesis by (simp add: strip_all.simps)
qed

lemma white_space_ends: "w \<in> set white_space \<Longrightarrow> w \<noteq> [] \<and> \<not> is_graphic (hd w) \<and> \<not> is_graphic (last w)"
  by (auto simp: white_space_def is_graphic_def upt_rec)

lemma trim_graphic: "\<forall>c \<in> set s. is_graphic c \<Longrightarrow> trim s = s"
proof -
  assume graphic: "\<forall>c \<in> set s. is_graphic c"
  have *: "strip_all ws t = t" if "\<forall>w \<in> set ws. w \<noteq> [] \<and> \<not> is_graphic (hd w)" "\<forall>c \<in> set t. is_graphic c" for ws t
  proof (rule strip_none, intro ballI notI)
    fix w assume w: "w \<in> set ws" "take (length w) t = w"
    with that have "hd w \<in> set t" by (metis hd_in_set in_set_takeD)
    with that w(1) show False by blast
  qed
  have "strip_all white_space s = s" "strip_all (map rev white_space) (rev s) = rev s"
    by (rule *; use graphic white_space_ends in \<open>auto simp: hd_rev\<close>)+
  then show ?thesis by (simp add: trim_def)
qed

text \<open>What the crate documents: only ASCII characters outside the set and escapes are printed, and decoding
  inverts encoding.\<close>

locale percent_coding =
  fixes pl :: percent_lib
  assumes encode_chars: "c \<in> set (percent_encode pl S s) \<Longrightarrow>
      char_code c < 128 \<and> (\<not> S c \<or> c = CHR ''%'' \<or> is_alphanumeric c)"
    and decode_encode: "S (CHR ''%'') \<Longrightarrow> utf8_valid s \<Longrightarrow> percent_decode pl (percent_encode pl S s) = Some s"
begin

abbreviation enc :: "string \<Rightarrow> string" where "enc \<equiv> percent_encode pl PERCENT_ENCODE_ASCII_SET"

lemma set_has_percent: "PERCENT_ENCODE_ASCII_SET (CHR ''%'')"
  by (simp add: PERCENT_ENCODE_ASCII_SET_def is_alphanumeric_def)

lemma enc_chars: "c \<in> set (enc s) \<Longrightarrow> is_graphic c \<and> c \<noteq> CHR ''&'' \<and> c \<noteq> CHR ''=''"
  using encode_chars [of c PERCENT_ENCODE_ASCII_SET s]
  by (auto simp: PERCENT_ENCODE_ASCII_SET_def is_alphanumeric_def is_graphic_def)

lemma param_roundtrip:
  assumes "utf8_valid (param_key p)" and "utf8_valid (param_value p)"
  shows "uri_param_parse pl (enc (param_key p) @ CHR ''='' # enc (param_value p)) = Some p"
proof -
  have "split_once (CHR ''='') (enc (param_key p) @ CHR ''='' # enc (param_value p)) =
      Some (enc (param_key p), enc (param_value p))"
    using enc_chars by (intro split_once_append) blast
  then show ?thesis using decode_encode [where S = PERCENT_ENCODE_ASCII_SET, OF set_has_percent] assms by (simp add: uri_param_parse_def)
qed

lemma params_graphic: "is_graphic sep \<Longrightarrow> c \<in> set (display_params pl sep ps) \<Longrightarrow> is_graphic c"
proof (induction ps arbitrary: sep)
  case (Cons p ps)
  then show ?case using enc_chars Cons.IH [of "CHR ''&''"] by (auto simp: is_graphic_def)
qed simp

lemma params_roundtrip:
  assumes "\<forall>p \<in> set (p # ps). utf8_valid (param_key p) \<and> utf8_valid (param_value p)"
  shows "List.map_filter (uri_param_parse pl) (split_char (CHR ''&'') (tl (display_params pl sep (p # ps)))) = p # ps"
  using assms
proof (induction ps arbitrary: p sep)
  case Nil
  have "CHR ''&'' \<notin> set (enc (param_key p) @ CHR ''='' # enc (param_value p))" using enc_chars by auto
  then have "split_char (CHR ''&'') (enc (param_key p) @ CHR ''='' # enc (param_value p)) =
      [enc (param_key p) @ CHR ''='' # enc (param_value p)]" by (rule split_char_free)
  with Nil param_roundtrip show ?case by (simp add: List.map_filter_simps)
next
  case (Cons q ps)
  let ?e = "enc (param_key p) @ CHR ''='' # enc (param_value p)"
  have free: "CHR ''&'' \<notin> set ?e" using enc_chars by auto
  have "tl (display_params pl sep (p # q # ps)) = ?e @ CHR ''&'' # tl (display_params pl (CHR ''&'') (q # ps))"
    by simp
  then have "split_char (CHR ''&'') (tl (display_params pl sep (p # q # ps))) =
      ?e # split_char (CHR ''&'') (tl (display_params pl (CHR ''&'') (q # ps)))"
    using split_char_append [OF free] by metis
  moreover have "uri_param_parse pl ?e = Some p" using Cons.prems by (intro param_roundtrip) simp_all
  ultimately show ?case
    using Cons.IH [of q "CHR ''&''"] Cons.prems by (simp only: List.map_filter_simps option.case) simp
qed

lemma uri_roundtrip:
  assumes "CHR '':'' \<notin> set (uri_scheme u)" and "length (uri_scheme u) \<le> 12" and "CHR ''?'' \<notin> set (uri_body u)"
    and "\<forall>p \<in> set (uri_params u). utf8_valid (param_key p) \<and> utf8_valid (param_value p)"
  shows "uri_parse pl (uri_display pl u) = Some u"
proof -
  have scheme: "split_once (CHR '':'') (uri_display pl u) =
      Some (uri_scheme u, uri_body u @ display_params pl (CHR ''?'') (uri_params u))"
    using split_once_append [OF assms(1)] by (simp add: uri_display_def)
  show ?thesis
  proof (cases "uri_params u")
    case Nil
    have "uri_param_parse pl [] = None" by (simp add: uri_param_parse_def)
    with Nil scheme assms(2) show ?thesis
      by (simp add: uri_parse_def split_once_free [OF assms(3)] List.map_filter_simps)
  next
    case (Cons p ps)
    then have "split_once (CHR ''?'') (uri_body u @ display_params pl (CHR ''?'') (uri_params u)) =
        Some (uri_body u, tl (display_params pl (CHR ''?'') (p # ps)))"
      using split_once_append [OF assms(3)] by simp
    moreover note params_roundtrip [of p ps "CHR ''?''"]
    ultimately show ?thesis using scheme assms(2,4) Cons by (simp add: uri_parse_def)
  qed
qed

end

section \<open>An implementation of percent-encoding\<close>

definition hex_escape :: "char \<Rightarrow> string" where
  "hex_escape c = CHR ''%'' # map nibble_char [char_code c div 16, char_code c mod 16]"

definition simple_encode :: "(char \<Rightarrow> bool) \<Rightarrow> string \<Rightarrow> string" where
  "simple_encode S s = concat (map (\<lambda>c. if S c \<or> 128 \<le> char_code c then hex_escape c else [c]) s)"

fun simple_unescape :: "string \<Rightarrow> string" where
  "simple_unescape (p # a # b # s) =
     (case (decode_nibble (of_char a), decode_nibble (of_char b)) of
        (Inr x, Inr y) \<Rightarrow>
          if p = CHR ''%'' then char_of (16 * unat x + unat y) # simple_unescape s
          else p # simple_unescape (a # b # s)
      | _ \<Rightarrow> p # simple_unescape (a # b # s))"
| "simple_unescape s = s"

definition simple_percent :: percent_lib where
  "simple_percent =
     \<lparr>percent_encode = simple_encode,
      percent_decode = (\<lambda>s. if utf8_valid (simple_unescape s) then Some (simple_unescape s) else None)\<rparr>"

lemma char_code_less: "char_code c < 256"
  by (simp add: of_char_of [symmetric, where 'a = nat])

lemma unescape_plain: "c \<noteq> CHR ''%'' \<Longrightarrow> simple_unescape (c # s) = c # simple_unescape s"
proof (cases s)
  case (Cons a t)
  then show "c \<noteq> CHR ''%'' \<Longrightarrow> simple_unescape (c # s) = c # simple_unescape s"
    by (cases t) (auto split: sum.splits)
qed simp

lemma unescape_hex: "simple_unescape (hex_escape c @ s) = c # simple_unescape s"
proof -
  have n: "char_code c div 16 < 16" "char_code c mod 16 < 16"
    using char_code_less [of c] by (simp_all add: less_mult_imp_div_less)
  have "unat (of_nat (char_code c div 16) :: u8) = char_code c div 16"
    "unat (of_nat (char_code c mod 16) :: u8) = char_code c mod 16"
    using n by (simp_all add: unat_of_nat)
  then show ?thesis using n by (simp add: hex_escape_def decode_nibble_char)
qed

lemma unescape_encode: "S (CHR ''%'') \<Longrightarrow> simple_unescape (simple_encode S s) = s"
proof (induction s)
  case (Cons c s)
  then show ?case
    using unescape_plain [of c "simple_encode S s"] unescape_hex [of c "simple_encode S s"]
    by (auto simp: simple_encode_def)
qed (simp add: simple_encode_def)

lemma nibble_alphanumeric: "n < 16 \<Longrightarrow> is_alphanumeric (nibble_char n)"
  by (drule less_16_cases) (elim disjE; simp add: nibble_char_def is_alphanumeric_def)

lemma encode_chars_simple:
  assumes "c \<in> set (simple_encode S s)"
  shows "char_code c < 128 \<and> (\<not> S c \<or> c = CHR ''%'' \<or> is_alphanumeric c)"
proof -
  obtain d where "c \<in> set (if S d \<or> 128 \<le> char_code d then hex_escape d else [d])"
    using assms unfolding simple_encode_def set_concat set_map by blast
  moreover have "is_alphanumeric (nibble_char (char_code d div 16))" "is_alphanumeric (nibble_char (char_code d mod 16))"
    using char_code_less [of d] by (intro nibble_alphanumeric; simp add: less_mult_imp_div_less)+
  ultimately show ?thesis by (auto simp: hex_escape_def is_alphanumeric_def split: if_splits)
qed

interpretation simple_percent: percent_coding simple_percent
  by unfold_locales (use encode_chars_simple in \<open>auto simp: simple_percent_def unescape_encode\<close>)

end
