(* ===== verification/Payment_Uri.thy ===== *)
theory Payment_Uri
  imports Uri Invoice
begin

text \<open>
  \<^verbatim>\<open>payment-uri/src/lib.rs\<close>: decoding and printing payment codes, and picking the best way to pay, with
  \<^verbatim>\<open>Network\<close> (\<^verbatim>\<open>common/src/cli/mod.rs\<close>) and \<^verbatim>\<open>LxOffer\<close> (\<^verbatim>\<open>common/src/ln/offer.rs\<close>).  Bitcoin addresses,
  BOLT11 invoices and BOLT12 offers are parsed and printed by libraries: the parameter \<open>uri_lib\<close>.  A
  panic (of a decimal operator) is an outer \<open>None\<close>.
\<close>

section \<open>Network and LxOffer\<close>

datatype bitcoin_network = Bitcoin | Testnet | Signet | Regtest

datatype Network = Network (to_inner: bitcoin_network)

definition MAINNET :: Network where "MAINNET = Network Bitcoin"
definition TESTNET :: Network where "TESTNET = Network Testnet"
definition REGTEST :: Network where "REGTEST = Network Regtest"
definition SIGNET :: Network where "SIGNET = Network Signet"

definition network_to_str :: "Network \<Rightarrow> string" where
  "network_to_str n =
     (case to_inner n of Bitcoin \<Rightarrow> ''bitcoin'' | Testnet \<Rightarrow> ''testnet'' | Regtest \<Rightarrow> ''regtest'' | Signet \<Rightarrow> ''signet'')"

text \<open>An offer is its serialized bytes, which is what \<^verbatim>\<open>LxOffer\<close> compares; an address is its text.\<close>

datatype Offer = Offer bytes
datatype LxOffer = LxOffer (ldk_offer: Offer)
datatype Address = Address string

datatype offer_amount = BitcoinAmount u64 | CurrencyAmount string u64

record uri_lib =
  ul_percent :: percent_lib
  ul_invoice :: invoice_lib
  ul_decimal :: decimal_ops
  dec_to_string :: "Decimal \<Rightarrow> string"
  bolt11_from_str :: "string \<Rightarrow> Bolt11Invoice option"
  bolt11_to_string :: "Bolt11Invoice \<Rightarrow> string"
  bolt11_network :: "Bolt11Invoice \<Rightarrow> bitcoin_network"
  bolt11_fallback_addresses :: "Bolt11Invoice \<Rightarrow> Address list"
  bolt12_from_str :: "string \<Rightarrow> Offer option"
  bolt12_to_string :: "Offer \<Rightarrow> string"
  bolt12_supports_chain :: "Offer \<Rightarrow> bytes \<Rightarrow> bool"
  bolt12_amount :: "Offer \<Rightarrow> offer_amount option"
  bolt12_description :: "Offer \<Rightarrow> string"
  address_from_str :: "string \<Rightarrow> Address option"
  address_to_string :: "Address \<Rightarrow> string"
  is_valid_for_network :: "Address \<Rightarrow> bitcoin_network \<Rightarrow> bool"
  using_genesis_block :: "bitcoin_network \<Rightarrow> bytes"

definition genesis_chain_hash :: "uri_lib \<Rightarrow> Network \<Rightarrow> bytes" where
  "genesis_chain_hash lib n = using_genesis_block lib (to_inner n)"

definition offer_from_str :: "uri_lib \<Rightarrow> string \<Rightarrow> LxOffer option" where
  "offer_from_str lib s = map_option LxOffer (bolt12_from_str lib s)"

definition offer_display :: "uri_lib \<Rightarrow> LxOffer \<Rightarrow> string" where
  "offer_display lib x = bolt12_to_string lib (ldk_offer x)"

definition offer_supports_network :: "uri_lib \<Rightarrow> LxOffer \<Rightarrow> Network \<Rightarrow> bool" where
  "offer_supports_network lib x n = bolt12_supports_chain lib (ldk_offer x) (genesis_chain_hash lib n)"

definition offer_amount_of :: "uri_lib \<Rightarrow> LxOffer \<Rightarrow> Amount option option" where
  "offer_amount_of lib x =
     (case bolt12_amount lib (ldk_offer x) of
        Some (BitcoinAmount msats) \<Rightarrow> map_option Some (from_msat (ul_decimal lib) msats)
      | _ \<Rightarrow> Some None)"

definition offer_fiat_amount :: "uri_lib \<Rightarrow> LxOffer \<Rightarrow> (string \<times> u64) option" where
  "offer_fiat_amount lib x =
     (case bolt12_amount lib (ldk_offer x) of
        Some (CurrencyAmount iso4217_code amount) \<Rightarrow> Some (iso4217_code, amount)
      | _ \<Rightarrow> None)"

definition offer_description :: "uri_lib \<Rightarrow> LxOffer \<Rightarrow> string option" where
  "offer_description lib x = (let d = bolt12_description lib (ldk_offer x) in if d = [] then None else Some d)"

section \<open>LxInvoice as text\<close>

definition invoice_from_str :: "uri_lib \<Rightarrow> string \<Rightarrow> LxInvoice option" where
  "invoice_from_str lib s = map_option LxInvoice (bolt11_from_str lib s)"

definition invoice_display :: "uri_lib \<Rightarrow> LxInvoice \<Rightarrow> string" where
  "invoice_display lib i = bolt11_to_string lib (bolt11 i)"

definition invoice_network :: "uri_lib \<Rightarrow> LxInvoice \<Rightarrow> Network" where
  "invoice_network lib i = Network (bolt11_network lib (bolt11 i))"

definition invoice_supports_network :: "uri_lib \<Rightarrow> LxInvoice \<Rightarrow> Network \<Rightarrow> bool" where
  "invoice_supports_network lib i n \<longleftrightarrow> invoice_network lib i = n"

definition onchain_fallbacks :: "uri_lib \<Rightarrow> LxInvoice \<Rightarrow> Address list" where
  "onchain_fallbacks lib i = bolt11_fallback_addresses lib (bolt11 i)"

section \<open>Payment methods\<close>

record Onchain =
  oc_address :: Address
  oc_amount :: "Amount option"
  oc_label :: "string option"
  oc_message :: "string option"

datatype PaymentMethod = Onchain Onchain | Invoice LxInvoice | Offer LxOffer

definition is_onchain :: "PaymentMethod \<Rightarrow> bool" where
  "is_onchain m = (case m of PaymentMethod.Onchain _ \<Rightarrow> True | _ \<Rightarrow> False)"

definition is_invoice :: "PaymentMethod \<Rightarrow> bool" where
  "is_invoice m = (case m of PaymentMethod.Invoice _ \<Rightarrow> True | _ \<Rightarrow> False)"

definition is_offer :: "PaymentMethod \<Rightarrow> bool" where
  "is_offer m = (case m of PaymentMethod.Offer _ \<Rightarrow> True | _ \<Rightarrow> False)"

definition onchain_supports_network :: "uri_lib \<Rightarrow> Onchain \<Rightarrow> Network \<Rightarrow> bool" where
  "onchain_supports_network lib x n = is_valid_for_network lib (oc_address x) (to_inner n)"

definition supports_network :: "uri_lib \<Rightarrow> Network \<Rightarrow> PaymentMethod \<Rightarrow> bool" where
  "supports_network lib n m =
     (case m of
        PaymentMethod.Onchain x \<Rightarrow> onchain_supports_network lib x n
      | PaymentMethod.Invoice x \<Rightarrow> invoice_supports_network lib x n
      | PaymentMethod.Offer x \<Rightarrow> offer_supports_network lib x n)"

definition onchain_from_address :: "Address \<Rightarrow> Onchain" where
  "onchain_from_address a = \<lparr>oc_address = a, oc_amount = None, oc_label = None, oc_message = None\<rparr>"

definition parse_onchain_btc_amount :: "uri_lib \<Rightarrow> string \<Rightarrow> Amount option option" where
  "parse_onchain_btc_amount lib s =
     (case dec_from_str (ul_decimal lib) s of
        None \<Rightarrow> Some None
      | Some btc_decimal \<Rightarrow>
          map_option (\<lambda>r. map_option (round_sat (ul_decimal lib)) (ok r)) (try_from_btc (ul_decimal lib) btc_decimal))"

definition flatten_invoice_into :: "uri_lib \<Rightarrow> LxInvoice \<Rightarrow> PaymentMethod list \<Rightarrow> PaymentMethod list option" where
  "flatten_invoice_into lib i out =
     (case onchain_fallbacks lib i of
        [] \<Rightarrow> Some (out @ [PaymentMethod.Invoice i])
      | addrs \<Rightarrow>
          (let description = description_str (ul_invoice lib) i
           in map_option (\<lambda>amount.
                out @ map (\<lambda>a. PaymentMethod.Onchain
                  \<lparr>oc_address = a, oc_amount = amount, oc_label = None, oc_message = description\<rparr>) addrs @
                [PaymentMethod.Invoice i]) (invoice_amount (ul_invoice lib) (ul_decimal lib) i)))"

section \<open>LightningUri and Bip21Uri\<close>

record LightningUri =
  ln_invoice :: "LxInvoice option"
  ln_offer :: "LxOffer option"

record Bip21Uri =
  b21_onchain :: "Onchain option"
  b21_invoice :: "LxInvoice option"
  b21_offer :: "LxOffer option"

definition bip21_matches_scheme :: "string \<Rightarrow> bool" where
  "bip21_matches_scheme scheme = eq_ignore_ascii_case scheme ''bitcoin''"

definition lightning_matches_scheme :: "string \<Rightarrow> bool" where
  "lightning_matches_scheme scheme = eq_ignore_ascii_case scheme ''lightning''"

text \<open>The \<^verbatim>\<open>lightning\<close> parameter: an invoice if there is none yet, otherwise an offer if there is none yet.\<close>

definition lightning_param :: "uri_lib \<Rightarrow> string \<Rightarrow> LxInvoice option \<times> LxOffer option \<Rightarrow> LxInvoice option \<times> LxOffer option" where
  "lightning_param lib v out =
     (case out of (invoice, offer) \<Rightarrow>
        if invoice = None \<and> invoice_from_str lib v \<noteq> None then (invoice_from_str lib v, offer)
        else if offer = None \<and> offer_from_str lib v \<noteq> None then (invoice, offer_from_str lib v)
        else (invoice, offer))"

definition ln_param :: "uri_lib \<Rightarrow> UriParam \<Rightarrow> LxInvoice option \<times> LxOffer option \<Rightarrow> LxInvoice option \<times> LxOffer option" where
  "ln_param lib p out =
     (if param_key p = ''lightning'' \<and> (fst out = None \<or> snd out = None) then lightning_param lib (param_value p) out
      else if param_key p = ''b12'' \<and> snd out = None then (fst out, offer_from_str lib (param_value p))
      else out)"

definition bip21_param ::
    "uri_lib \<Rightarrow> UriParam \<Rightarrow> (LxInvoice option \<times> LxOffer option) \<times> bool \<Rightarrow> (LxInvoice option \<times> LxOffer option) \<times> bool" where
  "bip21_param lib p st =
     (case st of (out, skip_onchain) \<Rightarrow>
        if param_key p = ''lightning'' \<and> (fst out = None \<or> snd out = None)
        then (lightning_param lib (param_value p) out, skip_onchain)
        else if param_key p = ''b12'' \<and> snd out = None then ((fst out, offer_from_str lib (param_value p)), skip_onchain)
        else if starts_with ''req-'' (param_key p) then (out, True)
        else (out, skip_onchain))"

fun onchain_params :: "uri_lib \<Rightarrow> UriParam list \<Rightarrow> Onchain \<Rightarrow> Onchain option" where
  "onchain_params lib [] x = Some x"
| "onchain_params lib (p # ps) x =
     (if param_key p = ''amount'' \<and> oc_amount x = None then
        Option.bind (parse_onchain_btc_amount lib (param_value p)) (\<lambda>a. onchain_params lib ps (x\<lparr>oc_amount := a\<rparr>))
      else if param_key p = ''label'' \<and> oc_label x = None then onchain_params lib ps (x\<lparr>oc_label := Some (param_value p)\<rparr>)
      else if param_key p = ''message'' \<and> oc_message x = None
      then onchain_params lib ps (x\<lparr>oc_message := Some (param_value p)\<rparr>)
      else onchain_params lib ps x)"

definition bip21_parse_uri_inner :: "uri_lib \<Rightarrow> Uri \<Rightarrow> Bip21Uri option" where
  "bip21_parse_uri_inner lib uri =
     (case fold (bip21_param lib) (uri_params uri) ((None, None), False) of
        ((invoice, offer), skip_onchain) \<Rightarrow>
          (case (skip_onchain, address_from_str lib (uri_body uri)) of
             (False, Some address) \<Rightarrow>
               map_option (\<lambda>x. \<lparr>b21_onchain = Some x, b21_invoice = invoice, b21_offer = offer\<rparr>)
                 (onchain_params lib (uri_params uri) (onchain_from_address address))
           | _ \<Rightarrow> Some \<lparr>b21_onchain = None, b21_invoice = invoice, b21_offer = offer\<rparr>))"

definition bip21_parse_uri :: "uri_lib \<Rightarrow> Uri \<Rightarrow> Bip21Uri option option" where
  "bip21_parse_uri lib uri =
     (if \<not> bip21_matches_scheme (uri_scheme uri) then Some None
      else map_option Some (bip21_parse_uri_inner lib uri))"

definition bip21_parse :: "uri_lib \<Rightarrow> string \<Rightarrow> Bip21Uri option option" where
  "bip21_parse lib s =
     (case uri_parse (ul_percent lib) (trim s) of None \<Rightarrow> Some None | Some uri \<Rightarrow> bip21_parse_uri lib uri)"

definition opt_param :: "string \<Rightarrow> string option \<Rightarrow> UriParam list" where
  "opt_param k v = (case v of None \<Rightarrow> [] | Some x \<Rightarrow> [\<lparr>param_key = k, param_value = x\<rparr>])"

text \<open>\<open>None\<close> is a panic of the division in \<^verbatim>\<open>btc()\<close>.\<close>

definition amount_param :: "uri_lib \<Rightarrow> Amount option \<Rightarrow> UriParam list option" where
  "amount_param lib a =
     (case a of
        None \<Rightarrow> Some []
      | Some amount \<Rightarrow>
          map_option (\<lambda>d. opt_param ''amount'' (Some (dec_to_string lib d)))
            (btc (ul_decimal lib) (round_sat (ul_decimal lib) amount)))"

definition bip21_to_uri :: "uri_lib \<Rightarrow> Bip21Uri \<Rightarrow> Uri option" where
  "bip21_to_uri lib b =
     (let lightning = opt_param ''lightning'' (map_option (invoice_display lib) (b21_invoice b));
          b12 = opt_param ''b12'' (map_option (offer_display lib) (b21_offer b))
      in case b21_onchain b of
           None \<Rightarrow> Some \<lparr>uri_scheme = ''bitcoin'', uri_body = [], uri_params = lightning @ b12\<rparr>
         | Some x \<Rightarrow>
             map_option (\<lambda>amount.
               \<lparr>uri_scheme = ''bitcoin'', uri_body = address_to_string lib (oc_address x),
                uri_params = amount @ opt_param ''label'' (oc_label x) @ opt_param ''message'' (oc_message x) @
                  lightning @ b12\<rparr>) (amount_param lib (oc_amount x)))"

definition lightning_parse_uri_inner :: "uri_lib \<Rightarrow> Uri \<Rightarrow> LightningUri" where
  "lightning_parse_uri_inner lib uri =
     (let out =
        (case invoice_from_str lib (uri_body uri) of
           Some invoice \<Rightarrow> (Some invoice, None)
         | None \<Rightarrow> (None, offer_from_str lib (uri_body uri)))
      in case fold (ln_param lib) (uri_params uri) out of
           (invoice, offer) \<Rightarrow> \<lparr>ln_invoice = invoice, ln_offer = offer\<rparr>)"

definition lightning_parse_uri :: "uri_lib \<Rightarrow> Uri \<Rightarrow> LightningUri option" where
  "lightning_parse_uri lib uri =
     (if \<not> lightning_matches_scheme (uri_scheme uri) then None else Some (lightning_parse_uri_inner lib uri))"

definition lightning_parse :: "uri_lib \<Rightarrow> string \<Rightarrow> LightningUri option" where
  "lightning_parse lib s = Option.bind (uri_parse (ul_percent lib) (trim s)) (lightning_parse_uri lib)"

definition lightning_to_uri :: "uri_lib \<Rightarrow> LightningUri \<Rightarrow> Uri" where
  "lightning_to_uri lib l =
     (case ln_invoice l of
        Some invoice \<Rightarrow>
          \<lparr>uri_scheme = ''lightning'', uri_body = invoice_display lib invoice,
           uri_params = opt_param ''b12'' (map_option (offer_display lib) (ln_offer l))\<rparr>
      | None \<Rightarrow>
          \<lparr>uri_scheme = ''lightning'',
           uri_body = (case ln_offer l of Some offer \<Rightarrow> offer_display lib offer | None \<Rightarrow> []), uri_params = []\<rparr>)"

section \<open>PaymentUri\<close>

datatype PaymentUri =
  Address Address | Invoice LxInvoice | Offer LxOffer | LightningUri LightningUri | Bip21Uri Bip21Uri

definition payment_uri_parse :: "uri_lib \<Rightarrow> string \<Rightarrow> PaymentUri option option" where
  "payment_uri_parse lib str =
     (let s = trim str
      in case uri_parse (ul_percent lib) s of
           Some uri \<Rightarrow>
             if bip21_matches_scheme (uri_scheme uri)
             then map_option (\<lambda>b. Some (PaymentUri.Bip21Uri b)) (bip21_parse_uri_inner lib uri)
             else if lightning_matches_scheme (uri_scheme uri)
             then Some (Some (PaymentUri.LightningUri (lightning_parse_uri_inner lib uri)))
             else Some None
         | None \<Rightarrow>
             (case invoice_from_str lib s of
                Some invoice \<Rightarrow> Some (Some (PaymentUri.Invoice invoice))
              | None \<Rightarrow>
                (case offer_from_str lib s of
                   Some offer \<Rightarrow> Some (Some (PaymentUri.Offer offer))
                 | None \<Rightarrow> Some (map_option PaymentUri.Address (address_from_str lib s)))))"

definition opt_method :: "('a \<Rightarrow> PaymentMethod) \<Rightarrow> 'a option \<Rightarrow> PaymentMethod list" where
  "opt_method f x = (case x of None \<Rightarrow> [] | Some y \<Rightarrow> [f y])"

definition flatten_opt_invoice :: "uri_lib \<Rightarrow> LxInvoice option \<Rightarrow> PaymentMethod list \<Rightarrow> PaymentMethod list option" where
  "flatten_opt_invoice lib i out = (case i of None \<Rightarrow> Some out | Some invoice \<Rightarrow> flatten_invoice_into lib invoice out)"

definition flatten :: "uri_lib \<Rightarrow> PaymentUri \<Rightarrow> PaymentMethod list option" where
  "flatten lib u =
     (case u of
        PaymentUri.Address address \<Rightarrow> Some [PaymentMethod.Onchain (onchain_from_address address)]
      | PaymentUri.Invoice invoice \<Rightarrow> flatten_invoice_into lib invoice []
      | PaymentUri.Offer offer \<Rightarrow> Some [PaymentMethod.Offer offer]
      | PaymentUri.LightningUri l \<Rightarrow>
          map_option (\<lambda>out. out @ opt_method PaymentMethod.Offer (ln_offer l))
            (flatten_opt_invoice lib (ln_invoice l) [])
      | PaymentUri.Bip21Uri b \<Rightarrow>
          map_option (\<lambda>out. out @ opt_method PaymentMethod.Offer (b21_offer b))
            (flatten_opt_invoice lib (b21_invoice b) (opt_method PaymentMethod.Onchain (b21_onchain b))))"

text \<open>\<^verbatim>\<open>Iterator::max_by_key\<close>: of several maximal elements the last.\<close>

fun max_by_key :: "('a \<Rightarrow> nat) \<Rightarrow> 'a list \<Rightarrow> 'a option" where
  "max_by_key f [] = None"
| "max_by_key f (x # xs) = Some (fold (\<lambda>y best. if f best \<le> f y then y else best) xs x)"

datatype ResolveError = NotValidForNetwork Network | OffersUnsupported | ResolvePanics

definition preference :: "PaymentMethod \<Rightarrow> nat" where
  "preference m = (case m of PaymentMethod.Invoice _ \<Rightarrow> 2 | PaymentMethod.Onchain _ \<Rightarrow> 1 | PaymentMethod.Offer _ \<Rightarrow> 0)"

definition resolve_best :: "uri_lib \<Rightarrow> PaymentUri \<Rightarrow> Network \<Rightarrow> ResolveError + PaymentMethod" where
  "resolve_best lib u network =
     and_then (ok_or ResolvePanics (flatten lib u)) (\<lambda>all_methods.
       let payment_methods = filter (supports_network lib network) all_methods
       in ensure (payment_methods \<noteq> []) (NotValidForNetwork network) (
          and_then (ok_or ResolvePanics (max_by_key preference payment_methods)) (\<lambda>best.
          ensure (\<not> is_offer best) OffersUnsupported (Inr best))))"

definition payment_uri_display :: "uri_lib \<Rightarrow> PaymentUri \<Rightarrow> string option" where
  "payment_uri_display lib u =
     (case u of
        PaymentUri.Address address \<Rightarrow> Some (address_to_string lib address)
      | PaymentUri.Invoice invoice \<Rightarrow> Some (invoice_display lib invoice)
      | PaymentUri.Offer offer \<Rightarrow> Some (offer_display lib offer)
      | PaymentUri.LightningUri l \<Rightarrow> Some (uri_display (ul_percent lib) (lightning_to_uri lib l))
      | PaymentUri.Bip21Uri b \<Rightarrow> map_option (uri_display (ul_percent lib)) (bip21_to_uri lib b))"

text \<open>The derived equality, where amounts are equal as numbers.\<close>

definition onchain_eq :: "Onchain \<Rightarrow> Onchain \<Rightarrow> bool" where
  "onchain_eq x y \<longleftrightarrow> oc_address x = oc_address y \<and> rel_option amount_eq (oc_amount x) (oc_amount y) \<and>
     oc_label x = oc_label y \<and> oc_message x = oc_message y"

definition payment_uri_eq :: "PaymentUri \<Rightarrow> PaymentUri \<Rightarrow> bool" where
  "payment_uri_eq u v =
     (case (u, v) of
        (PaymentUri.Bip21Uri b, PaymentUri.Bip21Uri c) \<Rightarrow>
          rel_option onchain_eq (b21_onchain b) (b21_onchain c) \<and> b21_invoice b = b21_invoice c \<and> b21_offer b = b21_offer c
      | _ \<Rightarrow> u = v)"

end
