(* ===== verification/Payment_Uri_Proofs.thy ===== *)
theory Payment_Uri_Proofs
  imports Payment_Uri
begin

text \<open>
  Payment codes survive printing and parsing.  The locale \<open>payment_text\<close> is what the payment-code parser
  relies on in the libraries it calls: the alphabet of the printed codes, that no code of one kind
  parses as another kind that is tried first, and the text form of decimals.
\<close>

section \<open>What the libraries promise\<close>

locale payment_text =
  fixes lib :: uri_lib
  assumes percent: "percent_coding (ul_percent lib)"
    and decimals: "decimal_laws (ul_decimal lib)"
    and dec_text: "representable (dec_value d) \<Longrightarrow> \<not> is_sign_negative d \<Longrightarrow>
      \<exists>d'. dec_from_str (ul_decimal lib) (dec_to_string lib d) = Some d' \<and> dec_value d' = dec_value d \<and> \<not> is_sign_negative d'"
    and dec_utf8: "utf8_valid (dec_to_string lib d)"
    and round_whole: "dec_value d = of_nat n \<Longrightarrow> \<not> is_sign_negative d \<Longrightarrow>
      dec_value (dec_round (ul_decimal lib) d) = of_nat n \<and> \<not> is_sign_negative (dec_round (ul_decimal lib) d)"
    and address_text: "c \<in> set (address_to_string lib a) \<Longrightarrow> is_alphanumeric c"
    and invoice_text: "c \<in> set (bolt11_to_string lib i) \<Longrightarrow> is_alphanumeric c"
    and offer_text: "c \<in> set (bolt12_to_string lib x) \<Longrightarrow> is_alphanumeric c"
    and nothing_parses: "address_from_str lib [] = None" "bolt11_from_str lib [] = None" "bolt12_from_str lib [] = None"
    and address_other: "bolt11_from_str lib (address_to_string lib a) = None"
      "bolt12_from_str lib (address_to_string lib a) = None"
    and offer_other: "bolt11_from_str lib (bolt12_to_string lib x) = None"

section \<open>Well-formed codes\<close>

definition address_ok :: "uri_lib \<Rightarrow> Address \<Rightarrow> bool" where
  "address_ok lib a \<longleftrightarrow> address_from_str lib (address_to_string lib a) = Some a"

definition invoice_ok :: "uri_lib \<Rightarrow> LxInvoice \<Rightarrow> bool" where
  "invoice_ok lib i \<longleftrightarrow> invoice_from_str lib (invoice_display lib i) = Some i"

definition offer_ok :: "uri_lib \<Rightarrow> LxOffer \<Rightarrow> bool" where
  "offer_ok lib x \<longleftrightarrow> offer_from_str lib (offer_display lib x) = Some x"

text \<open>On-chain amounts are whole satoshis.\<close>

definition onchain_ok :: "uri_lib \<Rightarrow> Onchain \<Rightarrow> bool" where
  "onchain_ok lib x \<longleftrightarrow> address_ok lib (oc_address x) \<and> pred_option (\<lambda>a. \<exists>n. amount_msats a (1000 * n)) (oc_amount x) \<and>
     pred_option utf8_valid (oc_label x) \<and> pred_option utf8_valid (oc_message x)"

definition payment_uri_ok :: "uri_lib \<Rightarrow> PaymentUri \<Rightarrow> bool" where
  "payment_uri_ok lib u =
     (case u of
        PaymentUri.Address a \<Rightarrow> address_ok lib a
      | PaymentUri.Invoice i \<Rightarrow> invoice_ok lib i
      | PaymentUri.Offer x \<Rightarrow> offer_ok lib x
      | PaymentUri.LightningUri l \<Rightarrow> pred_option (invoice_ok lib) (ln_invoice l) \<and> pred_option (offer_ok lib) (ln_offer l)
      | PaymentUri.Bip21Uri b \<Rightarrow> pred_option (onchain_ok lib) (b21_onchain b) \<and>
          pred_option (invoice_ok lib) (b21_invoice b) \<and> pred_option (offer_ok lib) (b21_offer b))"

section \<open>Round trips\<close>

lemma utf8_ascii: "\<forall>c \<in> set s. char_code c < 128 \<Longrightarrow> utf8_valid s"
  by (induction s) (auto simp: Let_def)

lemma alphanumeric_ascii: "is_alphanumeric c \<Longrightarrow> char_code c < 128 \<and> is_graphic c \<and> c \<noteq> CHR '':'' \<and> c \<noteq> CHR ''?''"
  by (auto simp: is_alphanumeric_def is_graphic_def)

lemma schemes:
  "bip21_matches_scheme ''bitcoin''" "lightning_matches_scheme ''lightning''" "\<not> bip21_matches_scheme ''lightning''"
  by (simp_all add: bip21_matches_scheme_def lightning_matches_scheme_def eq_ignore_ascii_case_def to_ascii_lowercase_def)

lemma opt_param_simps [simp]: "opt_param k None = []" "opt_param k (Some v) = [\<lparr>param_key = k, param_value = v\<rparr>]"
  by (simp_all add: opt_param_def)

lemma opt_param_utf8: "p \<in> set (opt_param k v) \<Longrightarrow> pred_option utf8_valid v \<Longrightarrow> param_key p = k \<and> utf8_valid (param_value p)"
  by (cases v) auto

lemma bip21_param_onchain:
  "param_key p \<in> {''amount'', ''label'', ''message''} \<Longrightarrow> bip21_param lib p st = st"
  by (auto simp: bip21_param_def starts_with_def split: prod.splits)

lemma fold_bip21_onchain:
  "\<forall>p \<in> set ps. param_key p \<in> {''amount'', ''label'', ''message''} \<Longrightarrow> fold (bip21_param lib) ps st = st"
  by (induction ps) (simp_all add: bip21_param_onchain)

lemma onchain_params_append:
  "onchain_params lib (ps @ qs) x = Option.bind (onchain_params lib ps x) (onchain_params lib qs)"
  by (induction ps arbitrary: x) (auto split: bind_split)

lemma onchain_params_other:
  "\<forall>p \<in> set ps. param_key p \<in> {''lightning'', ''b12''} \<Longrightarrow> onchain_params lib ps x = Some x"
  by (induction ps arbitrary: x) auto

context payment_text
begin

lemmas uri_roundtrip = percent_coding.uri_roundtrip [OF percent]

lemma text_utf8: "utf8_valid (address_to_string lib a)" "utf8_valid (invoice_display lib i)" "utf8_valid (offer_display lib x)"
  by (rule utf8_ascii; use address_text invoice_text offer_text alphanumeric_ascii in
      \<open>auto simp: invoice_display_def offer_display_def\<close>)+

lemma display_graphic:
  assumes "\<forall>c \<in> set (uri_scheme u) \<union> set (uri_body u). is_graphic c"
  shows "trim (uri_display (ul_percent lib) u) = uri_display (ul_percent lib) u"
proof (rule trim_graphic, intro ballI)
  fix c assume "c \<in> set (uri_display (ul_percent lib) u)"
  moreover have "is_graphic (CHR '':'')" "is_graphic (CHR ''?'')" by (simp_all add: is_graphic_def)
  ultimately show "is_graphic c"
    using assms percent_coding.params_graphic [OF percent] by (auto simp: uri_display_def)
qed

lemma no_uri:
  assumes "\<forall>c \<in> set s. is_alphanumeric c"
  shows "uri_parse pl s = None" and "trim s = s"
proof -
  have "CHR '':'' \<notin> set s" using assms alphanumeric_ascii by blast
  then show "uri_parse pl s = None" by (simp add: uri_parse_def split_once_free)
  show "trim s = s" using assms alphanumeric_ascii by (intro trim_graphic) blast
qed

lemma printed_code:
  "uri_parse pl (address_to_string lib a) = None" "trim (address_to_string lib a) = address_to_string lib a"
  "uri_parse pl (invoice_display lib i) = None" "trim (invoice_display lib i) = invoice_display lib i"
  "uri_parse pl (offer_display lib x) = None" "trim (offer_display lib x) = offer_display lib x"
  by (rule no_uri; use address_text invoice_text offer_text in \<open>auto simp: invoice_display_def offer_display_def\<close>)+

lemma other_kinds:
  "invoice_from_str lib (address_to_string lib a) = None" "offer_from_str lib (address_to_string lib a) = None"
  "invoice_from_str lib (offer_display lib x) = None" "invoice_from_str lib [] = None" "offer_from_str lib [] = None"
  using address_other offer_other nothing_parses
  by (simp_all add: invoice_from_str_def offer_from_str_def offer_display_def)

lemma amount_roundtrip:
  assumes "amount_msats a (1000 * n)"
  obtains d b where "btc (ul_decimal lib) (round_sat (ul_decimal lib) a) = Some d"
    and "parse_onchain_btc_amount lib (dec_to_string lib d) = Some (Some b)" and "amount_eq a b"
proof -
  let ?ops = "ul_decimal lib"
  have round: "amount_msats (round_sat ?ops b) (1000 * n)" if "amount_msats b (1000 * n)" for b
    using that round_whole [of "inner b" n] by (simp add: amount_msats_def round_sat_def)
  obtain d where d: "btc ?ops (round_sat ?ops a) = Some d" "dec_value d = of_nat (1000 * n) / 10 ^ 11"
      "\<not> is_sign_negative d"
    and undo: "\<And>d'. dec_value d' = dec_value d \<Longrightarrow> \<not> is_sign_negative d' \<Longrightarrow>
      \<exists>b. try_from_btc ?ops d' = Some (Inr b) \<and> amount_msats b (1000 * n)"
    using btc_ok [OF decimals round [OF assms]] by metis
  have "1000 * n < 2 ^ 64" using assms by (simp add: amount_msats_def)
  then have "representable (dec_value d)" unfolding d(2) by (intro representable_frac) simp_all
  then obtain d' where d': "dec_from_str ?ops (dec_to_string lib d) = Some d'" "dec_value d' = dec_value d"
      "\<not> is_sign_negative d'"
    using dec_text d(3) by blast
  obtain b where b: "try_from_btc ?ops d' = Some (Inr b)" "amount_msats b (1000 * n)" using undo [OF d'(2,3)] by blast
  have "parse_onchain_btc_amount lib (dec_to_string lib d) = Some (Some (round_sat ?ops b))"
    by (simp add: parse_onchain_btc_amount_def d'(1) b(1) ok_def)
  moreover have "amount_eq a (round_sat ?ops b)" using amount_msats_eq_iff [OF assms round [OF b(2)]] by simp
  ultimately show thesis by (rule that [OF d(1)])
qed

lemma lightning_fold:
  assumes "pred_option (invoice_ok lib) i" and "pred_option (offer_ok lib) x"
  shows "fold (bip21_param lib) (opt_param ''lightning'' (map_option (invoice_display lib) i) @
      opt_param ''b12'' (map_option (offer_display lib) x)) ((None, None), False) = ((i, x), False)"
  using assms
  by (cases i; cases x) (simp_all add: bip21_param_def lightning_param_def invoice_ok_def offer_ok_def)

lemma onchain_fold:
  assumes "onchain_ok lib x" and "amount_param lib (oc_amount x) = Some amount"
  shows "\<exists>y. onchain_params lib (amount @ opt_param ''label'' (oc_label x) @ opt_param ''message'' (oc_message x))
      (onchain_from_address (oc_address x)) = Some y \<and> onchain_eq x y"
proof -
  have "\<exists>b. onchain_params lib amount (onchain_from_address (oc_address x)) =
      Some ((onchain_from_address (oc_address x))\<lparr>oc_amount := b\<rparr>) \<and> rel_option amount_eq (oc_amount x) b"
  proof (cases "oc_amount x")
    case None
    with assms(2) show ?thesis by (simp add: amount_param_def onchain_from_address_def)
  next
    case (Some a)
    then obtain n where "amount_msats a (1000 * n)" using assms(1) by (auto simp: onchain_ok_def)
    then obtain d b where "btc (ul_decimal lib) (round_sat (ul_decimal lib) a) = Some d"
      "parse_onchain_btc_amount lib (dec_to_string lib d) = Some (Some b)" "amount_eq a b"
      by (rule amount_roundtrip)
    with Some assms(2) show ?thesis by (auto simp: amount_param_def onchain_from_address_def)
  qed
  then obtain b where "onchain_params lib amount (onchain_from_address (oc_address x)) =
      Some ((onchain_from_address (oc_address x))\<lparr>oc_amount := b\<rparr>)" "rel_option amount_eq (oc_amount x) b"
    by blast
  then show ?thesis
    by (cases "oc_label x"; cases "oc_message x")
      (simp_all add: onchain_params_append onchain_eq_def onchain_from_address_def)
qed

lemma amount_param_total:
  assumes "onchain_ok lib x"
  obtains amount where "amount_param lib (oc_amount x) = Some amount"
    and "\<forall>p \<in> set amount. param_key p = ''amount'' \<and> utf8_valid (param_value p)"
proof (cases "oc_amount x")
  case None
  then show thesis using that [of "[]"] by (simp add: amount_param_def)
next
  case (Some a)
  then obtain n where "amount_msats a (1000 * n)" using assms by (auto simp: onchain_ok_def)
  then obtain d where "btc (ul_decimal lib) (round_sat (ul_decimal lib) a) = Some d" by (rule amount_roundtrip)
  with Some that show thesis using dec_utf8 by (simp add: amount_param_def)
qed

lemma bip21_inner:
  assumes "payment_uri_ok lib (PaymentUri.Bip21Uri b)"
  obtains u c where "bip21_to_uri lib b = Some u" and "uri_scheme u = ''bitcoin''"
    and "\<forall>ch \<in> set (uri_body u). is_alphanumeric ch"
    and "\<forall>p \<in> set (uri_params u). utf8_valid (param_key p) \<and> utf8_valid (param_value p)"
    and "bip21_parse_uri_inner lib u = Some c" and "payment_uri_eq (PaymentUri.Bip21Uri b) (PaymentUri.Bip21Uri c)"
proof -
  define ln where "ln = opt_param ''lightning'' (map_option (invoice_display lib) (b21_invoice b)) @
    opt_param ''b12'' (map_option (offer_display lib) (b21_offer b))"
  have ok: "pred_option (onchain_ok lib) (b21_onchain b)" "pred_option (invoice_ok lib) (b21_invoice b)"
    "pred_option (offer_ok lib) (b21_offer b)"
    using assms by (simp_all add: payment_uri_ok_def)
  have ln: "fold (bip21_param lib) ln ((None, None), False) = ((b21_invoice b, b21_offer b), False)"
    unfolding ln_def by (rule lightning_fold [OF ok(2,3)])
  have ln_keys: "\<forall>p \<in> set ln. param_key p \<in> {''lightning'', ''b12''}"
    and ln_utf8: "\<forall>p \<in> set ln. utf8_valid (param_key p) \<and> utf8_valid (param_value p)"
    using text_utf8 by (auto simp: ln_def opt_param_def utf8_ascii split: option.splits)
  show thesis
  proof (cases "b21_onchain b")
    case None
    have "bip21_to_uri lib b = Some \<lparr>uri_scheme = ''bitcoin'', uri_body = [], uri_params = ln\<rparr>"
      by (simp add: bip21_to_uri_def None ln_def Let_def)
    then show thesis
      by (rule that [where c = b]) (simp_all add: ln_utf8 bip21_parse_uri_inner_def ln nothing_parses payment_uri_eq_def None)
  next
    case (Some x)
    with ok(1) have x: "onchain_ok lib x" by simp
    obtain amount where am: "amount_param lib (oc_amount x) = Some amount"
      "\<forall>p \<in> set amount. param_key p = ''amount'' \<and> utf8_valid (param_value p)"
      using amount_param_total [OF x] .
    define oc where "oc = amount @ opt_param ''label'' (oc_label x) @ opt_param ''message'' (oc_message x)"
    have oc_keys: "\<forall>p \<in> set oc. param_key p \<in> {''amount'', ''label'', ''message''}"
      and oc_utf8: "\<forall>p \<in> set oc. utf8_valid (param_key p) \<and> utf8_valid (param_value p)"
      using am(2) x by (auto simp: oc_def utf8_ascii onchain_ok_def dest!: opt_param_utf8)
    obtain y where y: "onchain_params lib oc (onchain_from_address (oc_address x)) = Some y" "onchain_eq x y"
      using onchain_fold [OF x am(1)] by (auto simp: oc_def)
    have u: "bip21_to_uri lib b =
        Some \<lparr>uri_scheme = ''bitcoin'', uri_body = address_to_string lib (oc_address x), uri_params = oc @ ln\<rparr>"
      by (simp add: bip21_to_uri_def Some am(1) oc_def ln_def Let_def)
    show thesis
    proof (rule that [OF u])
      show "bip21_parse_uri_inner lib \<lparr>uri_scheme = ''bitcoin'', uri_body = address_to_string lib (oc_address x),
          uri_params = oc @ ln\<rparr> = Some \<lparr>b21_onchain = Some y, b21_invoice = b21_invoice b, b21_offer = b21_offer b\<rparr>"
        using x y(1) by (simp add: bip21_parse_uri_inner_def fold_bip21_onchain [OF oc_keys] ln onchain_params_append
            onchain_params_other [OF ln_keys] onchain_ok_def address_ok_def)
    qed (use address_text oc_utf8 ln_utf8 y(2) Some in \<open>auto simp: payment_uri_eq_def\<close>)
  qed
qed

lemma lightning_inner:
  assumes "payment_uri_ok lib (PaymentUri.LightningUri l)"
  shows "lightning_parse_uri_inner lib (lightning_to_uri lib l) = l"
    and "uri_scheme (lightning_to_uri lib l) = ''lightning''"
    and "\<forall>ch \<in> set (uri_body (lightning_to_uri lib l)). is_alphanumeric ch"
    and "\<forall>p \<in> set (uri_params (lightning_to_uri lib l)). utf8_valid (param_key p) \<and> utf8_valid (param_value p)"
proof -
  have ok: "pred_option (invoice_ok lib) (ln_invoice l)" "pred_option (offer_ok lib) (ln_offer l)"
    using assms by (simp_all add: payment_uri_ok_def)
  then show "lightning_parse_uri_inner lib (lightning_to_uri lib l) = l"
    by (cases "ln_invoice l"; cases "ln_offer l")
      (simp_all add: lightning_parse_uri_inner_def lightning_to_uri_def ln_param_def invoice_ok_def offer_ok_def
        other_kinds Let_def)
  show "uri_scheme (lightning_to_uri lib l) = ''lightning''"
    "\<forall>ch \<in> set (uri_body (lightning_to_uri lib l)). is_alphanumeric ch"
    "\<forall>p \<in> set (uri_params (lightning_to_uri lib l)). utf8_valid (param_key p) \<and> utf8_valid (param_value p)"
    using text_utf8 invoice_text offer_text
    by (auto simp: lightning_to_uri_def opt_param_def invoice_display_def offer_display_def utf8_ascii split: option.splits)
qed

lemma printed_uri:
  assumes "\<forall>ch \<in> set (uri_scheme u) \<union> set (uri_body u). is_alphanumeric ch" and "length (uri_scheme u) \<le> 12"
    and "\<forall>p \<in> set (uri_params u). utf8_valid (param_key p) \<and> utf8_valid (param_value p)"
  shows "uri_parse (ul_percent lib) (trim (uri_display (ul_percent lib) u)) = Some u"
proof -
  have "trim (uri_display (ul_percent lib) u) = uri_display (ul_percent lib) u"
    using assms(1) alphanumeric_ascii by (intro display_graphic) blast
  moreover have "CHR '':'' \<notin> set (uri_scheme u)" "CHR ''?'' \<notin> set (uri_body u)"
    using assms(1) alphanumeric_ascii by blast+
  ultimately show ?thesis using uri_roundtrip assms(2,3) by simp
qed

lemma payment_uri_roundtrip_law:
  assumes "payment_uri_ok lib u"
  shows "\<exists>s v. payment_uri_display lib u = Some s \<and> payment_uri_parse lib s = Some (Some v) \<and> payment_uri_eq u v"
proof (cases u)
  case (Address a)
  then show ?thesis
    using assms by (simp add: payment_uri_display_def payment_uri_parse_def payment_uri_eq_def payment_uri_ok_def
        address_ok_def printed_code other_kinds Let_def)
next
  case (Invoice i)
  then show ?thesis
    using assms by (simp add: payment_uri_display_def payment_uri_parse_def payment_uri_eq_def payment_uri_ok_def
        invoice_ok_def printed_code Let_def)
next
  case (Offer x)
  then show ?thesis
    using assms by (simp add: payment_uri_display_def payment_uri_parse_def payment_uri_eq_def payment_uri_ok_def
        offer_ok_def printed_code other_kinds Let_def)
next
  case (LightningUri l)
  note inner = lightning_inner [OF assms [unfolded LightningUri]]
  have "uri_parse (ul_percent lib) (trim (uri_display (ul_percent lib) (lightning_to_uri lib l))) = Some (lightning_to_uri lib l)"
    by (rule printed_uri) (use inner in \<open>auto simp: is_alphanumeric_def\<close>)
  then show ?thesis
    by (simp add: LightningUri payment_uri_display_def payment_uri_parse_def payment_uri_eq_def Let_def inner schemes)
next
  case (Bip21Uri b)
  obtain w c where w: "bip21_to_uri lib b = Some w" "uri_scheme w = ''bitcoin''"
    "\<forall>ch \<in> set (uri_body w). is_alphanumeric ch"
    "\<forall>p \<in> set (uri_params w). utf8_valid (param_key p) \<and> utf8_valid (param_value p)"
    "bip21_parse_uri_inner lib w = Some c" "payment_uri_eq (PaymentUri.Bip21Uri b) (PaymentUri.Bip21Uri c)"
    using bip21_inner [OF assms [unfolded Bip21Uri]] .
  have "uri_parse (ul_percent lib) (trim (uri_display (ul_percent lib) w)) = Some w"
    by (rule printed_uri) (use w in \<open>auto simp: is_alphanumeric_def\<close>)
  then show ?thesis
    using w by (simp add: Bip21Uri payment_uri_display_def payment_uri_parse_def Let_def schemes)
qed

end

end
