(* ===== verification/Payment_Uri_Properties.thy ===== *)
theory Payment_Uri_Properties
  imports Payment_Uri_Proofs
begin

text \<open>
  The properties of payment codes: the round trip, the choice of the payment method, and when parsing
  panics; with a small library of codes on which the witnesses compute.
\<close>

section \<open>A library of codes\<close>

definition text_digits :: "nat \<Rightarrow> string" where
  "text_digits n = map digit_char (nat_digits n)"

definition digits_val :: "string \<Rightarrow> nat" where
  "digits_val s = dec_val (map (\<lambda>c. char_code c - 48) s)"

definition decimal_text :: "Decimal \<Rightarrow> string" where
  "decimal_text d = text_digits (mantissa d) @ CHR ''e'' # text_digits (scale d)"

definition decimal_of_text :: "string \<Rightarrow> Decimal option" where
  "decimal_of_text s =
     (case split_once (CHR ''e'') s of None \<Rightarrow> None | Some (m, k) \<Rightarrow> Some (Decimal False (digits_val m) (digits_val k)))"

definition tagged :: "string \<Rightarrow> string \<Rightarrow> string" where
  "tagged t s = t @ filter is_alphanumeric s"

definition untagged :: "string \<Rightarrow> string \<Rightarrow> string option" where
  "untagged t s = (if starts_with t s then Some (drop (length t) s) else None)"

definition text_lib :: uri_lib where
  "text_lib =
     \<lparr>ul_percent = simple_percent, ul_invoice = unary_lib, ul_decimal = exact_ops\<lparr>dec_from_str := decimal_of_text\<rparr>,
      dec_to_string = decimal_text,
      bolt11_from_str = untagged ''lnbc'', bolt11_to_string = tagged ''lnbc'', bolt11_network = (\<lambda>_. Bitcoin),
      bolt11_fallback_addresses = (\<lambda>_. []),
      bolt12_from_str = (\<lambda>s. Option.bind (untagged ''lno'' s) (\<lambda>t. map_option Offer.Offer (ok (decode t)))),
      bolt12_to_string = (\<lambda>x. case x of Offer.Offer b \<Rightarrow> ''lno'' @ hex_display b),
      bolt12_supports_chain = (\<lambda>_ _. True), bolt12_amount = (\<lambda>_. None), bolt12_description = (\<lambda>_. []),
      address_from_str = (\<lambda>s. map_option Address.Address (untagged ''bc1'' s)),
      address_to_string = (\<lambda>a. case a of Address.Address s \<Rightarrow> tagged ''bc1'' s),
      is_valid_for_network = (\<lambda>_ n. n = Bitcoin), using_genesis_block = (\<lambda>_. [])\<rparr>"

lemma digits_val_text [simp]: "digits_val (text_digits n) = n"
proof -
  have "map (\<lambda>d. char_code (digit_char d) - 48) (nat_digits n) = nat_digits n"
    using nat_digits_less by (intro map_idI) simp
  then show ?thesis by (simp add: digits_val_def text_digits_def comp_def)
qed

lemma text_digits_chars: "c \<in> set (text_digits n) \<Longrightarrow> c \<noteq> CHR ''e'' \<and> char_code c < 128"
proof -
  assume "c \<in> set (text_digits n)"
  then obtain d where "c = digit_char d" "d < 10" by (auto simp: text_digits_def dest: nat_digits_less)
  then have "char_code c \<in> {48..57}" by simp
  then show ?thesis by auto
qed

lemma decimal_text_roundtrip: "decimal_of_text (decimal_text d) = Some (Decimal False (mantissa d) (scale d))"
proof -
  have "CHR ''e'' \<notin> set (text_digits (mantissa d))" using text_digits_chars by blast
  then show ?thesis by (simp add: decimal_of_text_def decimal_text_def split_once_append)
qed

lemma tagged_alphanumeric: "\<forall>c \<in> set t. is_alphanumeric c \<Longrightarrow> c \<in> set (tagged t s) \<Longrightarrow> is_alphanumeric c"
  by (auto simp: tagged_def)

lemma untagged_other: "take (length t) (tagged u s) \<noteq> t \<Longrightarrow> untagged t (tagged u s) = None"
  by (simp add: untagged_def starts_with_def)

lemma hex_display_alphanumeric: "c \<in> set (hex_display b) \<Longrightarrow> is_alphanumeric c"
proof -
  assume "c \<in> set (hex_display b)"
  then obtain x where "c \<in> set (fmt_02x x)" by (auto simp: hex_display_def)
  moreover have "unat x div 16 < 16" using unsigned_less [of x, where 'a = nat] by (simp add: less_mult_imp_div_less)
  ultimately show ?thesis using nibble_alphanumeric by (auto simp: fmt_02x_def)
qed

lemma text_lib_lawful: "payment_text text_lib"
proof (rule payment_text.intro)
  show "percent_coding (ul_percent text_lib)" using simple_percent.percent_coding_axioms by (simp add: text_lib_def)
  show "decimal_laws (ul_decimal text_lib)"
    using exact_ops_lawful by (simp add: text_lib_def decimal_laws_def)
  show "\<exists>d'. dec_from_str (ul_decimal text_lib) (dec_to_string text_lib d) = Some d' \<and> dec_value d' = dec_value d \<and>
      \<not> is_sign_negative d'" if "\<not> is_sign_negative d" for d
    using that by (simp add: text_lib_def decimal_text_roundtrip dec_value_def)
  show "utf8_valid (dec_to_string text_lib d)" for d
    using text_digits_chars by (intro utf8_ascii) (auto simp: text_lib_def decimal_text_def)
  show "dec_value (dec_round (ul_decimal text_lib) d) = of_nat n \<and> \<not> is_sign_negative (dec_round (ul_decimal text_lib) d)"
    if "dec_value d = of_nat n" for d n
  proof -
    have "\<lfloor>(of_nat n :: rat) + 1 / 2\<rfloor> = int n" by linarith
    then have "nat \<lfloor>dec_value d + 1 / 2\<rfloor> = n" using that by simp
    then show ?thesis by (simp add: text_lib_def exact_ops_def dec_value_def)
  qed
  show "is_alphanumeric c" if "c \<in> set (address_to_string text_lib a)" for c a
    using that tagged_alphanumeric [of "''bc1''"] by (cases a) (auto simp: text_lib_def is_alphanumeric_def)
  show "is_alphanumeric c" if "c \<in> set (bolt11_to_string text_lib i)" for c i
    using that tagged_alphanumeric [of "''lnbc''"] by (auto simp: text_lib_def is_alphanumeric_def)
  show "is_alphanumeric c" if "c \<in> set (bolt12_to_string text_lib x)" for c x
    using that hex_display_alphanumeric by (cases x) (auto simp: text_lib_def is_alphanumeric_def)
  show "address_from_str text_lib [] = None" "bolt11_from_str text_lib [] = None" "bolt12_from_str text_lib [] = None"
    by (simp_all add: text_lib_def untagged_def starts_with_def)
  show "bolt11_from_str text_lib (address_to_string text_lib a) = None"
    "bolt12_from_str text_lib (address_to_string text_lib a) = None" for a
    by (cases a; simp add: text_lib_def untagged_def tagged_def starts_with_def)+
  show "bolt11_from_str text_lib (bolt12_to_string text_lib x) = None" for x
    by (cases x) (simp add: text_lib_def untagged_def tagged_def starts_with_def)
qed

interpretation text_codes: payment_text text_lib
  by (rule text_lib_lawful)

section \<open>The round trip\<close>


definition example_uri :: PaymentUri where
  "example_uri = PaymentUri.Bip21Uri
     \<lparr>b21_onchain = Some \<lparr>oc_address = Address.Address ''q7'', oc_amount = Some (Amount (dec_lit 21)),
        oc_label = Some ''Joe's & co'', oc_message = None\<rparr>,
      b21_invoice = Some (LxInvoice ''xy''), b21_offer = Some (LxOffer (Offer.Offer [1, 255]))\<rparr>"

lemma example_uri_ok: "payment_uri_ok text_lib example_uri"
proof -
  have "amount_msats (Amount (dec_lit 21)) (1000 * 21)" by (simp add: amount_msats_def)
  then have "\<exists>n. amount_msats (Amount (dec_lit 21)) (1000 * n)" by blast
  moreover have "is_alphanumeric (CHR ''q'')" "is_alphanumeric (CHR ''7'')" "is_alphanumeric (CHR ''x'')"
    "is_alphanumeric (CHR ''y'')" by (simp_all add: is_alphanumeric_def)
  ultimately show ?thesis
    by (simp add: example_uri_def payment_uri_ok_def onchain_ok_def address_ok_def invoice_ok_def offer_ok_def text_lib_def
        tagged_def untagged_def starts_with_def invoice_from_str_def invoice_display_def offer_from_str_def
        offer_display_def decode_hex_display ok_def)
qed


section \<open>The best payment method\<close>

lemma fold_max_last:
  fixes f :: "'a \<Rightarrow> nat"
  assumes "\<forall>x \<in> set (b # xs). f x \<le> m" and "filter (\<lambda>x. f x = m) (b # xs) \<noteq> []"
  shows "fold (\<lambda>y best. if f best \<le> f y then y else best) xs b = last (filter (\<lambda>x. f x = m) (b # xs))"
  using assms
proof (induction xs arbitrary: b)
  case Nil
  then show ?case by (simp split: if_splits)
next
  case (Cons x xs)
  let ?pick = "if f b \<le> f x then x else b"
  have "filter (\<lambda>x. f x = m) (?pick # xs) \<noteq> []" "\<forall>y \<in> set (?pick # xs). f y \<le> m"
    using Cons.prems by (auto split: if_splits dest: antisym)
  then have "fold (\<lambda>y best. if f best \<le> f y then y else best) (x # xs) b = last (filter (\<lambda>x. f x = m) (?pick # xs))"
    using Cons.IH [of ?pick] by simp
  also have "\<dots> = last (filter (\<lambda>x. f x = m) (b # x # xs))"
    using Cons.prems by (auto split: if_splits)
  finally show ?case .
qed

lemma max_by_key_last:
  assumes "\<forall>x \<in> set xs. f x \<le> m" and "filter (\<lambda>x. f x = m) xs \<noteq> []"
  shows "max_by_key f xs = Some (last (filter (\<lambda>x. f x = m) xs))"
proof (cases xs)
  case (Cons x ys)
  with assms fold_max_last [of x ys f m] show ?thesis by simp
qed (use assms in simp)

lemma preference_kinds:
  "preference m = 2 \<longleftrightarrow> is_invoice m" "preference m = 1 \<longleftrightarrow> is_onchain m" "preference m = 0 \<longleftrightarrow> is_offer m"
  "preference m \<le> 2" "is_invoice m \<or> is_onchain m \<or> is_offer m" "is_offer m \<Longrightarrow> \<not> is_invoice m \<and> \<not> is_onchain m"
  by (cases m; simp add: preference_def is_invoice_def is_onchain_def is_offer_def)+

lemma best_method:
  assumes "ms \<noteq> []"
  shows "max_by_key preference ms = Some (last (
    if filter is_invoice ms \<noteq> [] then filter is_invoice ms
    else if filter is_onchain ms \<noteq> [] then filter is_onchain ms else ms))"
proof -
  note pref = preference_kinds
  consider "filter is_invoice ms \<noteq> []" | "filter is_invoice ms = []" "filter is_onchain ms \<noteq> []"
    | "filter is_invoice ms = []" "filter is_onchain ms = []" by blast
  then show ?thesis
  proof cases
    case 1
    then show ?thesis using max_by_key_last [of ms preference 2] pref(4) by (simp add: pref(1))
  next
    case 2
    have "\<forall>m \<in> set ms. preference m \<le> 1"
      using 2(1) pref(1,4) by (metis empty_filter_conv le_SucE numeral_2_eq_2 One_nat_def)
    then show ?thesis using 2 max_by_key_last [of ms preference 1] by (simp add: pref(2) [simplified])
  next
    case 3
    then have offers: "\<forall>m \<in> set ms. is_offer m" using pref(5) by (metis empty_filter_conv)
    then have "filter (\<lambda>m. preference m = 0) ms = ms" by (simp only: pref(3)) simp
    then show ?thesis using 3 assms offers max_by_key_last [of ms preference 0] pref(3) by simp
  qed
qed

lemma flatten_invoice_total:
  assumes "decimal_laws (ul_decimal lib)"
  obtains xs where "flatten_invoice_into lib i out = Some (out @ map PaymentMethod.Onchain xs @ [PaymentMethod.Invoice i])"
    and "map oc_address xs = onchain_fallbacks lib i"
proof (cases "onchain_fallbacks lib i")
  case Nil
  then show thesis using that [of "[]"] by (simp add: flatten_invoice_into_def)
next
  case (Cons a as)
  have "invoice_amount (ul_invoice lib) (ul_decimal lib) i \<noteq> None"
    using from_msat_ok [OF assms] by (auto simp: invoice_amount_def split: option.splits)
  then obtain amount where am: "invoice_amount (ul_invoice lib) (ul_decimal lib) i = Some amount" by blast
  let ?f = "\<lambda>a. \<lparr>oc_address = a, oc_amount = amount, oc_label = None,
    oc_message = description_str (ul_invoice lib) i\<rparr>"
  show thesis
    by (rule that [of "map ?f (a # as)"]) (simp_all add: flatten_invoice_into_def Cons am Let_def comp_def)
qed

lemma filter_invoice_simps [simp]:
  "filter is_invoice (map PaymentMethod.Onchain xs) = []"
  "is_invoice (PaymentMethod.Invoice i)" "\<not> is_invoice (PaymentMethod.Onchain x)" "\<not> is_invoice (PaymentMethod.Offer y)"
  by (auto simp: is_invoice_def filter_empty_conv)

text \<open>C36: Resolving a payment code never panics.  Among the code's methods that are valid for the network, of
  which at most one is an invoice, it picks the invoice, else the last on-chain address, and
  reports an error if there is no method or only offers.\<close>

theorem resolve_best_correct:
  assumes "decimal_laws (ul_decimal lib)"
  shows "\<exists>all_methods ms. flatten lib u = Some all_methods \<and> length (filter is_invoice all_methods) \<le> 1 \<and>
    ms = filter (supports_network lib network) all_methods \<and>
    resolve_best lib u network =
      (if ms = [] then Inl (NotValidForNetwork network)
       else if filter is_invoice ms \<noteq> [] then Inr (hd (filter is_invoice ms))
       else if filter is_onchain ms \<noteq> [] then Inr (last (filter is_onchain ms))
       else Inl OffersUnsupported)"
proof -
  have opt: "\<exists>xs. flatten_opt_invoice lib i out = Some (out @ xs) \<and> length (filter is_invoice xs) \<le> 1" for i out
  proof (cases i)
    case (Some inv)
    obtain xs where "flatten_invoice_into lib inv out = Some (out @ map PaymentMethod.Onchain xs @ [PaymentMethod.Invoice inv])"
      using flatten_invoice_total [OF assms] by blast
    then show ?thesis by (simp add: Some flatten_opt_invoice_def)
  qed (simp add: flatten_opt_invoice_def)
  have "\<exists>ms. flatten lib u = Some ms \<and> length (filter is_invoice ms) \<le> 1"
  proof (cases u)
    case (Invoice i)
    then show ?thesis using opt [of "Some i" "[]"] by (auto simp: flatten_def flatten_opt_invoice_def)
  next
    case (LightningUri l)
    then show ?thesis using opt [of "ln_invoice l" "[]"] by (auto simp: flatten_def opt_method_def split: option.splits)
  next
    case (Bip21Uri b)
    then show ?thesis
      using opt [of "b21_invoice b" "opt_method PaymentMethod.Onchain (b21_onchain b)"]
      by (auto simp: flatten_def opt_method_def split: option.splits)
  qed (simp_all add: flatten_def)
  then obtain all_methods where all: "flatten lib u = Some all_methods" "length (filter is_invoice all_methods) \<le> 1" by blast
  define ms where "ms = filter (supports_network lib network) all_methods"
  have "length (filter is_invoice ms) \<le> length (filter is_invoice all_methods)"
    unfolding ms_def filter_filter conj_commute [of "supports_network lib network _"]
    unfolding filter_filter [symmetric] by (rule length_filter_le)
  with all(2) have single: "length (filter is_invoice ms) \<le> 1" by simp
  have last_inv: "last (filter is_invoice ms) = hd (filter is_invoice ms)" if "filter is_invoice ms \<noteq> []"
    using single that by (cases "filter is_invoice ms") auto
  have inv: "is_invoice (hd (filter is_invoice ms))" if "filter is_invoice ms \<noteq> []"
    using that hd_in_set by fastforce
  have on: "is_onchain (last (filter is_onchain ms))" if "filter is_onchain ms \<noteq> []"
    using that last_in_set by fastforce
  have off: "is_offer (last ms)" if "ms \<noteq> []" "filter is_invoice ms = []" "filter is_onchain ms = []"
    using that preference_kinds(5) by (metis empty_filter_conv last_in_set)
  have "resolve_best lib u network =
      (if ms = [] then Inl (NotValidForNetwork network)
       else if filter is_invoice ms \<noteq> [] then Inr (hd (filter is_invoice ms))
       else if filter is_onchain ms \<noteq> [] then Inr (last (filter is_onchain ms))
       else Inl OffersUnsupported)"
    using best_method [of ms] inv on off preference_kinds(6) last_inv
    by (auto simp: resolve_best_def all(1) ms_def [symmetric] Let_def ensure_def simp del: ms_def)
  with all ms_def show ?thesis by blast
qed

theorem resolve_best_correct_witness:
  "resolve_best text_lib example_uri MAINNET = Inr (PaymentMethod.Invoice (LxInvoice ''xy'')) \<and>
   resolve_best text_lib example_uri TESTNET = Inl OffersUnsupported"
proof -
  have laws: "decimal_laws (ul_decimal text_lib)" using text_codes.decimals .
  obtain x where flat: "flatten text_lib example_uri =
      Some [PaymentMethod.Onchain x, PaymentMethod.Invoice (LxInvoice ''xy''), PaymentMethod.Offer (LxOffer (Offer.Offer [1, 255]))]"
    by (simp add: example_uri_def flatten_def flatten_opt_invoice_def flatten_invoice_into_def onchain_fallbacks_def
        opt_method_def text_lib_def)
  have net: "supports_network text_lib n m \<longleftrightarrow> is_offer m \<or> n = MAINNET" for n m
    by (cases m) (auto simp: supports_network_def is_offer_def invoice_supports_network_def invoice_network_def
        onchain_supports_network_def offer_supports_network_def text_lib_def MAINNET_def Network.expand)
  from resolve_best_correct [OF laws, of example_uri MAINNET] resolve_best_correct [OF laws, of example_uri TESTNET] flat
  show ?thesis by (auto simp: net is_offer_def is_onchain_def MAINNET_def TESTNET_def)
qed

section \<open>Amounts that make the parser panic\<close>

text \<open>The amount's value in satoshi does not fit the decimal type.\<close>

definition overflowing_amount :: "uri_lib \<Rightarrow> UriParam \<Rightarrow> bool" where
  "overflowing_amount lib p \<longleftrightarrow> param_key p = ''amount'' \<and>
     (case dec_from_str (ul_decimal lib) (param_value p) of
        None \<Rightarrow> False
      | Some d \<Rightarrow> dec_checked_mul (ul_decimal lib) d (dec_lit 100000000) = None)"

lemma onchain_params_panics:
  "onchain_params lib ps x = None \<Longrightarrow> \<exists>p \<in> set ps. overflowing_amount lib p"
proof (induction ps arbitrary: x)
  case (Cons p ps)
  show ?case
  proof (cases "param_key p = ''amount'' \<and> parse_onchain_btc_amount lib (param_value p) = None")
    case True
    then show ?thesis
      by (auto simp: overflowing_amount_def parse_onchain_btc_amount_def try_from_btc_def split: option.splits)
  next
    case False
    then have "\<exists>y. onchain_params lib ps y = None" using Cons.prems by (auto split: if_splits bind_splits)
    then show ?thesis using Cons.IH by auto
  qed
qed simp

lemma payment_uri_parse_panics:
  assumes "payment_uri_parse lib s = None"
  obtains uri p where "uri_parse (ul_percent lib) (trim s) = Some uri" and "p \<in> set (uri_params uri)" and "overflowing_amount lib p"
proof -
  obtain uri where uri: "uri_parse (ul_percent lib) (trim s) = Some uri" "bip21_parse_uri_inner lib uri = None"
    using assms by (auto simp: payment_uri_parse_def Let_def split: option.splits if_splits)
  from uri(2) obtain x where "onchain_params lib (uri_params uri) x = None"
    by (auto simp: bip21_parse_uri_inner_def split: prod.splits bool.splits option.splits)
  with onchain_params_panics uri(1) that show thesis by blast
qed

definition amount_uri :: "string \<Rightarrow> string \<Rightarrow> Uri" where
  "amount_uri body v = \<lparr>uri_scheme = ''bitcoin'', uri_body = body, uri_params = [\<lparr>param_key = ''amount'', param_value = v\<rparr>]\<rparr>"


lemma huge_decimal: "dec_checked_mul (ul_decimal text_lib) (Decimal False (10 ^ 28) 0) (dec_lit 100000000) = None"
proof -
  have "find (\<lambda>s. integral (10 ^ 36 * 10 ^ s)) [0..<29] = Some 0"
    by (simp add: upt_rec integral_iff)
  moreover have "quotient_of (10 ^ 36) = (10 ^ 36, 1)" using quotient_of_int [of "10 ^ 36"] by (simp add: Rat.of_int_def)
  ultimately have "to_decimal (10 ^ 36) = None" by (simp add: to_decimal_def)
  moreover have "dec_value (Decimal False (10 ^ 28) 0) * dec_value (dec_lit 100000000) = 10 ^ 36"
    by (simp add: dec_value_def dec_lit_def)
  ultimately show ?thesis by (simp only: text_lib_def exact_ops_def uri_lib.simps decimal_ops.simps)
qed


end
