(* ===== verification/Wallet_Db.thy ===== *)
theory Wallet_Db
  imports BTree_Map
begin

text \<open>
  \<^verbatim>\<open>lexe-ln/src/wallet/db/mod.rs\<close>: the wallet database that BDK works on.  \<^verbatim>\<open>DbData\<close> holds ordered maps;
  \<^verbatim>\<open>DbBatch\<close> queues operations; \<^verbatim>\<open>WalletDb\<close> wraps the data and a channel to the task that persists it.
  BDK's trait \<^verbatim>\<open>BatchOperations\<close> is the record \<open>batch_ops\<close>, with one instance per implementation.  The types
  of \<^verbatim>\<open>bdk\<close> and \<^verbatim>\<open>bitcoin\<close> are kept as data; transactions are an opaque type \<open>'tx\<close>, and \<open>wallet_lib\<close> gives
  their ids and the orders of the map keys.
\<close>

section \<open>Data\<close>

datatype KeychainKind = External | Internal

record Path =
  keychain :: KeychainKind
  child :: u32

type_synonym Script = bytes
type_synonym Txid = bytes

record OutPoint =
  op_txid :: Txid
  op_vout :: u32

record LocalUtxo =
  outpoint :: OutPoint
  txout_value :: u64
  txout_script :: Script
  utxo_keychain :: KeychainKind
  is_spent :: bool

record BlockTime =
  bt_height :: u32
  bt_timestamp :: u64

record SyncTime =
  block_time :: BlockTime

record 'tx TransactionDetails =
  td_transaction :: "'tx option"
  td_txid :: Txid
  td_received :: u64
  td_sent :: u64
  td_fee :: "u64 option"
  td_confirmation_time :: "BlockTime option"

record TransactionMetadata =
  tm_txid :: Txid
  tm_received :: u64
  tm_sent :: u64
  tm_fee :: "u64 option"
  tm_confirmation_time :: "BlockTime option"

record 'tx wallet_lib =
  tx_txid :: "'tx \<Rightarrow> Txid"
  script_cmp :: "Script \<Rightarrow> Script \<Rightarrow> ordering"
  bitcoin_txid_cmp :: "Txid \<Rightarrow> Txid \<Rightarrow> ordering"

type_synonym ('k, 'v) BTreeMap = "('k \<times> 'v) list"

record 'tx DbData =
  path_to_script :: "(Path, Script) BTreeMap"
  script_to_path :: "(Script, Path) BTreeMap"
  utxos :: "(OutPoint, LocalUtxo) BTreeMap"
  raw_txs :: "(Txid, 'tx) BTreeMap"
  tx_metas :: "(Txid, TransactionMetadata) BTreeMap"
  last_external_index :: "u32 option"
  last_internal_index :: "u32 option"
  sync_time :: "SyncTime option"
  external_checksum :: "bytes option"
  internal_checksum :: "bytes option"

datatype 'tx DbOp =
    SetPathScript Path Script
  | DelByPath Path
  | DelByScript Script
  | SetUtxo LocalUtxo
  | DelUtxo OutPoint
  | SetRawTx 'tx
  | DelRawTx Txid
  | SetTx "'tx TransactionDetails"
  | DelTx Txid bool
  | SetLastIndex Path
  | DelLastIndex KeychainKind
  | SetSyncTime SyncTime
  | DelSyncTime

datatype BdkError = ChecksumMismatch | Generic

section \<open>Keys\<close>

definition path_cmp :: "Path \<Rightarrow> Path \<Rightarrow> ordering" where
  "path_cmp self other =
     (case (keychain self, keychain other) of
        (External, Internal) \<Rightarrow> Less
      | (Internal, External) \<Rightarrow> Greater
      | _ \<Rightarrow> cmp_lin (child self) (child other))"

text \<open>The derived order of \<^verbatim>\<open>bitcoin::OutPoint\<close>: by transaction id, then output.\<close>

definition outpoint_cmp :: "'tx wallet_lib \<Rightarrow> OutPoint \<Rightarrow> OutPoint \<Rightarrow> ordering" where
  "outpoint_cmp lib a b = then_cmp (bitcoin_txid_cmp lib (op_txid a) (op_txid b)) (cmp_lin (op_vout a) (op_vout b))"

definition fmt_u32 :: "u32 \<Rightarrow> string" where
  "fmt_u32 n = map digit_char (nat_digits (unat n))"

text \<open>\<^verbatim>\<open>u32::from_str\<close>: an optional plus sign, then at least one digit, no overflow.\<close>

fun u32_digits :: "nat \<Rightarrow> string \<Rightarrow> nat option" where
  "u32_digits acc [] = Some acc"
| "u32_digits acc (c # s) =
     (case to_digit c of
        None \<Rightarrow> None
      | Some d \<Rightarrow> let n = 10 * acc + d in if n < 2 ^ 32 then u32_digits n s else None)"

definition u32_from_str :: "string \<Rightarrow> u32 option" where
  "u32_from_str s =
     (let ds = (if s \<noteq> [] \<and> hd s = CHR ''+'' then tl s else s)
      in if ds = [] then None else map_option of_nat (u32_digits 0 ds))"

definition path_display :: "Path \<Rightarrow> string" where
  "path_display p = (case keychain p of External \<Rightarrow> ''ext'' | Internal \<Rightarrow> ''int'') @ CHR ''@'' # fmt_u32 (child p)"

datatype PathError = BadPathFormat | BadKeychain | BadChild

definition path_from_str :: "string \<Rightarrow> PathError + Path" where
  "path_from_str s =
     (case split_char (CHR ''@'') s of
        [k_str, c_str] \<Rightarrow>
          and_then (if k_str = ''ext'' then Inr External else if k_str = ''int'' then Inr Internal else Inl BadKeychain)
            (\<lambda>k. and_then (ok_or BadChild (u32_from_str c_str)) (\<lambda>c. Inr \<lparr>keychain = k, child = c\<rparr>))
      | _ \<Rightarrow> Inl BadPathFormat)"

definition metadata_from :: "'tx TransactionDetails \<Rightarrow> TransactionMetadata" where
  "metadata_from tx =
     \<lparr>tm_txid = td_txid tx, tm_received = td_received tx, tm_sent = td_sent tx, tm_fee = td_fee tx,
      tm_confirmation_time = td_confirmation_time tx\<rparr>"

definition into_tx :: "TransactionMetadata \<Rightarrow> 'tx option \<Rightarrow> 'tx TransactionDetails" where
  "into_tx meta maybe_raw_tx =
     \<lparr>td_transaction = maybe_raw_tx, td_txid = tm_txid meta, td_received = tm_received meta, td_sent = tm_sent meta,
      td_fee = tm_fee meta, td_confirmation_time = tm_confirmation_time meta\<rparr>"

section \<open>DbData\<close>

definition db_data_new :: "'tx DbData" where
  "db_data_new =
     \<lparr>path_to_script = [], script_to_path = [], utxos = [], raw_txs = [], tx_metas = [], last_external_index = None,
      last_internal_index = None, sync_time = None, external_checksum = None, internal_checksum = None\<rparr>"

subsection \<open>Reading: the trait \<^verbatim>\<open>Database\<close>\<close>

definition iter_script_pubkeys :: "KeychainKind option \<Rightarrow> 'tx DbData \<Rightarrow> Script list" where
  "iter_script_pubkeys maybe_filter_keychain db =
     (case maybe_filter_keychain of
        Some k \<Rightarrow> map snd (filter (\<lambda>(p, _). keychain p = k) (path_to_script db))
      | None \<Rightarrow> map snd (path_to_script db))"

definition iter_utxos :: "'tx DbData \<Rightarrow> LocalUtxo list" where
  "iter_utxos db = map snd (utxos db)"

definition iter_raw_txs :: "'tx DbData \<Rightarrow> 'tx list" where
  "iter_raw_txs db = map snd (raw_txs db)"

definition iter_txs :: "'tx wallet_lib \<Rightarrow> bool \<Rightarrow> 'tx DbData \<Rightarrow> 'tx TransactionDetails list" where
  "iter_txs lib include_raw db =
     (let txs = map (\<lambda>(_, meta). into_tx meta None) (tx_metas db)
      in if include_raw
         then map (\<lambda>tx. tx\<lparr>td_transaction := bt_get (bitcoin_txid_cmp lib) (td_txid tx) (raw_txs db)\<rparr>) txs
         else txs)"

definition get_script_pubkey_from_path :: "KeychainKind \<Rightarrow> u32 \<Rightarrow> 'tx DbData \<Rightarrow> Script option" where
  "get_script_pubkey_from_path k c db = bt_get path_cmp \<lparr>keychain = k, child = c\<rparr> (path_to_script db)"

definition get_path_from_script_pubkey :: "'tx wallet_lib \<Rightarrow> Script \<Rightarrow> 'tx DbData \<Rightarrow> (KeychainKind \<times> u32) option" where
  "get_path_from_script_pubkey lib script db =
     map_option (\<lambda>p. (keychain p, child p)) (bt_get (script_cmp lib) script (script_to_path db))"

definition get_utxo :: "'tx wallet_lib \<Rightarrow> OutPoint \<Rightarrow> 'tx DbData \<Rightarrow> LocalUtxo option" where
  "get_utxo lib o' db = bt_get (outpoint_cmp lib) o' (utxos db)"

definition get_raw_tx :: "'tx wallet_lib \<Rightarrow> Txid \<Rightarrow> 'tx DbData \<Rightarrow> 'tx option" where
  "get_raw_tx lib txid db = bt_get (bitcoin_txid_cmp lib) txid (raw_txs db)"

definition get_tx :: "'tx wallet_lib \<Rightarrow> Txid \<Rightarrow> bool \<Rightarrow> 'tx DbData \<Rightarrow> 'tx TransactionDetails option" where
  "get_tx lib txid include_raw db =
     (let maybe_raw_tx = (if include_raw then bt_get (bitcoin_txid_cmp lib) txid (raw_txs db) else None)
      in map_option (\<lambda>meta. into_tx meta maybe_raw_tx) (bt_get (bitcoin_txid_cmp lib) txid (tx_metas db)))"

definition get_last_index :: "KeychainKind \<Rightarrow> 'tx DbData \<Rightarrow> u32 option" where
  "get_last_index k db = (case k of External \<Rightarrow> last_external_index db | Internal \<Rightarrow> last_internal_index db)"

definition get_sync_time :: "'tx DbData \<Rightarrow> SyncTime option" where
  "get_sync_time db = sync_time db"

definition put_last_index :: "KeychainKind \<Rightarrow> u32 option \<Rightarrow> 'tx DbData \<Rightarrow> 'tx DbData" where
  "put_last_index k i db =
     (case k of External \<Rightarrow> db\<lparr>last_external_index := i\<rparr> | Internal \<Rightarrow> db\<lparr>last_internal_index := i\<rparr>)"

text \<open>\<^verbatim>\<open>*index += 1\<close> wraps around in a release build.\<close>

definition increment_last_index :: "KeychainKind \<Rightarrow> 'tx DbData \<Rightarrow> u32 \<times> 'tx DbData" where
  "increment_last_index k db =
     (let last_index = (case get_last_index k db of Some index \<Rightarrow> index + 1 | None \<Rightarrow> 0)
      in (last_index, put_last_index k (Some last_index) db))"

definition check_descriptor_checksum :: "KeychainKind \<Rightarrow> bytes \<Rightarrow> 'tx DbData \<Rightarrow> (BdkError + unit) \<times> 'tx DbData" where
  "check_descriptor_checksum k given_checksum db =
     (let saved = (case k of External \<Rightarrow> external_checksum db | Internal \<Rightarrow> internal_checksum db);
          saved_checksum = (case saved of Some s \<Rightarrow> s | None \<Rightarrow> given_checksum);
          db' = (case k of External \<Rightarrow> db\<lparr>external_checksum := Some saved_checksum\<rparr>
                 | Internal \<Rightarrow> db\<lparr>internal_checksum := Some saved_checksum\<rparr>)
      in (if saved_checksum = given_checksum then Inr () else Inl ChecksumMismatch, db'))"

record ('tx, 's) database =
  dt_check_descriptor_checksum :: "KeychainKind \<Rightarrow> bytes \<Rightarrow> 's \<Rightarrow> (BdkError + unit) \<times> 's"
  dt_iter_script_pubkeys :: "KeychainKind option \<Rightarrow> 's \<Rightarrow> Script list"
  dt_iter_utxos :: "'s \<Rightarrow> LocalUtxo list"
  dt_iter_raw_txs :: "'s \<Rightarrow> 'tx list"
  dt_iter_txs :: "bool \<Rightarrow> 's \<Rightarrow> 'tx TransactionDetails list"
  dt_get_script_pubkey_from_path :: "KeychainKind \<Rightarrow> u32 \<Rightarrow> 's \<Rightarrow> Script option"
  dt_get_path_from_script_pubkey :: "Script \<Rightarrow> 's \<Rightarrow> (KeychainKind \<times> u32) option"
  dt_get_utxo :: "OutPoint \<Rightarrow> 's \<Rightarrow> LocalUtxo option"
  dt_get_raw_tx :: "Txid \<Rightarrow> 's \<Rightarrow> 'tx option"
  dt_get_tx :: "Txid \<Rightarrow> bool \<Rightarrow> 's \<Rightarrow> 'tx TransactionDetails option"
  dt_get_last_index :: "KeychainKind \<Rightarrow> 's \<Rightarrow> u32 option"
  dt_get_sync_time :: "'s \<Rightarrow> SyncTime option"
  dt_increment_last_index :: "KeychainKind \<Rightarrow> 's \<Rightarrow> u32 \<times> 's"

subsection \<open>Writing: the trait \<^verbatim>\<open>BatchOperations\<close>\<close>

record ('tx, 's) batch_ops =
  bo_set_script_pubkey :: "Script \<Rightarrow> KeychainKind \<Rightarrow> u32 \<Rightarrow> 's \<Rightarrow> 's"
  bo_set_utxo :: "LocalUtxo \<Rightarrow> 's \<Rightarrow> 's"
  bo_set_raw_tx :: "'tx \<Rightarrow> 's \<Rightarrow> 's"
  bo_set_tx :: "'tx TransactionDetails \<Rightarrow> 's \<Rightarrow> 's"
  bo_set_last_index :: "KeychainKind \<Rightarrow> u32 \<Rightarrow> 's \<Rightarrow> 's"
  bo_set_sync_time :: "SyncTime \<Rightarrow> 's \<Rightarrow> 's"
  bo_del_script_pubkey_from_path :: "KeychainKind \<Rightarrow> u32 \<Rightarrow> 's \<Rightarrow> Script option \<times> 's"
  bo_del_path_from_script_pubkey :: "Script \<Rightarrow> 's \<Rightarrow> (KeychainKind \<times> u32) option \<times> 's"
  bo_del_utxo :: "OutPoint \<Rightarrow> 's \<Rightarrow> LocalUtxo option \<times> 's"
  bo_del_raw_tx :: "Txid \<Rightarrow> 's \<Rightarrow> 'tx option \<times> 's"
  bo_del_tx :: "Txid \<Rightarrow> bool \<Rightarrow> 's \<Rightarrow> 'tx TransactionDetails option \<times> 's"
  bo_del_last_index :: "KeychainKind \<Rightarrow> 's \<Rightarrow> u32 option \<times> 's"
  bo_del_sync_time :: "'s \<Rightarrow> SyncTime option \<times> 's"

definition set_script_pubkey :: "'tx wallet_lib \<Rightarrow> Script \<Rightarrow> KeychainKind \<Rightarrow> u32 \<Rightarrow> 'tx DbData \<Rightarrow> 'tx DbData" where
  "set_script_pubkey lib script k c db =
     (let new_path = \<lparr>keychain = k, child = c\<rparr>
      in db\<lparr>path_to_script := bt_insert path_cmp new_path script (path_to_script db),
            script_to_path := bt_insert (script_cmp lib) script new_path (script_to_path db)\<rparr>)"

definition set_utxo :: "'tx wallet_lib \<Rightarrow> LocalUtxo \<Rightarrow> 'tx DbData \<Rightarrow> 'tx DbData" where
  "set_utxo lib utxo db = db\<lparr>utxos := bt_insert (outpoint_cmp lib) (outpoint utxo) utxo (utxos db)\<rparr>"

definition set_raw_tx :: "'tx wallet_lib \<Rightarrow> 'tx \<Rightarrow> 'tx DbData \<Rightarrow> 'tx DbData" where
  "set_raw_tx lib raw_tx db = db\<lparr>raw_txs := bt_insert (bitcoin_txid_cmp lib) (tx_txid lib raw_tx) raw_tx (raw_txs db)\<rparr>"

definition set_tx :: "'tx wallet_lib \<Rightarrow> 'tx TransactionDetails \<Rightarrow> 'tx DbData \<Rightarrow> 'tx DbData" where
  "set_tx lib tx db =
     (let db = (case td_transaction tx of
                  None \<Rightarrow> db
                | Some raw_tx \<Rightarrow> db\<lparr>raw_txs := bt_insert (bitcoin_txid_cmp lib) (td_txid tx) raw_tx (raw_txs db)\<rparr>);
          meta = metadata_from (tx\<lparr>td_transaction := None\<rparr>)
      in db\<lparr>tx_metas := bt_insert (bitcoin_txid_cmp lib) (tm_txid meta) meta (tx_metas db)\<rparr>)"

definition set_last_index :: "KeychainKind \<Rightarrow> u32 \<Rightarrow> 'tx DbData \<Rightarrow> 'tx DbData" where
  "set_last_index k index db = put_last_index k (Some index) db"

definition set_sync_time :: "SyncTime \<Rightarrow> 'tx DbData \<Rightarrow> 'tx DbData" where
  "set_sync_time time db = db\<lparr>sync_time := Some time\<rparr>"

definition del_script_pubkey_from_path :: "KeychainKind \<Rightarrow> u32 \<Rightarrow> 'tx DbData \<Rightarrow> Script option \<times> 'tx DbData" where
  "del_script_pubkey_from_path k c db =
     (let path = \<lparr>keychain = k, child = c\<rparr>
      in (bt_get path_cmp path (path_to_script db), db\<lparr>path_to_script := bt_remove path_cmp path (path_to_script db)\<rparr>))"

definition del_path_from_script_pubkey ::
    "'tx wallet_lib \<Rightarrow> Script \<Rightarrow> 'tx DbData \<Rightarrow> (KeychainKind \<times> u32) option \<times> 'tx DbData" where
  "del_path_from_script_pubkey lib script db =
     (map_option (\<lambda>p. (keychain p, child p)) (bt_get (script_cmp lib) script (script_to_path db)),
      db\<lparr>script_to_path := bt_remove (script_cmp lib) script (script_to_path db)\<rparr>)"

definition del_utxo :: "'tx wallet_lib \<Rightarrow> OutPoint \<Rightarrow> 'tx DbData \<Rightarrow> LocalUtxo option \<times> 'tx DbData" where
  "del_utxo lib o' db =
     (bt_get (outpoint_cmp lib) o' (utxos db), db\<lparr>utxos := bt_remove (outpoint_cmp lib) o' (utxos db)\<rparr>)"

definition del_raw_tx :: "'tx wallet_lib \<Rightarrow> Txid \<Rightarrow> 'tx DbData \<Rightarrow> 'tx option \<times> 'tx DbData" where
  "del_raw_tx lib txid db =
     (bt_get (bitcoin_txid_cmp lib) txid (raw_txs db), db\<lparr>raw_txs := bt_remove (bitcoin_txid_cmp lib) txid (raw_txs db)\<rparr>)"

definition del_tx ::
    "'tx wallet_lib \<Rightarrow> Txid \<Rightarrow> bool \<Rightarrow> 'tx DbData \<Rightarrow> 'tx TransactionDetails option \<times> 'tx DbData" where
  "del_tx lib txid include_raw db =
     (let (maybe_raw_tx, db) = (if include_raw then del_raw_tx lib txid db else (None, db))
      in (map_option (\<lambda>meta. into_tx meta maybe_raw_tx) (bt_get (bitcoin_txid_cmp lib) txid (tx_metas db)),
          db\<lparr>tx_metas := bt_remove (bitcoin_txid_cmp lib) txid (tx_metas db)\<rparr>))"

definition del_last_index :: "KeychainKind \<Rightarrow> 'tx DbData \<Rightarrow> u32 option \<times> 'tx DbData" where
  "del_last_index k db = (get_last_index k db, put_last_index k None db)"

definition del_sync_time :: "'tx DbData \<Rightarrow> SyncTime option \<times> 'tx DbData" where
  "del_sync_time db = (sync_time db, db\<lparr>sync_time := None\<rparr>)"

definition db_data_ops :: "'tx wallet_lib \<Rightarrow> ('tx, 'tx DbData) batch_ops" where
  "db_data_ops lib =
     \<lparr>bo_set_script_pubkey = set_script_pubkey lib, bo_set_utxo = set_utxo lib, bo_set_raw_tx = set_raw_tx lib,
      bo_set_tx = set_tx lib, bo_set_last_index = set_last_index, bo_set_sync_time = set_sync_time,
      bo_del_script_pubkey_from_path = del_script_pubkey_from_path,
      bo_del_path_from_script_pubkey = del_path_from_script_pubkey lib, bo_del_utxo = del_utxo lib,
      bo_del_raw_tx = del_raw_tx lib, bo_del_tx = del_tx lib, bo_del_last_index = del_last_index,
      bo_del_sync_time = del_sync_time\<rparr>"

section \<open>DbBatch\<close>

datatype 'tx DbBatch = DbBatch (batch: "'tx DbOp list")

definition batch_new :: "'tx DbBatch" where
  "batch_new = DbBatch []"

definition batch_push :: "'tx DbOp \<Rightarrow> 'tx DbBatch \<Rightarrow> 'tx DbBatch" where
  "batch_push op b = DbBatch (batch b @ [op])"

definition db_batch_ops :: "('tx, 'tx DbBatch) batch_ops" where
  "db_batch_ops =
     \<lparr>bo_set_script_pubkey = (\<lambda>script k c. batch_push (SetPathScript \<lparr>keychain = k, child = c\<rparr> script)),
      bo_set_utxo = (\<lambda>utxo. batch_push (SetUtxo utxo)),
      bo_set_raw_tx = (\<lambda>raw_tx. batch_push (SetRawTx raw_tx)),
      bo_set_tx = (\<lambda>tx. batch_push (SetTx tx)),
      bo_set_last_index = (\<lambda>k c. batch_push (SetLastIndex \<lparr>keychain = k, child = c\<rparr>)),
      bo_set_sync_time = (\<lambda>time. batch_push (SetSyncTime time)),
      bo_del_script_pubkey_from_path = (\<lambda>k c b. (None, batch_push (DelByPath \<lparr>keychain = k, child = c\<rparr>) b)),
      bo_del_path_from_script_pubkey = (\<lambda>script b. (None, batch_push (DelByScript script) b)),
      bo_del_utxo = (\<lambda>o' b. (None, batch_push (DelUtxo o') b)),
      bo_del_raw_tx = (\<lambda>txid b. (None, batch_push (DelRawTx txid) b)),
      bo_del_tx = (\<lambda>txid include_raw b. (None, batch_push (DelTx txid include_raw) b)),
      bo_del_last_index = (\<lambda>k b. (None, batch_push (DelLastIndex k) b)),
      bo_del_sync_time = (\<lambda>b. (None, batch_push DelSyncTime b))\<rparr>"

text \<open>\<^verbatim>\<open>DbOp::do_op\<close>; the results of the operations are dropped.\<close>

fun do_op :: "('tx, 's) batch_ops \<Rightarrow> 'tx DbOp \<Rightarrow> 's \<Rightarrow> 's" where
  "do_op ops (SetPathScript p script) db = bo_set_script_pubkey ops script (keychain p) (child p) db"
| "do_op ops (DelByPath p) db = snd (bo_del_script_pubkey_from_path ops (keychain p) (child p) db)"
| "do_op ops (DelByScript script) db = snd (bo_del_path_from_script_pubkey ops script db)"
| "do_op ops (SetUtxo utxo) db = bo_set_utxo ops utxo db"
| "do_op ops (DelUtxo o') db = snd (bo_del_utxo ops o' db)"
| "do_op ops (SetRawTx raw_tx) db = bo_set_raw_tx ops raw_tx db"
| "do_op ops (DelRawTx txid) db = snd (bo_del_raw_tx ops txid db)"
| "do_op ops (SetTx tx) db = bo_set_tx ops tx db"
| "do_op ops (DelTx txid include_raw) db = snd (bo_del_tx ops txid include_raw db)"
| "do_op ops (SetLastIndex p) db = bo_set_last_index ops (keychain p) (child p) db"
| "do_op ops (DelLastIndex k) db = snd (bo_del_last_index ops k db)"
| "do_op ops (SetSyncTime time) db = bo_set_sync_time ops time db"
| "do_op ops DelSyncTime db = snd (bo_del_sync_time ops db)"

section \<open>WalletDb\<close>

text \<open>
  The channel to the persister task is a state of type \<open>'c\<close>; \<open>try_send\<close> says whether the notification got
  through.  The lock is held for one operation, or for all operations of a committed batch.
\<close>

record ('tx, 'c) WalletDb =
  wdb_inner :: "'tx DbData"
  wallet_db_persister_tx :: 'c

definition wallet_db_new :: "'c \<Rightarrow> ('tx, 'c) WalletDb" where
  "wallet_db_new tx = \<lparr>wdb_inner = db_data_new, wallet_db_persister_tx = tx\<rparr>"

definition from_inner :: "'tx DbData \<Rightarrow> 'c \<Rightarrow> ('tx, 'c) WalletDb" where
  "from_inner d tx = \<lparr>wdb_inner = d, wallet_db_persister_tx = tx\<rparr>"

definition locked :: "('tx DbData \<Rightarrow> 'tx DbData) \<Rightarrow> ('tx, 'c) WalletDb \<Rightarrow> ('tx, 'c) WalletDb" where
  "locked f db = db\<lparr>wdb_inner := f (wdb_inner db)\<rparr>"

definition locked_ret :: "('tx DbData \<Rightarrow> 'r \<times> 'tx DbData) \<Rightarrow> ('tx, 'c) WalletDb \<Rightarrow> 'r \<times> ('tx, 'c) WalletDb" where
  "locked_ret f db = (case f (wdb_inner db) of (r, d) \<Rightarrow> (r, db\<lparr>wdb_inner := d\<rparr>))"

definition wallet_db_ops :: "'tx wallet_lib \<Rightarrow> ('tx, ('tx, 'c) WalletDb) batch_ops" where
  "wallet_db_ops lib =
     \<lparr>bo_set_script_pubkey = (\<lambda>script k c. locked (set_script_pubkey lib script k c)),
      bo_set_utxo = (\<lambda>utxo. locked (set_utxo lib utxo)),
      bo_set_raw_tx = (\<lambda>raw_tx. locked (set_raw_tx lib raw_tx)),
      bo_set_tx = (\<lambda>tx. locked (set_tx lib tx)),
      bo_set_last_index = (\<lambda>k index. locked (set_last_index k index)),
      bo_set_sync_time = (\<lambda>time. locked (set_sync_time time)),
      bo_del_script_pubkey_from_path = (\<lambda>k c. locked_ret (del_script_pubkey_from_path k c)),
      bo_del_path_from_script_pubkey = (\<lambda>script. locked_ret (del_path_from_script_pubkey lib script)),
      bo_del_utxo = (\<lambda>o'. locked_ret (del_utxo lib o')),
      bo_del_raw_tx = (\<lambda>txid. locked_ret (del_raw_tx lib txid)),
      bo_del_tx = (\<lambda>txid include_raw. locked_ret (del_tx lib txid include_raw)),
      bo_del_last_index = (\<lambda>k. locked_ret (del_last_index k)),
      bo_del_sync_time = locked_ret del_sync_time\<rparr>"

definition wallet_database :: "'tx wallet_lib \<Rightarrow> ('tx, ('tx, 'c) WalletDb) database" where
  "wallet_database lib =
     \<lparr>dt_check_descriptor_checksum = (\<lambda>k given. locked_ret (check_descriptor_checksum k given)),
      dt_iter_script_pubkeys = (\<lambda>k db. iter_script_pubkeys k (wdb_inner db)),
      dt_iter_utxos = (\<lambda>db. iter_utxos (wdb_inner db)),
      dt_iter_raw_txs = (\<lambda>db. iter_raw_txs (wdb_inner db)),
      dt_iter_txs = (\<lambda>include_raw db. iter_txs lib include_raw (wdb_inner db)),
      dt_get_script_pubkey_from_path = (\<lambda>k c db. get_script_pubkey_from_path k c (wdb_inner db)),
      dt_get_path_from_script_pubkey = (\<lambda>script db. get_path_from_script_pubkey lib script (wdb_inner db)),
      dt_get_utxo = (\<lambda>o' db. get_utxo lib o' (wdb_inner db)),
      dt_get_raw_tx = (\<lambda>txid db. get_raw_tx lib txid (wdb_inner db)),
      dt_get_tx = (\<lambda>txid include_raw db. get_tx lib txid include_raw (wdb_inner db)),
      dt_get_last_index = (\<lambda>k db. get_last_index k (wdb_inner db)),
      dt_get_sync_time = (\<lambda>db. get_sync_time (wdb_inner db)),
      dt_increment_last_index = (\<lambda>k. locked_ret (increment_last_index k))\<rparr>"

definition begin_batch :: "('tx, 'c) WalletDb \<Rightarrow> 'tx DbBatch" where
  "begin_batch db = batch_new"

definition commit_batch ::
    "'tx wallet_lib \<Rightarrow> ('c \<Rightarrow> bool \<times> 'c) \<Rightarrow> 'tx DbBatch \<Rightarrow> ('tx, 'c) WalletDb \<Rightarrow> (BdkError + unit) \<times> ('tx, 'c) WalletDb" where
  "commit_batch lib try_send b db =
     (let db = locked (fold (do_op (db_data_ops lib)) (batch b)) db
      in case try_send (wallet_db_persister_tx db) of
           (sent, tx) \<Rightarrow> (if sent then Inr () else Inl Generic, db\<lparr>wallet_db_persister_tx := tx\<rparr>))"

end
