(* ===== verification/Wallet_Db_Proofs.thy ===== *)
theory Wallet_Db_Proofs
  imports Wallet_Db
begin

text \<open>
  The wallet database as a key-value store: every lookup gives what the last operation that concerns its
  key left there.  The locale \<open>observed_store\<close> derives this for a whole sequence of operations from what one
  operation does; it is interpreted for each of the database's lookups.
\<close>

section \<open>The order of paths\<close>

definition path_rank :: "Path \<Rightarrow> nat \<times> u32" where
  "path_rank p = (case keychain p of External \<Rightarrow> 0 | Internal \<Rightarrow> 1, child p)"

lemma path_cmp_rank: "path_cmp p q =
    then_cmp (cmp_lin (fst (path_rank p)) (fst (path_rank q))) (cmp_lin (snd (path_rank p)) (snd (path_rank q)))"
  by (cases "keychain p"; cases "keychain q") (simp_all add: path_cmp_def path_rank_def cmp_lin_def)

lemma path_rank_inj: "inj path_rank"
proof (rule injI)
  fix p q assume "path_rank p = path_rank q"
  then have "keychain p = keychain q" "child p = child q"
    by (cases "keychain p"; cases "keychain q"; simp add: path_rank_def)+
  then show "p = q" by (cases p; cases q) simp
qed

lemma total_cmp_path: "total_cmp path_cmp"
  using total_cmp_inj [OF total_cmp_pair [OF total_cmp_lin total_cmp_lin] path_rank_inj]
  by (simp add: path_cmp_rank [abs_def])

interpretation paths: total_cmp path_cmp
  by (rule total_cmp_path)

section \<open>Last write wins\<close>

text \<open>\<open>eff op\<close> is \<open>None\<close> when the operation does not concern the key, and otherwise what it leaves there.\<close>

definition last_write :: "('op \<Rightarrow> 'v option option) \<Rightarrow> 'op list \<Rightarrow> 'v option \<Rightarrow> 'v option" where
  "last_write eff ops old =
     (case rev (List.map_filter eff ops) of [] \<Rightarrow> old | v # _ \<Rightarrow> v)"

lemma last_write_simps:
  "last_write eff [] old = old"
  "last_write eff (ops @ [op]) old = (case eff op of None \<Rightarrow> last_write eff ops old | Some v \<Rightarrow> v)"
  by (simp_all add: last_write_def List.map_filter_def split: option.splits)

locale observed_store =
  fixes step :: "'op \<Rightarrow> 's \<Rightarrow> 's" and ok :: "'s \<Rightarrow> bool" and get :: "'s \<Rightarrow> 'v option"
    and eff :: "'op \<Rightarrow> 'v option option"
  assumes step_ok: "ok s \<Longrightarrow> ok (step op s)"
    and step_get: "ok s \<Longrightarrow> get (step op s) = (case eff op of None \<Rightarrow> get s | Some v \<Rightarrow> v)"
begin

lemma run_ok: "ok s \<Longrightarrow> ok (fold step ops s)"
  by (induction ops arbitrary: s) (simp_all add: step_ok)

lemma run_get: "ok s \<Longrightarrow> get (fold step ops s) = last_write eff ops (get s)"
  by (induction ops rule: rev_induct) (simp_all add: last_write_simps step_get run_ok split: option.splits)

end

section \<open>The invariant of DbData\<close>

locale wallet_keys =
  fixes lib :: "'tx wallet_lib"
  assumes script_order: "total_cmp (script_cmp lib)" and txid_order: "total_cmp (bitcoin_txid_cmp lib)"
begin

lemma outpoint_order: "total_cmp (outpoint_cmp lib)"
proof -
  have "inj (\<lambda>o' :: OutPoint. (op_txid o', op_vout o'))" by (rule injI) (auto intro: OutPoint.equality)
  from total_cmp_inj [OF total_cmp_pair [OF txid_order total_cmp_lin] this] show ?thesis
    by (simp add: outpoint_cmp_def [abs_def])
qed

end

definition db_ok :: "'tx wallet_lib \<Rightarrow> 'tx DbData \<Rightarrow> bool" where
  "db_ok lib d \<longleftrightarrow> bt_sorted path_cmp (path_to_script d) \<and> bt_sorted (script_cmp lib) (script_to_path d) \<and>
     bt_sorted (outpoint_cmp lib) (utxos d) \<and> bt_sorted (bitcoin_txid_cmp lib) (raw_txs d) \<and>
     bt_sorted (bitcoin_txid_cmp lib) (tx_metas d) \<and>
     (\<forall>(k, u) \<in> set (utxos d). outpoint u = k) \<and> (\<forall>(k, m) \<in> set (tx_metas d). tm_txid m = k)"

fun utxo_effect :: "OutPoint \<Rightarrow> 'tx DbOp \<Rightarrow> LocalUtxo option option" where
  "utxo_effect k (SetUtxo u) = (if outpoint u = k then Some (Some u) else None)"
| "utxo_effect k (DelUtxo k') = (if k' = k then Some None else None)"
| "utxo_effect k _ = None"

fun raw_tx_effect :: "'tx wallet_lib \<Rightarrow> Txid \<Rightarrow> 'tx DbOp \<Rightarrow> 'tx option option" where
  "raw_tx_effect lib t (SetRawTx x) = (if tx_txid lib x = t then Some (Some x) else None)"
| "raw_tx_effect lib t (DelRawTx t') = (if t' = t then Some None else None)"
| "raw_tx_effect lib t (SetTx tx) = (if td_txid tx = t \<and> td_transaction tx \<noteq> None then Some (td_transaction tx) else None)"
| "raw_tx_effect lib t (DelTx t' include_raw) = (if t' = t \<and> include_raw then Some None else None)"
| "raw_tx_effect lib t _ = None"

fun tx_effect :: "Txid \<Rightarrow> 'tx DbOp \<Rightarrow> 'tx TransactionDetails option option" where
  "tx_effect t (SetTx tx) = (if td_txid tx = t then Some (Some (tx\<lparr>td_transaction := None\<rparr>)) else None)"
| "tx_effect t (DelTx t' _) = (if t' = t then Some None else None)"
| "tx_effect t _ = None"

fun script_effect :: "Path \<Rightarrow> 'tx DbOp \<Rightarrow> Script option option" where
  "script_effect p (SetPathScript p' s) = (if p' = p then Some (Some s) else None)"
| "script_effect p (DelByPath p') = (if p' = p then Some None else None)"
| "script_effect p _ = None"

fun path_effect :: "Script \<Rightarrow> 'tx DbOp \<Rightarrow> (KeychainKind \<times> u32) option option" where
  "path_effect s (SetPathScript p s') = (if s' = s then Some (Some (keychain p, child p)) else None)"
| "path_effect s (DelByScript s') = (if s' = s then Some None else None)"
| "path_effect s _ = None"

fun last_index_effect :: "KeychainKind \<Rightarrow> 'tx DbOp \<Rightarrow> u32 option option" where
  "last_index_effect k (SetLastIndex p) = (if keychain p = k then Some (Some (child p)) else None)"
| "last_index_effect k (DelLastIndex k') = (if k' = k then Some None else None)"
| "last_index_effect k _ = None"

fun sync_time_effect :: "'tx DbOp \<Rightarrow> SyncTime option option" where
  "sync_time_effect (SetSyncTime t) = Some (Some t)"
| "sync_time_effect DelSyncTime = Some None"
| "sync_time_effect _ = None"

lemmas db_data_defs = db_data_ops_def set_script_pubkey_def set_utxo_def set_raw_tx_def set_tx_def set_last_index_def
  set_sync_time_def del_script_pubkey_from_path_def del_path_from_script_pubkey_def del_utxo_def del_raw_tx_def
  del_tx_def del_last_index_def del_sync_time_def put_last_index_def Let_def

lemma path_eta [simp]: "\<lparr>keychain = keychain p, child = child p\<rparr> = (p :: Path)"
  by (cases p) simp

context wallet_keys
begin

lemmas map_simps = total_cmp.bt_simps [OF script_order] total_cmp.bt_simps [OF txid_order]
  total_cmp.bt_simps [OF outpoint_order] paths.bt_simps

lemma set_tx_ok: "db_ok lib d \<Longrightarrow> db_ok lib (set_tx lib tx d)"
  using total_cmp.bt_insert_mem [OF txid_order]
  by (fastforce simp: db_ok_def set_tx_def Let_def map_simps metadata_from_def split: option.splits)

lemma del_tx_ok: "db_ok lib d \<Longrightarrow> db_ok lib (snd (del_tx lib t r d))"
  using total_cmp.bt_remove_mem [OF txid_order]
  by (fastforce simp: db_ok_def del_tx_def del_raw_tx_def Let_def map_simps)

lemma utxo_ok: "db_ok lib d \<Longrightarrow> db_ok lib (set_utxo lib u d)" "db_ok lib d \<Longrightarrow> db_ok lib (snd (del_utxo lib k d))"
  using total_cmp.bt_insert_mem [OF outpoint_order] total_cmp.bt_remove_mem [OF outpoint_order]
  by (fastforce simp: db_ok_def set_utxo_def del_utxo_def map_simps)+

lemma do_op_ok: "db_ok lib d \<Longrightarrow> db_ok lib (do_op (db_data_ops lib) op d)"
proof (cases op)
  case (SetUtxo u)
  then show "db_ok lib d \<Longrightarrow> ?thesis" by (simp add: db_data_ops_def utxo_ok)
next
  case (DelUtxo k)
  then show "db_ok lib d \<Longrightarrow> ?thesis" by (simp add: db_data_ops_def utxo_ok)
next
  case (SetTx tx)
  then show "db_ok lib d \<Longrightarrow> ?thesis" by (simp add: db_data_ops_def set_tx_ok)
next
  case (DelTx t r)
  then show "db_ok lib d \<Longrightarrow> ?thesis" by (simp add: db_data_ops_def del_tx_ok)
qed (simp_all add: db_ok_def db_data_defs map_simps split: KeychainKind.splits)

lemma new_ok: "db_ok lib db_data_new"
  by (simp add: db_ok_def db_data_new_def bt_sorted_def)

lemma lookups:
  assumes "db_ok lib d"
  shows "get_utxo lib k d = map_of (utxos d) k" "get_raw_tx lib t d = map_of (raw_txs d) t"
    "get_tx lib t r d = map_option (\<lambda>m. into_tx m (if r then map_of (raw_txs d) t else None)) (map_of (tx_metas d) t)"
    "get_script_pubkey_from_path ki ch d = map_of (path_to_script d) \<lparr>keychain = ki, child = ch\<rparr>"
    "get_path_from_script_pubkey lib sc d = map_option (\<lambda>p. (keychain p, child p)) (map_of (script_to_path d) sc)"
  by (simp_all add: get_utxo_def get_raw_tx_def get_tx_def get_script_pubkey_from_path_def
      get_path_from_script_pubkey_def map_simps)

lemma step_utxo: "db_ok lib d \<Longrightarrow>
    get_utxo lib k (do_op (db_data_ops lib) op d) = (case utxo_effect k op of None \<Rightarrow> get_utxo lib k d | Some v \<Rightarrow> v)"
  by (cases op) (auto simp: get_utxo_def db_data_defs map_simps db_ok_def split: option.splits KeychainKind.splits)

lemma step_raw_tx: "db_ok lib d \<Longrightarrow>
    get_raw_tx lib t (do_op (db_data_ops lib) op d) = (case raw_tx_effect lib t op of None \<Rightarrow> get_raw_tx lib t d | Some v \<Rightarrow> v)"
  by (cases op) (auto simp: get_raw_tx_def db_data_defs map_simps db_ok_def split: option.splits KeychainKind.splits)

lemma into_metadata: "into_tx (metadata_from tx) x = tx\<lparr>td_transaction := x\<rparr>"
  by (cases tx) (simp add: into_tx_def metadata_from_def)

lemma step_tx: "db_ok lib d \<Longrightarrow>
    get_tx lib t False (do_op (db_data_ops lib) op d) = (case tx_effect t op of None \<Rightarrow> get_tx lib t False d | Some v \<Rightarrow> v)"
  by (cases op) (auto simp: get_tx_def db_data_defs map_simps db_ok_def into_metadata [unfolded metadata_from_def] metadata_from_def
      split: option.splits KeychainKind.splits)

lemma step_script: "db_ok lib d \<Longrightarrow>
    get_script_pubkey_from_path ki ch (do_op (db_data_ops lib) op d) =
      (case script_effect \<lparr>keychain = ki, child = ch\<rparr> op of None \<Rightarrow> get_script_pubkey_from_path ki ch d | Some v \<Rightarrow> v)"
  by (cases op) (auto simp: get_script_pubkey_from_path_def db_data_defs map_simps db_ok_def
      split: option.splits KeychainKind.splits)

lemma step_path: "db_ok lib d \<Longrightarrow>
    get_path_from_script_pubkey lib sc (do_op (db_data_ops lib) op d) =
      (case path_effect sc op of None \<Rightarrow> get_path_from_script_pubkey lib sc d | Some v \<Rightarrow> v)"
  by (cases op) (auto simp: get_path_from_script_pubkey_def db_data_defs map_simps db_ok_def
      split: option.splits KeychainKind.splits)

lemma step_last_index:
  "get_last_index ki (do_op (db_data_ops lib) op d) = (case last_index_effect ki op of None \<Rightarrow> get_last_index ki d | Some v \<Rightarrow> v)"
  by (cases op; cases ki) (auto simp: get_last_index_def db_data_defs split: option.splits KeychainKind.splits)

lemma step_sync_time:
  "get_sync_time (do_op (db_data_ops lib) op d) = (case sync_time_effect op of None \<Rightarrow> get_sync_time d | Some v \<Rightarrow> v)"
  by (cases op) (auto simp: get_sync_time_def db_data_defs split: option.splits KeychainKind.splits)

end

sublocale wallet_keys \<subseteq> utxo_store: observed_store "do_op (db_data_ops lib)" "db_ok lib" "get_utxo lib k" "utxo_effect k"
  by unfold_locales (simp_all add: do_op_ok step_utxo)

sublocale wallet_keys \<subseteq> raw_tx_store: observed_store "do_op (db_data_ops lib)" "db_ok lib" "get_raw_tx lib t"
    "raw_tx_effect lib t"
  by unfold_locales (simp_all add: do_op_ok step_raw_tx)

sublocale wallet_keys \<subseteq> tx_store: observed_store "do_op (db_data_ops lib)" "db_ok lib" "get_tx lib t False" "tx_effect t"
  by unfold_locales (simp_all add: do_op_ok step_tx)

sublocale wallet_keys \<subseteq> script_store: observed_store "do_op (db_data_ops lib)" "db_ok lib"
    "get_script_pubkey_from_path ki ch" "script_effect \<lparr>keychain = ki, child = ch\<rparr>"
  by unfold_locales (simp_all add: do_op_ok step_script)

sublocale wallet_keys \<subseteq> path_store: observed_store "do_op (db_data_ops lib)" "db_ok lib"
    "get_path_from_script_pubkey lib sc" "path_effect sc"
  by unfold_locales (simp_all add: do_op_ok step_path)

sublocale wallet_keys \<subseteq> index_store: observed_store "do_op (db_data_ops lib)" "db_ok lib" "get_last_index ki"
    "last_index_effect ki"
  by unfold_locales (simp_all add: do_op_ok step_last_index)

sublocale wallet_keys \<subseteq> sync_store: observed_store "do_op (db_data_ops lib)" "db_ok lib" get_sync_time sync_time_effect
  by unfold_locales (simp_all add: do_op_ok step_sync_time)

context wallet_keys
begin

lemma run_lookups:
  assumes "db_ok lib d"
  shows "db_ok lib (fold (do_op (db_data_ops lib)) ops d)"
    and "get_utxo lib k (fold (do_op (db_data_ops lib)) ops d) = last_write (utxo_effect k) ops (get_utxo lib k d)"
    and "get_raw_tx lib t (fold (do_op (db_data_ops lib)) ops d) = last_write (raw_tx_effect lib t) ops (get_raw_tx lib t d)"
    and "get_tx lib t False (fold (do_op (db_data_ops lib)) ops d) = last_write (tx_effect t) ops (get_tx lib t False d)"
    and "get_script_pubkey_from_path ki ch (fold (do_op (db_data_ops lib)) ops d) =
      last_write (script_effect \<lparr>keychain = ki, child = ch\<rparr>) ops (get_script_pubkey_from_path ki ch d)"
    and "get_path_from_script_pubkey lib sc (fold (do_op (db_data_ops lib)) ops d) =
      last_write (path_effect sc) ops (get_path_from_script_pubkey lib sc d)"
    and "get_last_index ki (fold (do_op (db_data_ops lib)) ops d) = last_write (last_index_effect ki) ops (get_last_index ki d)"
    and "get_sync_time (fold (do_op (db_data_ops lib)) ops d) = last_write sync_time_effect ops (get_sync_time d)"
  by (rule utxo_store.run_ok utxo_store.run_get raw_tx_store.run_get tx_store.run_get script_store.run_get
      path_store.run_get index_store.run_get sync_store.run_get, rule assms)+

end

end
