(* ===== verification/Wallet_Db_Properties.thy ===== *)
theory Wallet_Db_Properties
  imports Wallet_Db_Proofs
begin

text \<open>
  What BDK can rely on in the wallet database: committed batches, the iterators, the text form of paths, and
  the one place where the two script maps part.
\<close>

section \<open>A wallet with transactions as bytes\<close>

definition byte_wallet :: "bytes wallet_lib" where
  "byte_wallet = \<lparr>tx_txid = take 2, script_cmp = cmp_bytes, bitcoin_txid_cmp = cmp_bytes\<rparr>"

lemma byte_wallet_keys: "wallet_keys byte_wallet"
  by (rule wallet_keys.intro) (simp_all add: byte_wallet_def total_cmp_list total_cmp_lin)

interpretation byte_wallet: wallet_keys byte_wallet
  by (rule byte_wallet_keys)

section \<open>Batches\<close>

lemma get_tx_raw:
  "get_tx lib t True d = map_option (\<lambda>tx. tx\<lparr>td_transaction := get_raw_tx lib t d\<rparr>) (get_tx lib t False d)"
  by (simp add: get_tx_def get_raw_tx_def into_tx_def option.map_comp comp_def)

text \<open>C33: Committing a batch executes its operations in order: afterwards every lookup (outputs, raw
  transactions, transaction details, scripts, paths, last indexes, sync time) gives what the last
  operation of the batch that concerns its key left there, and the old value where there is none.
  This holds also when the persister cannot be notified, which is the only error.\<close>

theorem wallet_batch_last_write:
  fixes lib :: "'tx wallet_lib" and db :: "('tx, 'c) WalletDb"
  defines "w \<equiv> wallet_database lib :: ('tx, ('tx, 'c) WalletDb) database"
  assumes "wallet_keys lib" and "db_ok lib (wdb_inner db)" and "commit_batch lib try_send (DbBatch ops) db = (r, db')"
  shows "dt_get_utxo w k db' = last_write (utxo_effect k) ops (dt_get_utxo w k db) \<and>
    dt_get_raw_tx w t db' = last_write (raw_tx_effect lib t) ops (dt_get_raw_tx w t db) \<and>
    dt_get_tx w t False db' = last_write (tx_effect t) ops (dt_get_tx w t False db) \<and>
    dt_get_tx w t True db' =
      map_option (\<lambda>tx. tx\<lparr>td_transaction := dt_get_raw_tx w t db'\<rparr>) (dt_get_tx w t False db') \<and>
    dt_get_script_pubkey_from_path w (keychain p) (child p) db' =
      last_write (script_effect p) ops (dt_get_script_pubkey_from_path w (keychain p) (child p) db) \<and>
    dt_get_path_from_script_pubkey w s db' = last_write (path_effect s) ops (dt_get_path_from_script_pubkey w s db) \<and>
    dt_get_last_index w ki db' = last_write (last_index_effect ki) ops (dt_get_last_index w ki db) \<and>
    dt_get_sync_time w db' = last_write sync_time_effect ops (dt_get_sync_time w db) \<and>
    db_ok lib (wdb_inner db') \<and> r = (if fst (try_send (wallet_db_persister_tx db)) then Inr () else Inl Generic)"
proof -
  have inner: "wdb_inner db' = fold (do_op (db_data_ops lib)) ops (wdb_inner db)"
    and r: "r = (if fst (try_send (wallet_db_persister_tx db)) then Inr () else Inl Generic)"
    using assms(4) by (auto simp: commit_batch_def locked_def Let_def split: prod.splits)
  show ?thesis
    unfolding r w_def using wallet_keys.run_lookups [OF assms(2,3)]
    by (simp add: wallet_database_def inner get_tx_raw)
qed

theorem wallet_batch_last_write_witness:
  "\<exists>db'. commit_batch byte_wallet (\<lambda>c. (False, c)) (DbBatch [SetRawTx [1, 2, 3], SetRawTx [1, 2, 4], DelRawTx [7]])
      (wallet_db_new ()) = (Inl Generic, db') \<and> dt_get_raw_tx (wallet_database byte_wallet) [1, 2] db' = Some [1, 2, 4]"
proof -
  obtain r db' where c: "commit_batch byte_wallet (\<lambda>c. (False, c)) (DbBatch [SetRawTx [1, 2, 3], SetRawTx [1, 2, 4], DelRawTx [7]])
      (wallet_db_new ()) = (r, db')" by force
  have "db_ok byte_wallet (wdb_inner (wallet_db_new ()))" by (simp add: wallet_db_new_def byte_wallet.new_ok)
  from wallet_batch_last_write [OF byte_wallet_keys this c, where t = "[1, 2]"] c show ?thesis
    by (simp add: last_write_def List.map_filter_simps) (simp add: byte_wallet_def)
qed

lemma do_op_batch: "do_op db_batch_ops op b = batch_push op b"
  by (cases op) (simp_all add: db_batch_ops_def)

lemma fold_do_op_batch: "batch (fold (do_op db_batch_ops) ops b) = batch b @ ops"
  by (induction ops arbitrary: b) (simp_all add: do_op_batch batch_push_def)

lemma do_op_wallet: "do_op (wallet_db_ops lib) op db = locked (do_op (db_data_ops lib) op) db"
  by (cases op) (simp_all add: wallet_db_ops_def db_data_ops_def locked_def locked_ret_def split: prod.splits)

lemma fold_do_op_wallet: "fold (do_op (wallet_db_ops lib)) ops db = locked (fold (do_op (db_data_ops lib)) ops) db"
  by (induction ops arbitrary: db) (simp_all add: do_op_wallet locked_def)

text \<open>Queueing operations in a batch and committing it has the same effect on the database as executing
  them one by one on it, whichever they are; until the commit the database is not touched, and the
  commit sends exactly one notification to the persister.\<close>

theorem wallet_batch_direct:
  "commit_batch lib try_send (fold (do_op db_batch_ops) ops (begin_batch db)) db =
    (if fst (try_send (wallet_db_persister_tx db)) then Inr () else Inl Generic,
     (fold (do_op (wallet_db_ops lib)) ops db)\<lparr>wallet_db_persister_tx := snd (try_send (wallet_db_persister_tx db))\<rparr>)"
  by (simp add: commit_batch_def begin_batch_def batch_new_def fold_do_op_batch fold_do_op_wallet locked_def Let_def
      split: prod.splits)

section \<open>Iterators\<close>

text \<open>How the data changes: operations, derived addresses, checks of the descriptor.\<close>

inductive wallet_step :: "'tx wallet_lib \<Rightarrow> 'tx DbData \<Rightarrow> 'tx DbData \<Rightarrow> bool" for lib where
  operation: "wallet_step lib d (do_op (db_data_ops lib) op d)"
| derive: "increment_last_index k d = (i, d') \<Longrightarrow> wallet_step lib d d'"
| checksum: "check_descriptor_checksum k given d = (r, d') \<Longrightarrow> wallet_step lib d d'"

inductive_cases wallet_stepE: "wallet_step lib d d'"

lemma wallet_step_ok:
  assumes "wallet_keys lib" and "wallet_step lib d d'" and "db_ok lib d"
  shows "db_ok lib d'"
  using assms(2)
proof (rule wallet_stepE)
  show "db_ok lib d'" if "d' = do_op (db_data_ops lib) op d" for op
    using that assms by (simp add: wallet_keys.do_op_ok)
qed (use assms(3) in \<open>auto simp: increment_last_index_def put_last_index_def check_descriptor_checksum_def Let_def
      db_ok_def split: KeychainKind.splits\<close>)

lemma wallet_steps_ok: "wallet_keys lib \<Longrightarrow> (wallet_step lib)\<^sup>*\<^sup>* db_data_new d \<Longrightarrow> db_ok lib d"
  by (rotate_tac, induction rule: rtranclp_induct) (auto intro: wallet_step_ok simp: wallet_keys.new_ok)

lemma sorted_keys: "bt_sorted c xs \<Longrightarrow> \<forall>(k, v) \<in> set xs. f v = k \<Longrightarrow> sorted_wrt (\<lambda>a b. c (f a) (f b) = Less) (map snd xs)"
  by (induction xs) (auto simp: bt_sorted_def split_beta)

context total_cmp
begin

lemma values_of_sorted:
  assumes "bt_sorted c xs" and "\<forall>(k, v) \<in> set xs. f v = k"
  shows "v \<in> set (map snd xs) \<longleftrightarrow> bt_get c (f v) xs = Some v"
  using assms bt_sorted_distinct [OF assms(1)] by (force simp: bt_get_map_of map_of_eq_Some_iff)

end

lemma iter_txs_lookup:
  assumes "wallet_keys lib" and "db_ok lib d"
  shows "sorted_wrt (\<lambda>a b. bitcoin_txid_cmp lib (td_txid a) (td_txid b) = Less) (iter_txs lib include_raw d)"
    and "tx \<in> set (iter_txs lib include_raw d) \<longleftrightarrow> get_tx lib (td_txid tx) include_raw d = Some tx"
proof -
  note order = wallet_keys.txid_order [OF assms(1)]
  let ?get = "\<lambda>t. bt_get (bitcoin_txid_cmp lib) t (tx_metas d)"
  have m: "bt_sorted (bitcoin_txid_cmp lib) (tx_metas d)" "\<forall>(k, m) \<in> set (tx_metas d). tm_txid m = k"
    using assms(2) by (simp_all add: db_ok_def)
  define f where "f = (\<lambda>meta. into_tx meta (if include_raw then get_raw_tx lib (tm_txid meta) d else None))"
  have iter: "iter_txs lib include_raw d = map f (map snd (tx_metas d))"
    by (auto simp: iter_txs_def f_def get_raw_tx_def into_tx_def Let_def)
  have f: "td_txid (f meta) = tm_txid meta" for meta by (simp add: f_def into_tx_def)
  have key: "tm_txid meta = t" if "?get t = Some meta" for t meta
    using that m(2) by (auto simp: total_cmp.bt_get_map_of [OF order] dest: map_of_SomeD)
  have get: "get_tx lib t include_raw d = map_option f (?get t)" for t
    using key by (cases "?get t") (auto simp: get_tx_def f_def get_raw_tx_def)
  show "sorted_wrt (\<lambda>a b. bitcoin_txid_cmp lib (td_txid a) (td_txid b) = Less) (iter_txs lib include_raw d)"
    using sorted_keys [OF m] by (simp add: iter sorted_wrt_map f)
  have "tx \<in> set (iter_txs lib include_raw d) \<longleftrightarrow> (\<exists>meta. meta \<in> set (map snd (tx_metas d)) \<and> tx = f meta)"
    by (auto simp: iter)
  also have "\<dots> \<longleftrightarrow> (\<exists>meta. ?get (tm_txid meta) = Some meta \<and> tx = f meta)"
    unfolding total_cmp.values_of_sorted [OF order m] ..
  also have "\<dots> \<longleftrightarrow> (\<exists>meta. ?get (td_txid tx) = Some meta \<and> tx = f meta)"
    using f key by metis
  also have "\<dots> \<longleftrightarrow> get_tx lib (td_txid tx) include_raw d = Some tx" by (auto simp: get)
  finally show "tx \<in> set (iter_txs lib include_raw d) \<longleftrightarrow> get_tx lib (td_txid tx) include_raw d = Some tx" .
qed


definition example_utxo :: LocalUtxo where
  "example_utxo = \<lparr>outpoint = \<lparr>op_txid = [1], op_vout = 0\<rparr>, txout_value = 5, txout_script = [9], utxo_keychain = External,
     is_spent = False\<rparr>"


section \<open>Paths\<close>

lemma u32_digits_append:
  "u32_digits acc (s @ [c]) = Option.bind (u32_digits acc s) (\<lambda>n. u32_digits n [c])"
  by (induction s arbitrary: acc) (auto simp: Let_def split: option.splits)

lemma u32_digits_nat: "n < 2 ^ 32 \<Longrightarrow> u32_digits 0 (map digit_char (nat_digits n)) = Some n"
proof (induction n rule: nat_digits.induct)
  case (1 n)
  show ?case
  proof (cases "n < 10")
    case True
    then show ?thesis by (simp add: nat_digits.simps [of n] Let_def)
  next
    case False
    with 1 have "u32_digits 0 (map digit_char (nat_digits (n div 10))) = Some (n div 10)" by simp
    with False 1(2) show ?thesis
      by (simp add: nat_digits.simps [of n] u32_digits_append Let_def)
  qed
qed

lemma u32_roundtrip: "u32_from_str (fmt_u32 n) = Some n"
proof -
  have "unat n < 2 ^ 32" using unsigned_less [of n, where 'a = nat] by simp
  moreover obtain d ds where ds: "nat_digits (unat n) = d # ds" by (cases "nat_digits (unat n)") simp_all
  moreover have "digit_char d \<noteq> CHR ''+''" using digit_char_neq(2) nat_digits_less [of d "unat n"] ds by simp
  ultimately show ?thesis
    using u32_digits_nat [of "unat n"] by (simp add: u32_from_str_def fmt_u32_def Let_def del: u32_digits.simps)
qed

lemma fmt_u32_free: "CHR ''@'' \<notin> set (fmt_u32 n)"
proof
  assume "CHR ''@'' \<in> set (fmt_u32 n)"
  then obtain d where "CHR ''@'' = digit_char d" "d < 10" by (auto simp: fmt_u32_def dest: nat_digits_less)
  then have "(of_char (CHR ''@'') :: nat) = 48 + d" by simp
  with \<open>d < 10\<close> show False by simp
qed

lemma path_roundtrip: "path_from_str (path_display p) = Inr p"
  by (cases "keychain p") (simp_all add: path_from_str_def path_display_def fmt_u32_free u32_roundtrip)

interpretation path_text: fromstr_display path_display path_from_str "\<lambda>_ :: Path. True"
  by unfold_locales (rule path_roundtrip)

section \<open>The two script maps\<close>

text \<open>Deleting a script by its path returns the script and removes it under the path, but leaves it in
  the reverse map: looking the path up by the script still succeeds.  The assertion that the
  repository's own test makes after \<^verbatim>\<open>DelByPath\<close> does not hold of this database.\<close>

theorem del_by_path_keeps_reverse:
  assumes "wallet_keys lib" and "db_ok lib d"
  shows "\<exists>d'. del_script_pubkey_from_path k c (set_script_pubkey lib script k c d) = (Some script, d') \<and>
    get_script_pubkey_from_path k c d' = None \<and> get_path_from_script_pubkey lib script d' = Some (k, c)"
proof -
  let ?p = "\<lparr>keychain = k, child = c\<rparr>" and ?ops = "db_data_ops lib"
  have d1: "set_script_pubkey lib script k c d = do_op ?ops (SetPathScript ?p script) d" by (simp add: db_data_ops_def)
  have del: "del_script_pubkey_from_path k c e = (get_script_pubkey_from_path k c e, do_op ?ops (DelByPath ?p) e)" for e
    by (simp add: db_data_ops_def del_script_pubkey_from_path_def get_script_pubkey_from_path_def Let_def)
  show ?thesis
    unfolding d1 del using assms
    by (simp add: wallet_keys.step_script wallet_keys.step_path wallet_keys.do_op_ok del: do_op.simps)
qed

theorem del_by_path_keeps_reverse_witness:
  "\<exists>d'. del_script_pubkey_from_path External 3 (set_script_pubkey byte_wallet [1] External 3 db_data_new) = (Some [1], d') \<and>
    get_path_from_script_pubkey byte_wallet [1] d' = Some (External, 3)"
  using del_by_path_keeps_reverse [OF byte_wallet_keys byte_wallet.new_ok, of External 3 "[1]"] by blast

end
