(* ===== verification/Enclave.thy ===== *)
theory Enclave
  imports Hex Aes
begin

text \<open>
  \<^verbatim>\<open>common/src/enclave.rs\<close>: enclave identities, and sealing of data to an enclave.  The two builds of the
  module (inside SGX, and the mock outside) are the two values of \<open>platform\<close>.  The SGX instructions and
  structures (\<^verbatim>\<open>sgx_isa\<close>) and HKDF and AES-256-GCM (\<^verbatim>\<open>ring\<close>) are the parameter \<open>lib\<close>; the locale
  \<open>enclave_platform\<close> states what they document.
\<close>

section \<open>Identities\<close>

datatype Measurement = Measurement (measurement_bytes: bytes)
datatype MrShort = MrShort (mr_short_bytes: bytes)
datatype MachineId = MachineId (machine_id_bytes: bytes)
datatype MinCpusvn = MinCpusvn (cpusvn_bytes: bytes)

definition MOCK_ENCLAVE :: Measurement where
  "MOCK_ENCLAVE = Measurement (as_bytes ''~~~~~~~ LEXE MOCK ENCLAVE ~~~~~~'')"

definition MOCK_SIGNER :: Measurement where
  "MOCK_SIGNER = Measurement (as_bytes ''======= LEXE MOCK SIGNER ======='')"

definition DEV_SIGNER :: Measurement where
  "DEV_SIGNER = Measurement (the (decode_const 32
     (as_bytes ''9affcfae47b848ec2caf1c49b4b283531e1cc425f93582b36806e52a43d78d1a'')))"

definition PROD_SIGNER :: Measurement where
  "PROD_SIGNER = Measurement (the (decode_const 32
     (as_bytes ''02d07f56b7f4a71d32211d6821beaeb316fbf577d02bab0dfe1f18a73de08a8e'')))"

definition MACHINE_ID_MOCK :: MachineId where
  "MACHINE_ID_MOCK = MachineId (the (decode_const 16 (as_bytes ''52bc575eb9618084083ca7b3a45a2a76'')))"

definition MACHINE_KEY_ID :: bytes where
  "MACHINE_KEY_ID = as_bytes ''~~~~ LEXE MACHINE ID KEY ID ~~~~''"

definition CPUSVN_CURRENT :: MinCpusvn where
  "CPUSVN_CURRENT = MinCpusvn (the (decode_const 16 (as_bytes ''0c0c100fffff01000000000000000000'')))"

definition measurement_from_str :: "string \<Rightarrow> DecodeError + Measurement" where
  "measurement_from_str s = map_ok Measurement (from_hex_array 32 s)"

definition measurement_display :: "Measurement \<Rightarrow> string" where
  "measurement_display m = hex_display (measurement_bytes m)"

definition short :: "Measurement \<Rightarrow> MrShort" where
  "short long = MrShort (take 4 (measurement_bytes long))"

definition is_prefix_of :: "MrShort \<Rightarrow> Measurement \<Rightarrow> bool" where
  "is_prefix_of m long \<longleftrightarrow> mr_short_bytes m = take 4 (measurement_bytes long)"

definition mr_short_from_str :: "string \<Rightarrow> DecodeError + MrShort" where
  "mr_short_from_str s = map_ok MrShort (from_hex_array 4 s)"

definition mr_short_display :: "MrShort \<Rightarrow> string" where
  "mr_short_display m = hex_display (mr_short_bytes m)"

definition machine_id_from_str :: "string \<Rightarrow> DecodeError + MachineId" where
  "machine_id_from_str s = map_ok MachineId (from_hex_array 16 s)"

definition machine_id_display :: "MachineId \<Rightarrow> string" where
  "machine_id_display m = hex_display (machine_id_bytes m)"

definition cpusvn_from_str :: "string \<Rightarrow> DecodeError + MinCpusvn" where
  "cpusvn_from_str s = map_ok MinCpusvn (from_hex_array 16 s)"

definition cpusvn_display :: "MinCpusvn \<Rightarrow> string" where
  "cpusvn_display m = hex_display (cpusvn_bytes m)"

section \<open>The platform\<close>

text \<open>The fields of \<^verbatim>\<open>sgx_isa::Keyrequest\<close>.\<close>

record Keyrequest =
  keyname :: "16 word"
  keypolicy :: "16 word"
  isvsvn :: "16 word"
  kr_reserved1 :: "16 word"
  cpusvn :: bytes
  attributemask :: "u64 \<times> u64"
  keyid :: bytes
  miscmask :: u32
  kr_reserved2 :: bytes

record enclave_lib =
  el_extract :: "bytes \<Rightarrow> bytes \<Rightarrow> bytes"
  el_expand :: "bytes \<Rightarrow> bytes \<Rightarrow> bytes"
  gcm_seal :: "bytes \<Rightarrow> bytes \<Rightarrow> bytes \<Rightarrow> bytes \<Rightarrow> (bytes \<times> bytes) option"
  gcm_open :: "bytes \<Rightarrow> bytes \<Rightarrow> bytes \<Rightarrow> bytes \<Rightarrow> bytes option"
  gcm_max :: nat
  egetkey :: "Keyrequest \<Rightarrow> nat + bytes"
  mrenclave :: bytes
  mrsigner :: bytes
  keyrequest_bytes :: "Keyrequest \<Rightarrow> bytes"
  keyrequest_copy :: "bytes \<Rightarrow> Keyrequest option"
  KEYNAME_SEAL :: "16 word"
  KEYPOLICY_MRENCLAVE :: "16 word"
  KEYPOLICY_MRSIGNER :: "16 word"
  ATTR_INIT :: u64
  ATTR_DEBUG :: u64
  ATTR_MODE64BIT :: u64

text \<open>
  Which build this is.  Outside SGX the build may carry a \<^verbatim>\<open>DEV_MEASUREMENT\<close>, which the compiler has
  checked to be hex.
\<close>

datatype platform = Sgx | NonSgx (dev_enclave: "Measurement option")

definition XFRM_LEGACY :: u64 where "XFRM_LEGACY = 0x0000000000000003"
definition XFRM_AVX512 :: u64 where "XFRM_AVX512 = 0x00000000000000e6"
definition XFRM_LEXE_FLAGS :: u64 where "XFRM_LEXE_FLAGS = or XFRM_AVX512 XFRM_LEGACY"
definition XFRM_LEXE_MASK :: u64 where "XFRM_LEXE_MASK = XFRM_LEXE_FLAGS"
definition MISC_LEXE_MASK :: u32 where "MISC_LEXE_MASK = 0"

definition ATTR_LEXE_MASK :: "enclave_lib \<Rightarrow> u64" where
  "ATTR_LEXE_MASK lib = or (or (ATTR_INIT lib) (ATTR_DEBUG lib)) (ATTR_MODE64BIT lib)"

definition default_keyrequest :: Keyrequest where
  "default_keyrequest =
     \<lparr>keyname = 0, keypolicy = 0, isvsvn = 0, kr_reserved1 = 0, cpusvn = replicate 16 0,
      attributemask = (0, 0), keyid = replicate 32 0, miscmask = 0, kr_reserved2 = replicate 436 0\<rparr>"

definition measurement :: "enclave_lib \<Rightarrow> platform \<Rightarrow> Measurement" where
  "measurement lib pf =
     (case pf of
        Sgx \<Rightarrow> Measurement (mrenclave lib)
      | NonSgx dev \<Rightarrow> (case dev of Some m \<Rightarrow> m | None \<Rightarrow> MOCK_ENCLAVE))"

definition signer :: "enclave_lib \<Rightarrow> platform \<Rightarrow> Measurement" where
  "signer lib pf = (case pf of Sgx \<Rightarrow> Measurement (mrsigner lib) | NonSgx _ \<Rightarrow> MOCK_SIGNER)"

text \<open>\<open>None\<close> is the panic when the machine cannot derive the key.\<close>

definition machine_id :: "enclave_lib \<Rightarrow> platform \<Rightarrow> MachineId option" where
  "machine_id lib pf =
     (case pf of
        Sgx \<Rightarrow>
          (let keyrequest = default_keyrequest
             \<lparr>keyname := KEYNAME_SEAL lib, keypolicy := KEYPOLICY_MRSIGNER lib, isvsvn := 0,
              cpusvn := cpusvn_bytes CPUSVN_CURRENT, attributemask := (0, 0), miscmask := 0,
              keyid := MACHINE_KEY_ID\<rparr>
           in case egetkey lib keyrequest of Inl _ \<Rightarrow> None | Inr bs \<Rightarrow> Some (MachineId bs))
      | NonSgx _ \<Rightarrow> Some MACHINE_ID_MOCK)"

text \<open>
  The hash of an \<^verbatim>\<open>.sgxs\<close> stream.  The reader gives its chunks one by one, each of at most 4096 bytes,
  an error, or nothing at the end; \<open>digest\<close> is the SHA-256 of everything read.
\<close>

datatype read_result = ReadErr | Read bytes

fun sgxs_loop :: "(bytes \<Rightarrow> bytes) \<Rightarrow> bytes \<Rightarrow> read_result list \<Rightarrow> Measurement option" where
  "sgxs_loop sha256 acc [] = Some (Measurement (sha256 acc))"
| "sgxs_loop sha256 acc (ReadErr # rs) = None"
| "sgxs_loop sha256 acc (Read buf # rs) =
     (if length buf = 0 then Some (Measurement (sha256 acc)) else sgxs_loop sha256 (acc @ buf) rs)"

definition compute_from_sgxs :: "(bytes \<Rightarrow> bytes) \<Rightarrow> read_result list \<Rightarrow> Measurement option" where
  "compute_from_sgxs sha256 reads = sgxs_loop sha256 [] reads"

section \<open>Sealing\<close>

text \<open>\<open>UsedTwice\<close> is the panic of \<^verbatim>\<open>OnlyOnce\<close>, \<open>KeyPanic\<close> that of \<^verbatim>\<open>try_copy_from(..).expect\<close>.\<close>

datatype EnclaveError =
    SgxError nat
  | SealInputTooLarge
  | UnsealInputTooSmall
  | InvalidKeyRequestLength
  | UnsealDecryptionError
  | DeserializationError
  | UsedTwice
  | KeyPanic

record Sealed =
  sealed_keyrequest :: bytes
  sealed_ciphertext :: bytes

definition SEALED_TAG_LEN :: nat where "SEALED_TAG_LEN = 16"

definition SEALED_HKDF_SALT :: bytes where
  "SEALED_HKDF_SALT = array_pad 32 (as_bytes ''LEXE-REALM::SgxSealing'')"

text \<open>\<^verbatim>\<open>to_le_bytes\<close> and \<^verbatim>\<open>from_le_bytes\<close>.\<close>

fun to_le :: "nat \<Rightarrow> nat \<Rightarrow> bytes" where
  "to_le 0 x = []"
| "to_le (Suc n) x = of_nat (x mod 256) # to_le n (x div 256)"

fun from_le :: "bytes \<Rightarrow> nat" where
  "from_le [] = 0"
| "from_le (b # bs) = unat b + 256 * from_le bs"

definition put_u32_le :: "u32 \<Rightarrow> bytes" where
  "put_u32_le x = to_le 4 (unat x)"

definition get_u32_le :: "bytes \<Rightarrow> u32" where
  "get_u32_le bs = of_nat (from_le (take 4 bs))"

definition sealed_serialize :: "Sealed \<Rightarrow> bytes" where
  "sealed_serialize s =
     put_u32_le (of_nat (length (sealed_keyrequest s))) @ sealed_keyrequest s @
     put_u32_le (of_nat (length (sealed_ciphertext s))) @ sealed_ciphertext s"

definition read_u32_le :: "bytes \<Rightarrow> EnclaveError + u32 \<times> bytes" where
  "read_u32_le bytes =
     (if 4 \<le> length bytes then Inr (get_u32_le bytes, drop 4 bytes) else Inl DeserializationError)"

definition read_bytes :: "bytes \<Rightarrow> EnclaveError + bytes \<times> bytes" where
  "read_bytes bytes =
     and_then (read_u32_le bytes) (\<lambda>(len, bytes).
       let len = unat len
       in if len \<le> length bytes then Inr (take len bytes, drop len bytes) else Inl DeserializationError)"

definition sealed_deserialize :: "bytes \<Rightarrow> EnclaveError + Sealed" where
  "sealed_deserialize bytes =
     and_then (read_bytes bytes) (\<lambda>(keyrequest, bytes).
     and_then (read_bytes bytes) (\<lambda>(ciphertext, bytes).
       if bytes = [] then Inr \<lparr>sealed_keyrequest = keyrequest, sealed_ciphertext = ciphertext\<rparr>
       else Inl DeserializationError))"

text \<open>A key bound to a nonce that can be used once.\<close>

datatype OnlyOnce = OnlyOnce "bytes option"

fun advance :: "OnlyOnce \<Rightarrow> (bytes \<times> OnlyOnce) option" where
  "advance (OnlyOnce (Some nonce)) = Some (nonce, OnlyOnce None)"
| "advance (OnlyOnce None) = None"

definition seal_in_place :: "enclave_lib \<Rightarrow> bytes \<times> OnlyOnce \<Rightarrow> bytes \<Rightarrow> EnclaveError + bytes" where
  "seal_in_place lib key data =
     (case advance (snd key) of
        None \<Rightarrow> Inl UsedTwice
      | Some (nonce, _) \<Rightarrow>
          (case gcm_seal lib (fst key) nonce [] data of
             None \<Rightarrow> Inl SealInputTooLarge
           | Some (ciphertext, tag) \<Rightarrow> Inr (ciphertext @ tag)))"

definition open_in_place :: "enclave_lib \<Rightarrow> bytes \<times> OnlyOnce \<Rightarrow> bytes \<Rightarrow> EnclaveError + bytes" where
  "open_in_place lib key ciphertext =
     (case advance (snd key) of
        None \<Rightarrow> Inl UsedTwice
      | Some (nonce, _) \<Rightarrow> ok_or UnsealDecryptionError (gcm_open lib (fst key) nonce [] ciphertext))"

definition TRUNCATED_SIZE :: nat where "TRUNCATED_SIZE = 76"
definition UNPADDED_SIZE :: nat where "UNPADDED_SIZE = 512"

definition gen_sealing_request :: "enclave_lib \<Rightarrow> bytes \<Rightarrow> Keyrequest" where
  "gen_sealing_request lib key_id =
     default_keyrequest
       \<lparr>keyname := KEYNAME_SEAL lib, keypolicy := KEYPOLICY_MRENCLAVE lib, isvsvn := 0,
        cpusvn := cpusvn_bytes CPUSVN_CURRENT, attributemask := (ATTR_LEXE_MASK lib, XFRM_LEXE_MASK),
        miscmask := MISC_LEXE_MASK, keyid := key_id\<rparr>"

definition lx_as_bytes :: "enclave_lib \<Rightarrow> Keyrequest \<Rightarrow> bytes" where
  "lx_as_bytes lib kr = take TRUNCATED_SIZE (keyrequest_bytes lib kr)"

definition lx_try_from_bytes :: "enclave_lib \<Rightarrow> bytes \<Rightarrow> EnclaveError + Keyrequest" where
  "lx_try_from_bytes lib bytes =
     (if \<not> (TRUNCATED_SIZE \<le> length bytes \<and> length bytes \<le> UNPADDED_SIZE) then Inl InvalidKeyRequestLength
      else ok_or KeyPanic (keyrequest_copy lib (bytes @ replicate (UNPADDED_SIZE - length bytes) 0)))"

definition single_use_nonce :: "Keyrequest \<Rightarrow> OnlyOnce" where
  "single_use_nonce kr = OnlyOnce (Some (drop (length (keyid kr) - 12) (keyid kr)))"

definition derive_key_material :: "enclave_lib \<Rightarrow> Keyrequest \<Rightarrow> EnclaveError + bytes" where
  "derive_key_material lib kr = map_err SgxError (egetkey lib kr)"

definition derive_aesgcm_key :: "enclave_lib \<Rightarrow> bytes \<Rightarrow> bytes \<Rightarrow> bytes" where
  "derive_aesgcm_key lib key_material label = el_expand lib (el_extract lib SEALED_HKDF_SALT key_material) label"

text \<open>\<^verbatim>\<open>derive_sealing_key\<close> and \<^verbatim>\<open>derive_unsealing_key\<close> differ in the type of the key only.\<close>

definition derive_bound_key :: "enclave_lib \<Rightarrow> Keyrequest \<Rightarrow> bytes \<Rightarrow> EnclaveError + bytes \<times> OnlyOnce" where
  "derive_bound_key lib kr label =
     and_then (derive_key_material lib kr) (\<lambda>key_material.
       Inr (derive_aesgcm_key lib key_material label, single_use_nonce kr))"

text \<open>The mock key request is its key id.\<close>

definition mock_try_from_bytes :: "bytes \<Rightarrow> EnclaveError + bytes" where
  "mock_try_from_bytes bytes = (if length bytes = 32 then Inr bytes else Inl InvalidKeyRequestLength)"

definition mock_derive_key :: "enclave_lib \<Rightarrow> bytes \<Rightarrow> bytes \<Rightarrow> bytes" where
  "mock_derive_key lib key_id label = el_expand lib (el_extract lib (replicate 32 0x42) key_id) label"

text \<open>\<open>key_id\<close> is the 32 random bytes drawn from the generator.\<close>

definition enclave_seal ::
    "enclave_lib \<Rightarrow> platform \<Rightarrow> bytes \<Rightarrow> bytes \<Rightarrow> bytes \<Rightarrow> EnclaveError + Sealed" where
  "enclave_seal lib pf key_id label data =
     (case pf of
        Sgx \<Rightarrow>
          (let keyrequest = gen_sealing_request lib key_id
           in and_then (derive_bound_key lib keyrequest label) (\<lambda>sealing_key.
              and_then (seal_in_place lib sealing_key data) (\<lambda>ciphertext.
                Inr \<lparr>sealed_keyrequest = lx_as_bytes lib keyrequest, sealed_ciphertext = ciphertext\<rparr>)))
      | NonSgx _ \<Rightarrow>
          (case gcm_seal lib (mock_derive_key lib key_id label) (replicate 12 0) [] data of
             None \<Rightarrow> Inl SealInputTooLarge
           | Some (ciphertext, tag) \<Rightarrow>
               Inr \<lparr>sealed_keyrequest = key_id, sealed_ciphertext = ciphertext @ tag\<rparr>))"

definition enclave_unseal :: "enclave_lib \<Rightarrow> platform \<Rightarrow> Sealed \<Rightarrow> bytes \<Rightarrow> EnclaveError + bytes" where
  "enclave_unseal lib pf s label =
     (case pf of
        Sgx \<Rightarrow>
          (if length (sealed_ciphertext s) < SEALED_TAG_LEN then Inl UnsealInputTooSmall
           else
             and_then (lx_try_from_bytes lib (sealed_keyrequest s)) (\<lambda>keyrequest.
             and_then (derive_bound_key lib keyrequest label) (\<lambda>unsealing_key.
               open_in_place lib unsealing_key (sealed_ciphertext s))))
      | NonSgx _ \<Rightarrow>
          and_then (mock_try_from_bytes (sealed_keyrequest s)) (\<lambda>key_id.
            ok_or UnsealDecryptionError
              (gcm_open lib (mock_derive_key lib key_id label) (replicate 12 0) [] (sealed_ciphertext s))))"

section \<open>The laws of the platform\<close>

text \<open>The sizes of the structure's array fields, and that its reserved bytes start at offset 76.\<close>

definition keyrequest_ok :: "Keyrequest \<Rightarrow> bool" where
  "keyrequest_ok kr \<longleftrightarrow> length (cpusvn kr) = 16 \<and> length (keyid kr) = 32 \<and> length (kr_reserved2 kr) = 436"

locale enclave_platform =
  fixes lib :: enclave_lib
  assumes gcm_seal_total: "length p \<le> gcm_max lib \<Longrightarrow> gcm_seal lib k n a p \<noteq> None"
    and gcm_seal_open: "gcm_seal lib k n a p = Some (c, t) \<Longrightarrow>
      length c = length p \<and> length t = 16 \<and> gcm_open lib k n a (c @ t) = Some p"
    and gcm_open_seal: "gcm_open lib k n a d = Some p \<Longrightarrow> \<exists>c t. gcm_seal lib k n a p = Some (c, t) \<and> d = c @ t"
    and keyrequest_len: "keyrequest_ok kr \<Longrightarrow> length (keyrequest_bytes lib kr) = 512"
    and keyrequest_reserved: "keyrequest_ok kr \<Longrightarrow> drop 76 (keyrequest_bytes lib kr) = kr_reserved2 kr"
    and keyrequest_copied: "keyrequest_ok kr \<Longrightarrow> keyrequest_copy lib (keyrequest_bytes lib kr) = Some kr"
    and mrenclave_len: "length (mrenclave lib) = 32"


section \<open>Serialized form\<close>

lemma length_to_le [simp]: "length (to_le n x) = n"
  by (induction n arbitrary: x) simp_all

lemma from_to_le: "x < 256 ^ n \<Longrightarrow> from_le (to_le n x) = x"
proof (induction n arbitrary: x)
  case (Suc n)
  then have "x div 256 < 256 ^ n" by (simp add: less_mult_imp_div_less mult.commute)
  with Suc.IH show ?case by (simp add: unsigned_of_nat take_bit_eq_mod)
qed simp

lemma to_from_le: "to_le (length bs) (from_le bs) = bs"
proof (induction bs)
  case (Cons b bs)
  have "(unat b + 256 * from_le bs) mod 256 = unat b" "(unat b + 256 * from_le bs) div 256 = from_le bs"
    using unat_u8 [of b] by simp_all
  with Cons show ?case by simp
qed simp

lemma from_le_bound: "from_le bs < 256 ^ length bs"
proof (induction bs)
  case (Cons b bs)
  have "unat b + 256 * from_le bs < 256 * Suc (from_le bs)" using unat_u8 [of b] by simp
  also have "\<dots> \<le> 256 * 256 ^ length bs" using Cons by (intro mult_le_mono2) simp
  finally show ?case by simp
qed simp

lemma length_put_u32_le [simp]: "length (put_u32_le x) = 4"
  by (simp add: put_u32_le_def)

lemma get_put_u32_le [simp]: "get_u32_le (put_u32_le x @ rest) = x"
  using unsigned_less [of x, where 'a = nat] by (simp add: get_u32_le_def put_u32_le_def from_to_le)

lemma put_get_u32_le:
  assumes "4 \<le> length bs"
  shows "put_u32_le (get_u32_le bs) = take 4 bs"
  using assms to_from_le [of "take 4 bs"] from_le_bound [of "take 4 bs"]
  by (simp add: get_u32_le_def put_u32_le_def unsigned_of_nat take_bit_eq_mod)

lemma read_bytes_put:
  assumes "length bs < 2 ^ 32"
  shows "read_bytes (put_u32_le (of_nat (length bs)) @ bs @ rest) = Inr (bs, rest)"
  using assms by (simp add: read_bytes_def read_u32_le_def unat_of_nat)

lemma read_bytes_Inr:
  assumes "read_bytes d = Inr (bs, rest)"
  shows "d = put_u32_le (of_nat (length bs)) @ bs @ rest \<and> length bs < 2 ^ 32"
proof -
  let ?n = "unat (get_u32_le d)"
  from assms have "4 \<le> length d" and n: "?n \<le> length d - 4" and bs: "bs = take ?n (drop 4 d)" "rest = drop ?n (drop 4 d)"
    by (auto simp: read_bytes_def read_u32_le_def Let_def split: if_splits)
  then have "length bs = ?n" by simp
  moreover have "bs @ rest = drop 4 d" unfolding bs by (rule append_take_drop_id)
  moreover have "put_u32_le (get_u32_le d) = take 4 d" by (rule put_get_u32_le [OF \<open>4 \<le> length d\<close>])
  moreover have "?n < 2 ^ 32" using unsigned_less [of "get_u32_le d", where 'a = nat] by simp
  ultimately show ?thesis by (simp add: append_take_drop_id)
qed

lemma sealed_serialize_deserialize:
  assumes "length (sealed_keyrequest s) < 2 ^ 32" and "length (sealed_ciphertext s) < 2 ^ 32"
  shows "sealed_deserialize (sealed_serialize s) = Inr s"
  using read_bytes_put [OF assms(1)] read_bytes_put [OF assms(2), of "[]"]
  by (simp add: sealed_deserialize_def sealed_serialize_def)

lemma sealed_deserialize_serialize:
  assumes "sealed_deserialize bs = Inr s"
  shows "sealed_serialize s = bs \<and> length (sealed_keyrequest s) < 2 ^ 32 \<and> length (sealed_ciphertext s) < 2 ^ 32"
proof -
  obtain k r c where "read_bytes bs = Inr (k, r)" "read_bytes r = Inr (c, [])"
    "s = \<lparr>sealed_keyrequest = k, sealed_ciphertext = c\<rparr>"
    using assms by (auto simp: sealed_deserialize_def result_simps split: if_splits)
  with read_bytes_Inr [of bs k r] read_bytes_Inr [of r c "[]"] show ?thesis
    by (simp add: sealed_serialize_def)
qed

section \<open>Unsealing what was sealed\<close>

lemma const_lengths [simp]: "length (cpusvn_bytes CPUSVN_CURRENT) = 16"
  by (simp add: CPUSVN_CURRENT_def) code_simp

context enclave_platform
begin

lemma seal_request_ok: "length key_id = 32 \<Longrightarrow> keyrequest_ok (gen_sealing_request lib key_id)"
  by (simp add: keyrequest_ok_def gen_sealing_request_def default_keyrequest_def)

lemma lx_request_roundtrip:
  assumes "length key_id = 32"
  defines "kr \<equiv> gen_sealing_request lib key_id"
  shows "lx_try_from_bytes lib (lx_as_bytes lib kr) = Inr kr"
proof -
  have kr: "keyrequest_ok kr" using seal_request_ok [OF assms(1)] by (simp add: kr_def)
  have "kr_reserved2 kr = replicate 436 0" by (simp add: kr_def gen_sealing_request_def default_keyrequest_def)
  with keyrequest_reserved [OF kr] have "take 76 (keyrequest_bytes lib kr) @ replicate 436 0 = keyrequest_bytes lib kr"
    by (metis append_take_drop_id)
  then show ?thesis
    using keyrequest_len [OF kr] keyrequest_copied [OF kr]
    by (simp add: lx_try_from_bytes_def lx_as_bytes_def TRUNCATED_SIZE_def UNPADDED_SIZE_def)
qed

lemma seal_open_in_place:
  assumes "seal_in_place lib key p = Inr d"
  shows "open_in_place lib key d = Inr p \<and> length d = length p + 16"
  using assms gcm_seal_open
  by (cases "snd key" rule: advance.cases)
    (auto simp: seal_in_place_def open_in_place_def split: option.splits)

lemma unseal_seal:
  assumes "length key_id = 32" and "enclave_seal lib pf key_id label data = Inr s"
  shows "enclave_unseal lib pf s label = Inr data"
proof (cases pf)
  case Sgx
  with assms(2) obtain key where key: "derive_bound_key lib (gen_sealing_request lib key_id) label = Inr key"
      "seal_in_place lib key data = Inr (sealed_ciphertext s)"
      "sealed_keyrequest s = lx_as_bytes lib (gen_sealing_request lib key_id)"
    by (auto simp: enclave_seal_def Let_def result_simps)
  then show ?thesis
    using Sgx seal_open_in_place [OF key(2)] lx_request_roundtrip [OF assms(1)]
    by (simp add: enclave_unseal_def SEALED_TAG_LEN_def)
next
  case (NonSgx dev)
  with assms show ?thesis
    using gcm_seal_open
    by (auto simp: enclave_seal_def enclave_unseal_def mock_try_from_bytes_def split: option.splits prod.splits)
qed

lemma seal_total:
  assumes "length data \<le> gcm_max lib"
    and "pf = Sgx \<Longrightarrow> is_ok (egetkey lib (gen_sealing_request lib key_id))"
  shows "\<exists>s. enclave_seal lib pf key_id label data = Inr s"
proof (cases pf)
  case Sgx
  then obtain m where "egetkey lib (gen_sealing_request lib key_id) = Inr m"
    using assms(2) by (auto simp: is_ok_iff)
  then show ?thesis
    using Sgx gcm_seal_total [OF assms(1)]
    by (auto simp: enclave_seal_def derive_bound_key_def derive_key_material_def seal_in_place_def
        single_use_nonce_def Let_def split: option.split)
next
  case (NonSgx dev)
  then show ?thesis
    using gcm_seal_total [OF assms(1)] by (auto simp: enclave_seal_def split: option.split)
qed

lemma seal_lengths:
  assumes "length key_id = 32" and "enclave_seal lib pf key_id label data = Inr s"
  shows "length (sealed_keyrequest s) \<le> 76 \<and> length (sealed_ciphertext s) = length data + 16"
proof (cases pf)
  case Sgx
  with assms(2) obtain key where "seal_in_place lib key data = Inr (sealed_ciphertext s)"
      "sealed_keyrequest s = lx_as_bytes lib (gen_sealing_request lib key_id)"
    by (auto simp: enclave_seal_def Let_def result_simps)
  then show ?thesis
    using seal_open_in_place by (simp add: lx_as_bytes_def TRUNCATED_SIZE_def)
next
  case (NonSgx dev)
  with assms show ?thesis
    using gcm_seal_open by (auto simp: enclave_seal_def split: option.splits prod.splits)
qed

text \<open>Whatever is unsealed was sealed: the ciphertext is the AES-GCM output of the returned data under a
  key derived from the given key request and label.\<close>

lemma unseal_authentic:
  assumes "enclave_unseal lib pf s label = Inr data"
  shows "\<exists>k n c t. gcm_seal lib k n [] data = Some (c, t) \<and> sealed_ciphertext s = c @ t \<and>
    (\<exists>m. k = el_expand lib m label)"
proof (cases pf)
  case Sgx
  with assms obtain kr key where "derive_bound_key lib kr label = Inr key"
      "open_in_place lib key (sealed_ciphertext s) = Inr data"
    by (auto simp: enclave_unseal_def result_simps split: if_splits)
  then obtain k n where "gcm_open lib k n [] (sealed_ciphertext s) = Some data" "\<exists>m. k = el_expand lib m label"
    by (fastforce simp: derive_bound_key_def derive_aesgcm_key_def open_in_place_def single_use_nonce_def result_simps)
  then show ?thesis using gcm_open_seal by blast
next
  case (NonSgx dev)
  with assms obtain key_id where
      "gcm_open lib (mock_derive_key lib key_id label) (replicate 12 0) [] (sealed_ciphertext s) = Some data"
    by (auto simp: enclave_unseal_def result_simps)
  then show ?thesis using gcm_open_seal unfolding mock_derive_key_def by blast
qed

end


section \<open>A lawful instance\<close>

text \<open>A platform whose cipher hides nothing: the tag is sixteen zero bytes, and the structure is laid out
  field by field in little-endian order.\<close>

definition plain_keyrequest :: "Keyrequest \<Rightarrow> bytes" where
  "plain_keyrequest kr =
     to_le 2 (unat (keyname kr)) @ to_le 2 (unat (keypolicy kr)) @ to_le 2 (unat (isvsvn kr)) @
     to_le 2 (unat (kr_reserved1 kr)) @ cpusvn kr @ to_le 8 (unat (fst (attributemask kr))) @
     to_le 8 (unat (snd (attributemask kr))) @ keyid kr @ to_le 4 (unat (miscmask kr)) @ kr_reserved2 kr"

definition field_at :: "nat \<Rightarrow> nat \<Rightarrow> bytes \<Rightarrow> bytes" where
  "field_at start len bs = take len (drop start bs)"

definition plain_keyrequest_copy :: "bytes \<Rightarrow> Keyrequest option" where
  "plain_keyrequest_copy bs =
     (if length bs = 512
      then Some
        \<lparr>keyname = of_nat (from_le (field_at 0 2 bs)), keypolicy = of_nat (from_le (field_at 2 2 bs)),
         isvsvn = of_nat (from_le (field_at 4 2 bs)), kr_reserved1 = of_nat (from_le (field_at 6 2 bs)),
         cpusvn = field_at 8 16 bs,
         attributemask = (of_nat (from_le (field_at 24 8 bs)), of_nat (from_le (field_at 32 8 bs))),
         keyid = field_at 40 32 bs, miscmask = of_nat (from_le (field_at 72 4 bs)),
         kr_reserved2 = field_at 76 436 bs\<rparr>
      else None)"

definition plain_enclave :: enclave_lib where
  "plain_enclave =
     \<lparr>el_extract = (\<lambda>salt ikm. ikm), el_expand = (\<lambda>k info. k @ info),
      gcm_seal = (\<lambda>k n a p. aead_seal plain_lib k a p), gcm_open = (\<lambda>k n a d. aead_open plain_lib k a d),
      gcm_max = 1000, egetkey = (\<lambda>kr. Inr (take 16 (keyid kr))), mrenclave = replicate 32 1,
      mrsigner = replicate 32 2, keyrequest_bytes = plain_keyrequest, keyrequest_copy = plain_keyrequest_copy,
      KEYNAME_SEAL = 4, KEYPOLICY_MRENCLAVE = 1, KEYPOLICY_MRSIGNER = 2,
      ATTR_INIT = 1, ATTR_DEBUG = 2, ATTR_MODE64BIT = 4\<rparr>"

lemma plain_keyrequest_roundtrip:
  assumes "keyrequest_ok kr"
  shows "plain_keyrequest_copy (plain_keyrequest kr) = Some kr"
proof -
  have w: "from_le (to_le 2 (unat x)) = unat x" "from_le (to_le 8 (unat y)) = unat y"
    "from_le (to_le 4 (unat z)) = unat z" for x :: "16 word" and y :: u64 and z :: u32
    using unsigned_less [of x, where 'a = nat] unsigned_less [of y, where 'a = nat]
      unsigned_less [of z, where 'a = nat] by (simp_all add: from_to_le)
  show ?thesis
    using assms by (simp add: plain_keyrequest_copy_def plain_keyrequest_def field_at_def keyrequest_ok_def w)
qed

interpretation plain_enclave: enclave_platform plain_enclave
proof
  note laws = plain_lib_lawful [unfolded aead_laws_def]
  fix k n a p c t d kr
  show "length p \<le> gcm_max plain_enclave \<Longrightarrow> gcm_seal plain_enclave k n a p \<noteq> None"
    by (simp add: plain_enclave_def plain_lib_def)
  show "gcm_seal plain_enclave k n a p = Some (c, t) \<Longrightarrow>
      length c = length p \<and> length t = 16 \<and> gcm_open plain_enclave k n a (c @ t) = Some p"
    using laws by (simp add: plain_enclave_def TAG_LEN_def)
  show "gcm_open plain_enclave k n a d = Some p \<Longrightarrow>
      \<exists>c t. gcm_seal plain_enclave k n a p = Some (c, t) \<and> d = c @ t"
    using laws by (simp add: plain_enclave_def)
  assume "keyrequest_ok kr"
  then show "length (keyrequest_bytes plain_enclave kr) = 512"
    and "drop 76 (keyrequest_bytes plain_enclave kr) = kr_reserved2 kr"
    and "keyrequest_copy plain_enclave (keyrequest_bytes plain_enclave kr) = Some kr"
    using plain_keyrequest_roundtrip by (simp_all add: plain_enclave_def plain_keyrequest_def keyrequest_ok_def)
qed (simp add: plain_enclave_def)

end
