(* ===== verification/Ed25519.thy ===== *)
theory Ed25519
  imports Hex
begin

text \<open>
  \<^verbatim>\<open>common/src/ed25519.rs\<close>: key pairs, signatures, signed structs and the PKCS#8 form of a key pair.  The
  primitives of \<^verbatim>\<open>ring\<close> are the parameter \<open>lib\<close> with the laws of the locale \<open>ed25519_primitives\<close>; a
  \<^verbatim>\<open>Signable\<close> type is its domain separator together with its BCS codec, a \<open>signable\<close>.
\<close>

section \<open>Keys and signatures\<close>

definition SECRET_KEY_LEN :: nat where "SECRET_KEY_LEN = 32"
definition PUBLIC_KEY_LEN :: nat where "PUBLIC_KEY_LEN = 32"
definition SIGNATURE_LEN :: nat where "SIGNATURE_LEN = 64"
definition SIGNED_STRUCT_OVERHEAD :: nat where "SIGNED_STRUCT_OVERHEAD = PUBLIC_KEY_LEN + SIGNATURE_LEN"

record ed_lib =
  ed_public :: "bytes \<Rightarrow> bytes"
  ed_sign :: "bytes \<Rightarrow> bytes \<Rightarrow> bytes"
  ed_verify :: "bytes \<Rightarrow> bytes \<Rightarrow> bytes \<Rightarrow> bool"
  ed_sha256 :: "bytes \<Rightarrow> bytes"

datatype PublicKey = PublicKey (pk_bytes: bytes)
datatype Signature = Signature (sig_bytes: bytes)

text \<open>The pair that \<^verbatim>\<open>ring\<close> holds is determined by its seed, which signs, and its public key.\<close>

record KeyPair =
  kp_seed :: bytes
  kp_public :: bytes

datatype EdError =
    InvalidPkLength
  | UnexpectedAlgorithm
  | KeyDeserializeError
  | PublicKeyMismatch
  | InvalidSignature
  | BcsSerialize
  | BcsDeserialize
  | SignedTooShort
  | UnexpectedSigner

definition from_seed :: "ed_lib \<Rightarrow> bytes \<Rightarrow> KeyPair" where
  "from_seed lib seed = \<lparr>kp_seed = seed, kp_public = ed_public lib seed\<rparr>"

definition from_seed_and_pubkey :: "ed_lib \<Rightarrow> bytes \<Rightarrow> bytes \<Rightarrow> EdError + KeyPair" where
  "from_seed_and_pubkey lib seed expected_pubkey =
     (if ed_public lib seed = expected_pubkey then Inr (from_seed lib seed) else Inl PublicKeyMismatch)"

definition public_key :: "KeyPair \<Rightarrow> PublicKey" where
  "public_key kp = PublicKey (kp_public kp)"

definition sign_raw :: "ed_lib \<Rightarrow> KeyPair \<Rightarrow> bytes \<Rightarrow> Signature" where
  "sign_raw lib kp msg = Signature (ed_sign lib (kp_seed kp) msg)"

definition verify_raw :: "ed_lib \<Rightarrow> PublicKey \<Rightarrow> bytes \<Rightarrow> Signature \<Rightarrow> EdError + unit" where
  "verify_raw lib pk msg sig =
     (if ed_verify lib (pk_bytes pk) msg (sig_bytes sig) then Inr () else Inl InvalidSignature)"

definition key_pair_from_hex :: "ed_lib \<Rightarrow> string \<Rightarrow> DecodeError + KeyPair" where
  "key_pair_from_hex lib s = map_ok (from_seed lib) (from_hex_array 32 s)"

definition public_key_try_from :: "bytes \<Rightarrow> EdError + PublicKey" where
  "public_key_try_from bytes = (if length bytes = 32 then Inr (PublicKey bytes) else Inl InvalidPkLength)"

definition public_key_from_hex :: "string \<Rightarrow> DecodeError + PublicKey" where
  "public_key_from_hex s = map_ok PublicKey (from_hex_array 32 s)"

definition public_key_display :: "PublicKey \<Rightarrow> string" where
  "public_key_display pk = hex_display (pk_bytes pk)"

definition signature_try_from :: "bytes \<Rightarrow> EdError + Signature" where
  "signature_try_from bytes = (if length bytes = 64 then Inr (Signature bytes) else Inl InvalidSignature)"

definition signature_from_hex :: "string \<Rightarrow> DecodeError + Signature" where
  "signature_from_hex s = map_ok Signature (from_hex_array 64 s)"

definition signature_display :: "Signature \<Rightarrow> string" where
  "signature_display sig = hex_display (sig_bytes sig)"

section \<open>Signed structs\<close>

record 'a signable =
  domain_separator :: bytes
  bcs_to_bytes :: "'a \<Rightarrow> bytes option"
  bcs_from_bytes :: "bytes \<Rightarrow> 'a option"

record 'a Signed =
  sd_signer :: PublicKey
  sd_sig :: Signature
  sd_inner :: 'a

definition digest_many :: "ed_lib \<Rightarrow> bytes list \<Rightarrow> bytes" where
  "digest_many lib inputs = ed_sha256 lib (concat inputs)"

definition accept_any_signer :: "PublicKey \<Rightarrow> bool" where
  "accept_any_signer pk = True"

definition deserialize_signed_struct :: "bytes \<Rightarrow> EdError + PublicKey \<times> Signature \<times> bytes" where
  "deserialize_signed_struct serialized =
     (if length serialized < SIGNED_STRUCT_OVERHEAD then Inl SignedTooShort
      else
        (let signer = take PUBLIC_KEY_LEN serialized;
             serialized = drop PUBLIC_KEY_LEN serialized;
             sig = take SIGNATURE_LEN serialized;
             ser_struct = drop SIGNATURE_LEN serialized
         in Inr (PublicKey signer, Signature sig, ser_struct)))"

definition verify_signed_struct_inner ::
    "ed_lib \<Rightarrow> PublicKey \<Rightarrow> Signature \<Rightarrow> bytes \<Rightarrow> bytes \<Rightarrow> EdError + unit" where
  "verify_signed_struct_inner lib pk s ser_struct domain_sep =
     (let msg = digest_many lib [domain_sep, ser_struct] in verify_raw lib pk msg s)"

definition verify_signed_struct ::
    "ed_lib \<Rightarrow> 'a signable \<Rightarrow> (PublicKey \<Rightarrow> bool) \<Rightarrow> bytes \<Rightarrow> EdError + 'a Signed" where
  "verify_signed_struct lib T is_expected_signer serialized =
     and_then (deserialize_signed_struct serialized) (\<lambda>(pk, s, ser_struct).
       if \<not> is_expected_signer pk then Inl UnexpectedSigner
       else
         and_then (map_err (\<lambda>_. InvalidSignature)
           (verify_signed_struct_inner lib pk s ser_struct (domain_separator T))) (\<lambda>_.
         and_then (ok_or BcsDeserialize (bcs_from_bytes T ser_struct)) (\<lambda>v.
           Inr \<lparr>sd_signer = pk, sd_sig = s, sd_inner = v\<rparr>)))"

definition verify_self_signed_struct ::
    "ed_lib \<Rightarrow> 'a signable \<Rightarrow> PublicKey \<Rightarrow> bytes \<Rightarrow> EdError + 'a Signed" where
  "verify_self_signed_struct lib T self serialized = verify_signed_struct lib T (\<lambda>pk. pk = self) serialized"

definition sign_struct_inner :: "ed_lib \<Rightarrow> KeyPair \<Rightarrow> bytes \<Rightarrow> bytes \<Rightarrow> Signature" where
  "sign_struct_inner lib kp serialized domain_sep =
     (let msg = digest_many lib [domain_sep, serialized] in sign_raw lib kp msg)"

text \<open>\<open>splice out i bs\<close> is \<^verbatim>\<open>out[i..i + bs.len()].copy_from_slice(bs)\<close>.\<close>

definition splice :: "bytes \<Rightarrow> nat \<Rightarrow> bytes \<Rightarrow> bytes" where
  "splice out i bs = take i out @ bs @ drop (i + length bs) out"

definition sign_struct :: "ed_lib \<Rightarrow> 'a signable \<Rightarrow> KeyPair \<Rightarrow> 'a \<Rightarrow> EdError + bytes \<times> 'a Signed" where
  "sign_struct lib T kp v =
     and_then (ok_or BcsSerialize (bcs_to_bytes T v)) (\<lambda>ser.
       let pk = public_key kp;
           out = pk_bytes pk @ replicate 64 0 @ ser;
           s = sign_struct_inner lib kp (drop SIGNED_STRUCT_OVERHEAD out) (domain_separator T);
           out = splice out PUBLIC_KEY_LEN (sig_bytes s)
       in Inr (out, \<lparr>sd_signer = pk, sd_sig = s, sd_inner = v\<rparr>))"

definition signed_serialize :: "'a signable \<Rightarrow> 'a Signed \<Rightarrow> EdError + bytes" where
  "signed_serialize T x =
     and_then (ok_or BcsSerialize (bcs_to_bytes T (sd_inner x))) (\<lambda>ser.
       Inr (pk_bytes (sd_signer x) @ sig_bytes (sd_sig x) @ ser))"

section \<open>PKCS\#8\<close>

definition PKCS_TEMPLATE_PREFIX :: bytes where
  "PKCS_TEMPLATE_PREFIX =
     [0x30, 0x53, 0x02, 0x01, 0x01, 0x30, 0x05, 0x06, 0x03, 0x2b, 0x65, 0x70, 0x04, 0x22, 0x04, 0x20]"

definition PKCS_TEMPLATE_MIDDLE :: bytes where
  "PKCS_TEMPLATE_MIDDLE = [0xa1, 0x23, 0x03, 0x21, 0x00]"

definition PKCS_TEMPLATE_KEY_IDX :: nat where "PKCS_TEMPLATE_KEY_IDX = 16"

definition PKCS_LEN :: nat where
  "PKCS_LEN = length PKCS_TEMPLATE_PREFIX + SECRET_KEY_LEN + length PKCS_TEMPLATE_MIDDLE + PUBLIC_KEY_LEN"

definition serialize_pkcs8 :: "bytes \<Rightarrow> bytes \<Rightarrow> bytes" where
  "serialize_pkcs8 secret pk =
     (let out = replicate PKCS_LEN 0;
          key_start_idx = PKCS_TEMPLATE_KEY_IDX;
          key_end_idx = key_start_idx + length secret;
          out = splice out 0 PKCS_TEMPLATE_PREFIX;
          out = splice out key_start_idx secret;
          out = splice out key_end_idx PKCS_TEMPLATE_MIDDLE;
          out = splice out (key_end_idx + length PKCS_TEMPLATE_MIDDLE) pk
      in out)"

definition strip_prefix_bytes :: "bytes \<Rightarrow> bytes \<Rightarrow> bytes option" where
  "strip_prefix_bytes pre bs =
     (if take (length pre) bs = pre then Some (drop (length pre) bs) else None)"

definition deserialize_pkcs8 :: "bytes \<Rightarrow> (bytes \<times> bytes) option" where
  "deserialize_pkcs8 bytes =
     (if length bytes \<noteq> PKCS_LEN then None
      else
        Option.bind (strip_prefix_bytes PKCS_TEMPLATE_PREFIX bytes) (\<lambda>seed_mid_pubkey.
          let seed = take SECRET_KEY_LEN seed_mid_pubkey;
              mid_pubkey = drop SECRET_KEY_LEN seed_mid_pubkey
          in Option.bind (strip_prefix_bytes PKCS_TEMPLATE_MIDDLE mid_pubkey) (\<lambda>pubkey.
               Some (seed, pubkey))))"

definition key_pair_serialize_pkcs8 :: "KeyPair \<Rightarrow> bytes" where
  "key_pair_serialize_pkcs8 kp = serialize_pkcs8 (kp_seed kp) (pk_bytes (public_key kp))"

definition key_pair_deserialize_pkcs8 :: "ed_lib \<Rightarrow> bytes \<Rightarrow> EdError + KeyPair" where
  "key_pair_deserialize_pkcs8 lib bytes =
     and_then (ok_or KeyDeserializeError (deserialize_pkcs8 bytes)) (\<lambda>(seed, expected_pubkey).
       from_seed_and_pubkey lib seed expected_pubkey)"

section \<open>The laws of the primitives and of BCS\<close>

locale ed25519_primitives =
  fixes lib :: ed_lib
  assumes public_len: "length seed = 32 \<Longrightarrow> length (ed_public lib seed) = 32"
    and sign_len: "length seed = 32 \<Longrightarrow> length (ed_sign lib seed msg) = 64"
    and sign_verifies: "length seed = 32 \<Longrightarrow> ed_verify lib (ed_public lib seed) msg (ed_sign lib seed msg)"

text \<open>BCS is a canonical encoding: a value has one encoding, and only that is accepted.\<close>

locale bcs_codec =
  fixes T :: "'a signable"
  assumes bcs_canonical: "bcs_from_bytes T bs = Some v \<longleftrightarrow> bcs_to_bytes T v = Some bs"
    and separator_len: "length (domain_separator T) = 32"

section \<open>Verification accepts exactly the signed structs\<close>

lemmas ed_lens = SECRET_KEY_LEN_def PUBLIC_KEY_LEN_def SIGNATURE_LEN_def SIGNED_STRUCT_OVERHEAD_def

lemma deserialize_signed_struct_iff:
  "deserialize_signed_struct bs = Inr (PublicKey p, Signature s, ser) \<longleftrightarrow>
     length p = 32 \<and> length s = 64 \<and> bs = p @ s @ ser"
proof
  assume "deserialize_signed_struct bs = Inr (PublicKey p, Signature s, ser)"
  then have parts: "96 \<le> length bs" "p = take 32 bs" "s = take 64 (drop 32 bs)" "ser = drop 64 (drop 32 bs)"
    by (auto simp: deserialize_signed_struct_def ed_lens Let_def split: if_splits)
  have "bs = p @ s @ ser" unfolding parts(2-4) by (simp only: append_take_drop_id)
  moreover have "length p = 32" "length s = 64" using parts(1) by (simp_all add: parts(2-4))
  ultimately show "length p = 32 \<and> length s = 64 \<and> bs = p @ s @ ser" by blast
qed (simp add: deserialize_signed_struct_def ed_lens)

lemma verify_signed_struct_iff:
  "verify_signed_struct lib T expected bs =
     Inr \<lparr>sd_signer = PublicKey p, sd_sig = Signature s, sd_inner = v\<rparr> \<longleftrightarrow>
   (\<exists>ser. length p = 32 \<and> length s = 64 \<and> bs = p @ s @ ser \<and> expected (PublicKey p) \<and>
      ed_verify lib p (ed_sha256 lib (domain_separator T @ ser)) s \<and> bcs_from_bytes T ser = Some v)"
proof -
  have "verify_signed_struct lib T expected bs = Inr \<lparr>sd_signer = PublicKey p, sd_sig = Signature s, sd_inner = v\<rparr> \<longleftrightarrow>
    (\<exists>ser. deserialize_signed_struct bs = Inr (PublicKey p, Signature s, ser) \<and> expected (PublicKey p) \<and>
      ed_verify lib p (ed_sha256 lib (domain_separator T @ ser)) s \<and> bcs_from_bytes T ser = Some v)"
  proof (cases "deserialize_signed_struct bs")
    case (Inr x)
    then show ?thesis
      by (cases x; cases "fst x"; cases "fst (snd x)")
        (auto simp: verify_signed_struct_def verify_signed_struct_inner_def verify_raw_def digest_many_def
          result_simps)
  qed (simp add: verify_signed_struct_def)
  then show ?thesis unfolding deserialize_signed_struct_iff by blast
qed

lemma sign_struct_out:
  assumes "ed25519_primitives lib" and "length seed = 32" and "bcs_to_bytes T v = Some ser"
  defines "p \<equiv> ed_public lib seed"
  defines "s \<equiv> ed_sign lib seed (ed_sha256 lib (domain_separator T @ ser))"
  shows "sign_struct lib T (from_seed lib seed) v =
    Inr (p @ s @ ser, \<lparr>sd_signer = PublicKey p, sd_sig = Signature s, sd_inner = v\<rparr>)"
  using ed25519_primitives.public_len [OF assms(1,2)] ed25519_primitives.sign_len [OF assms(1,2)] assms(3)
  by (simp add: sign_struct_def public_key_def from_seed_def sign_struct_inner_def sign_raw_def digest_many_def
      splice_def ed_lens Let_def p_def s_def)

lemma signed_struct_verifies:
  assumes "ed25519_primitives lib" and "bcs_codec T" and "length seed = 32"
    and "sign_struct lib T (from_seed lib seed) v = Inr (out, w)"
    and "expected (public_key (from_seed lib seed))"
  shows "verify_signed_struct lib T expected out = Inr w \<and> signed_serialize T w = Inr out"
proof -
  obtain ser where ser: "bcs_to_bytes T v = Some ser"
    using assms(4) by (auto simp: sign_struct_def result_simps)
  note out = sign_struct_out [OF assms(1,3) ser]
  have "bcs_from_bytes T ser = Some v" using bcs_codec.bcs_canonical [OF assms(2)] ser by blast
  then show ?thesis
    using out assms(4,5) ser ed25519_primitives.sign_verifies [OF assms(1,3)]
      ed25519_primitives.public_len [OF assms(1,3)] ed25519_primitives.sign_len [OF assms(1,3)]
    by (auto simp: verify_signed_struct_iff signed_serialize_def public_key_def from_seed_def)
qed

section \<open>The PKCS\#8 form\<close>

lemma serialize_pkcs8_layout:
  assumes "length secret = 32" and "length pk = 32"
  shows "serialize_pkcs8 secret pk = PKCS_TEMPLATE_PREFIX @ secret @ PKCS_TEMPLATE_MIDDLE @ pk"
  using assms
  by (simp add: serialize_pkcs8_def splice_def PKCS_LEN_def PKCS_TEMPLATE_PREFIX_def PKCS_TEMPLATE_MIDDLE_def
      PKCS_TEMPLATE_KEY_IDX_def ed_lens Let_def)

lemma strip_prefix_bytes_Some: "strip_prefix_bytes pre bs = Some r \<longleftrightarrow> bs = pre @ r"
proof
  assume "strip_prefix_bytes pre bs = Some r"
  then have "take (length pre) bs = pre" "r = drop (length pre) bs"
    by (auto simp: strip_prefix_bytes_def split: if_splits)
  then show "bs = pre @ r" using append_take_drop_id [of "length pre" bs] by simp
qed (simp add: strip_prefix_bytes_def)

lemma deserialize_pkcs8_iff:
  "deserialize_pkcs8 bs = Some (seed, pk) \<longleftrightarrow>
     length seed = 32 \<and> length pk = 32 \<and> bs = PKCS_TEMPLATE_PREFIX @ seed @ PKCS_TEMPLATE_MIDDLE @ pk"
proof
  assume des: "deserialize_pkcs8 bs = Some (seed, pk)"
  then obtain r where bs: "length bs = PKCS_LEN" "bs = PKCS_TEMPLATE_PREFIX @ r" "seed = take 32 r"
    "drop 32 r = PKCS_TEMPLATE_MIDDLE @ pk"
    by (auto simp: deserialize_pkcs8_def Let_def bind_eq_Some_conv strip_prefix_bytes_Some SECRET_KEY_LEN_def
        split: if_splits)
  have r: "length r = 69" using bs(1,2) by (simp add: PKCS_LEN_def PKCS_TEMPLATE_MIDDLE_def ed_lens)
  have "length (drop 32 r) = length (PKCS_TEMPLATE_MIDDLE @ pk)" by (rule arg_cong [OF bs(4)])
  then have "length seed = 32" "length pk = 32" using r by (simp_all add: bs(3) PKCS_TEMPLATE_MIDDLE_def)
  moreover have "bs = PKCS_TEMPLATE_PREFIX @ seed @ PKCS_TEMPLATE_MIDDLE @ pk"
    unfolding bs(2,3) bs(4) [symmetric] by simp
  ultimately show "length seed = 32 \<and> length pk = 32 \<and> bs = PKCS_TEMPLATE_PREFIX @ seed @ PKCS_TEMPLATE_MIDDLE @ pk"
    by blast
next
  assume "length seed = 32 \<and> length pk = 32 \<and> bs = PKCS_TEMPLATE_PREFIX @ seed @ PKCS_TEMPLATE_MIDDLE @ pk"
  then show "deserialize_pkcs8 bs = Some (seed, pk)"
    by (simp add: deserialize_pkcs8_def strip_prefix_bytes_def PKCS_LEN_def ed_lens)
qed

lemma key_pair_pkcs8_iff:
  assumes "ed25519_primitives lib"
  shows "key_pair_deserialize_pkcs8 lib bs = Inr kp \<longleftrightarrow>
    (\<exists>seed. length seed = 32 \<and> kp = from_seed lib seed \<and> bs = key_pair_serialize_pkcs8 kp)"
proof -
  have layout: "key_pair_serialize_pkcs8 (from_seed lib seed) =
      PKCS_TEMPLATE_PREFIX @ seed @ PKCS_TEMPLATE_MIDDLE @ ed_public lib seed" if "length seed = 32" for seed
    using serialize_pkcs8_layout [OF that ed25519_primitives.public_len [OF assms that]]
    by (simp add: key_pair_serialize_pkcs8_def from_seed_def public_key_def)
  have "key_pair_deserialize_pkcs8 lib bs = Inr kp \<longleftrightarrow>
      (\<exists>seed. deserialize_pkcs8 bs = Some (seed, ed_public lib seed) \<and> kp = from_seed lib seed)"
    by (auto simp: key_pair_deserialize_pkcs8_def from_seed_and_pubkey_def result_simps split: if_splits)
  also have "\<dots> \<longleftrightarrow> (\<exists>seed. length seed = 32 \<and> kp = from_seed lib seed \<and> bs = key_pair_serialize_pkcs8 kp)"
    using layout ed25519_primitives.public_len [OF assms] unfolding deserialize_pkcs8_iff by auto
  finally show ?thesis .
qed

section \<open>Lawful instances\<close>

text \<open>Primitives that sign with the public key in clear, and a struct of raw bytes.\<close>

definition plain_ed :: ed_lib where
  "plain_ed =
     \<lparr>ed_public = (\<lambda>seed. map (\<lambda>b. b + 1) seed), ed_sign = (\<lambda>seed msg. take 64 (map (\<lambda>b. b + 1) seed @ msg @ replicate 64 0)),
      ed_verify = (\<lambda>pk msg sig. sig = take 64 (pk @ msg @ replicate 64 0)), ed_sha256 = (\<lambda>bs. take 32 (bs @ replicate 32 0))\<rparr>"

interpretation plain_ed: ed25519_primitives plain_ed
  by unfold_locales (simp_all add: plain_ed_def)

definition raw_bytes :: "bytes \<Rightarrow> bytes signable" where
  "raw_bytes sep = \<lparr>domain_separator = take 32 (sep @ replicate 32 0), bcs_to_bytes = Some, bcs_from_bytes = Some\<rparr>"

interpretation raw_bytes: bcs_codec "raw_bytes sep"
  by unfold_locales (auto simp: raw_bytes_def)

end
