(* ===== verification/Root_Seed.thy ===== *)
theory Root_Seed
  imports Enclave Ed25519 Payment_Uri
begin

text \<open>
  The root seed and the secrets made from it: \<^verbatim>\<open>common/src/root_seed.rs\<close> (derivation of keys, password
  backup), \<^verbatim>\<open>common/src/password.rs\<close>, \<^verbatim>\<open>common/src/env.rs\<close> and the sealed seed of
  \<^verbatim>\<open>common/src/api/provision.rs\<close>.  HKDF, PBKDF2, BIP39 and JSON are the parameter \<open>seed_lib\<close>.
\<close>

section \<open>Deploy environments\<close>

datatype DeployEnv = Dev | Staging | Prod

definition is_dev :: "DeployEnv \<Rightarrow> bool" where
  "is_dev env \<longleftrightarrow> env = Dev"

definition is_staging_or_prod :: "DeployEnv \<Rightarrow> bool" where
  "is_staging_or_prod env \<longleftrightarrow> (case env of Staging \<Rightarrow> True | Prod \<Rightarrow> True | Dev \<Rightarrow> False)"

definition env_as_str :: "DeployEnv \<Rightarrow> string" where
  "env_as_str env = (case env of Dev \<Rightarrow> ''dev'' | Staging \<Rightarrow> ''staging'' | Prod \<Rightarrow> ''prod'')"

datatype EnvError = DevNetwork | StagingNetwork | ProdNetwork | NeedsSgx | UnrecognizedEnv

definition validate_network :: "DeployEnv \<Rightarrow> Network \<Rightarrow> EnvError + unit" where
  "validate_network env network =
     (case env of
        Dev \<Rightarrow> ensure (network = REGTEST \<or> network = TESTNET) DevNetwork (Inr ())
      | Staging \<Rightarrow> ensure (network = TESTNET) StagingNetwork (Inr ())
      | Prod \<Rightarrow> ensure (network = MAINNET) ProdNetwork (Inr ()))"

definition validate_sgx :: "DeployEnv \<Rightarrow> bool \<Rightarrow> EnvError + unit" where
  "validate_sgx env use_sgx = (if env = Staging \<or> env = Prod then ensure use_sgx NeedsSgx (Inr ()) else Inr ())"

definition env_from_str :: "string \<Rightarrow> EnvError + DeployEnv" where
  "env_from_str s =
     (if s = ''dev'' then Inr Dev else if s = ''staging'' then Inr Staging
      else if s = ''prod'' then Inr Prod else Inl UnrecognizedEnv)"

definition expected_signer :: "bool \<Rightarrow> DeployEnv \<Rightarrow> Measurement" where
  "expected_signer use_sgx env =
     (if use_sgx
      then (case env of Prod \<Rightarrow> PROD_SIGNER | Staging \<Rightarrow> PROD_SIGNER | Dev \<Rightarrow> DEV_SIGNER)
      else MOCK_SIGNER)"

section \<open>Passwords\<close>

definition MIN_PASSWORD_LENGTH :: nat where "MIN_PASSWORD_LENGTH = 12"
definition MAX_PASSWORD_LENGTH :: nat where "MAX_PASSWORD_LENGTH = 512"
definition PBKDF2_ITERATIONS :: nat where "PBKDF2_ITERATIONS = 600000"

datatype PasswordError = PasswordTooShort | PasswordTooLong | AesDecrypt | EncryptPanics

datatype Mnemonic = Mnemonic string

record RootSeedWithMetadata =
  rs_root_seed :: bytes
  rs_deploy_env :: DeployEnv
  rs_network :: Network

record seed_lib =
  sl_aead :: aead_lib
  sl_ed :: ed_lib
  sl_enclave :: enclave_lib
  pbkdf2 :: "nat \<Rightarrow> bytes \<Rightarrow> bytes \<Rightarrow> bytes"
  hkdf_fill :: "bytes \<Rightarrow> bytes list \<Rightarrow> nat \<Rightarrow> bytes"
  from_entropy :: "bytes \<Rightarrow> Mnemonic option"
  to_entropy_array :: "Mnemonic \<Rightarrow> bytes \<times> nat"
  metadata_to_json :: "RootSeedWithMetadata \<Rightarrow> bytes option"
  metadata_from_json :: "bytes \<Rightarrow> RootSeedWithMetadata option"

text \<open>\<^verbatim>\<open>password.chars().count()\<close>: every character has one byte that is not a continuation byte.\<close>

definition chars_count :: "string \<Rightarrow> nat" where
  "chars_count s = length (filter (\<lambda>c. \<not> is_cont c) s)"

definition validate_password_len :: "string \<Rightarrow> PasswordError + unit" where
  "validate_password_len password =
     (let password_length = chars_count password
      in if password_length < MIN_PASSWORD_LENGTH then Inl PasswordTooShort
         else if MAX_PASSWORD_LENGTH < password_length then Inl PasswordTooLong
         else Inr ())"

definition derive_aes_key :: "seed_lib \<Rightarrow> string \<Rightarrow> bytes \<Rightarrow> AesMasterKey" where
  "derive_aes_key lib password salt =
     aes_new (sl_aead lib) (pbkdf2 lib PBKDF2_ITERATIONS salt (as_bytes password))"

definition password_encrypt_data ::
    "seed_lib \<Rightarrow> bytes \<Rightarrow> string \<Rightarrow> bytes \<Rightarrow> bytes \<Rightarrow> PasswordError + bytes" where
  "password_encrypt_data lib key_id password salt data =
     and_then (validate_password_len password) (\<lambda>_.
       ok_or EncryptPanics
         (aes_encrypt (sl_aead lib) (derive_aes_key lib password salt) key_id [salt] (\<lambda>buf. buf @ data)))"

definition password_decrypt_data ::
    "seed_lib \<Rightarrow> string \<Rightarrow> bytes \<Rightarrow> bytes \<Rightarrow> PasswordError + bytes" where
  "password_decrypt_data lib password salt ciphertext =
     and_then (validate_password_len password) (\<lambda>_.
       map_err (\<lambda>_. AesDecrypt) (aes_decrypt (sl_aead lib) (derive_aes_key lib password salt) [salt] ciphertext))"

section \<open>The root seed\<close>

datatype RootSeed = RootSeed (seed_bytes: bytes)

definition ROOT_SEED_LENGTH :: nat where "ROOT_SEED_LENGTH = 32"
definition HKDF_MAX_OUT_LEN :: nat where "HKDF_MAX_OUT_LEN = 8160"

definition ROOT_SEED_HKDF_SALT :: bytes where
  "ROOT_SEED_HKDF_SALT = array_pad 32 (as_bytes ''LEXE-REALM::RootSeed'')"

datatype RootSeedError = WrongSeedLength | WrongCombinedLength | PasswordFailed PasswordError | WrongEntropyLength

definition root_seed_try_from :: "bytes \<Rightarrow> RootSeedError + RootSeed" where
  "root_seed_try_from bytes =
     (if length bytes \<noteq> ROOT_SEED_LENGTH then Inl WrongSeedLength else Inr (RootSeed bytes))"

definition root_seed_from_str :: "string \<Rightarrow> DecodeError + RootSeed" where
  "root_seed_from_str hex =
     (let (r, bytes) = decode_to_slice hex (replicate ROOT_SEED_LENGTH 0) in map_ok (\<lambda>_. RootSeed bytes) r)"

text \<open>\<^verbatim>\<open>expect\<close>ing the mnemonic of 256 bits; \<open>None\<close> is a panic.\<close>

definition to_mnemonic :: "seed_lib \<Rightarrow> RootSeed \<Rightarrow> Mnemonic option" where
  "to_mnemonic lib seed = from_entropy lib (seed_bytes seed)"

definition root_seed_try_from_mnemonic :: "seed_lib \<Rightarrow> Mnemonic \<Rightarrow> RootSeedError + RootSeed" where
  "root_seed_try_from_mnemonic lib mnemonic =
     (let (entropy, entropy_len) = to_entropy_array lib mnemonic
      in ensure (entropy_len = 32) WrongEntropyLength (Inr (RootSeed (take 32 entropy))))"

definition seed_extract :: "seed_lib \<Rightarrow> RootSeed \<Rightarrow> bytes" where
  "seed_extract lib seed = hkdf_extract (sl_aead lib) ROOT_SEED_HKDF_SALT (seed_bytes seed)"

definition derive_to_slice :: "seed_lib \<Rightarrow> RootSeed \<Rightarrow> bytes list \<Rightarrow> nat \<Rightarrow> bytes option" where
  "derive_to_slice lib seed label out_len =
     (if out_len \<le> HKDF_MAX_OUT_LEN then Some (hkdf_fill lib (seed_extract lib seed) label out_len) else None)"

definition derive :: "seed_lib \<Rightarrow> RootSeed \<Rightarrow> bytes list \<Rightarrow> bytes" where
  "derive lib seed label = the (derive_to_slice lib seed label 32)"

definition derive_vec :: "seed_lib \<Rightarrow> RootSeed \<Rightarrow> bytes list \<Rightarrow> nat \<Rightarrow> bytes option" where
  "derive_vec lib seed label out_len = derive_to_slice lib seed label out_len"

datatype UserPk = UserPk (user_pk_bytes: bytes)

definition derive_shared_seed_tls_ca_key_pair :: "seed_lib \<Rightarrow> RootSeed \<Rightarrow> KeyPair" where
  "derive_shared_seed_tls_ca_key_pair lib seed =
     from_seed (sl_ed lib) (derive lib seed [as_bytes ''shared seed tls ca key pair''])"

definition derive_user_key_pair :: "seed_lib \<Rightarrow> RootSeed \<Rightarrow> KeyPair" where
  "derive_user_key_pair lib seed = from_seed (sl_ed lib) (derive lib seed [as_bytes ''user key pair''])"

definition derive_user_pk :: "seed_lib \<Rightarrow> RootSeed \<Rightarrow> UserPk" where
  "derive_user_pk lib seed = UserPk (pk_bytes (public_key (derive_user_key_pair lib seed)))"

definition derive_vfs_master_key :: "seed_lib \<Rightarrow> RootSeed \<Rightarrow> AesMasterKey" where
  "derive_vfs_master_key lib seed = aes_new (sl_aead lib) (derive lib seed [as_bytes ''vfs master key''])"

text \<open>\<open>salt\<close> and \<open>key_id\<close> are the two draws of 32 random bytes; the outer \<open>None\<close> is the failed
  \<^verbatim>\<open>assert!\<close>.\<close>

definition password_encrypt ::
    "seed_lib \<Rightarrow> bytes \<Rightarrow> bytes \<Rightarrow> RootSeed \<Rightarrow> string \<Rightarrow> (RootSeedError + bytes) option" where
  "password_encrypt lib salt key_id seed password =
     (case password_encrypt_data lib key_id password salt (seed_bytes seed) of
        Inl e \<Rightarrow> Some (Inl (PasswordFailed e))
      | Inr aes_ciphertext \<Rightarrow>
          (let combined = salt @ aes_ciphertext
           in if length combined = 32 + encrypted_len 32 then Some (Inr combined) else None))"

definition password_decrypt :: "seed_lib \<Rightarrow> string \<Rightarrow> bytes \<Rightarrow> RootSeedError + RootSeed" where
  "password_decrypt lib password combined =
     ensure (length combined = 32 + encrypted_len 32) WrongCombinedLength (
       let aes_ciphertext = drop 32 combined;
           salt = take 32 combined
       in and_then (map_err PasswordFailed (password_decrypt_data lib password salt aes_ciphertext)) (\<lambda>root_seed_bytes.
            root_seed_try_from root_seed_bytes))"

section \<open>The sealed seed\<close>

record SealedSeedId =
  ssi_user_pk :: UserPk
  ssi_measurement :: Measurement
  ssi_machine_id :: MachineId

record SealedSeed =
  ss_id :: SealedSeedId
  ss_ciphertext :: bytes

datatype SealError =
    NetworkInvalid EnvError
  | MetadataToJson
  | SealFailed EnclaveError
  | MeasurementMismatch
  | MachineIdMismatch
  | SealedMalformed EnclaveError
  | UnsealFailed EnclaveError
  | MetadataFromJson
  | SeedMalformed RootSeedError
  | UserPkMismatch

definition SEALED_LABEL :: bytes where "SEALED_LABEL = as_bytes ''sealed seed''"

definition seal_from_root_seed ::
    "seed_lib \<Rightarrow> platform \<Rightarrow> bytes \<Rightarrow> RootSeed \<Rightarrow> DeployEnv \<Rightarrow> Network \<Rightarrow> Measurement \<Rightarrow> MachineId \<Rightarrow>
     SealError + SealedSeed" where
  "seal_from_root_seed lib pf key_id root_seed env network m machine =
     and_then (map_err NetworkInvalid (validate_network env network)) (\<lambda>_.
     and_then (ok_or MetadataToJson (metadata_to_json lib
       \<lparr>rs_root_seed = seed_bytes root_seed, rs_deploy_env = env, rs_network = network\<rparr>)) (\<lambda>json_bytes.
     and_then (map_err SealFailed (enclave_seal (sl_enclave lib) pf key_id SEALED_LABEL json_bytes)) (\<lambda>s.
       let ciphertext = sealed_serialize s;
           user_pk = derive_user_pk lib root_seed
       in Inr \<lparr>ss_id = \<lparr>ssi_user_pk = user_pk, ssi_measurement = m, ssi_machine_id = machine\<rparr>,
               ss_ciphertext = ciphertext\<rparr>)))"

definition unseal_and_validate ::
    "seed_lib \<Rightarrow> platform \<Rightarrow> SealedSeed \<Rightarrow> Measurement \<Rightarrow> MachineId \<Rightarrow>
     SealError + RootSeed \<times> DeployEnv \<times> Network" where
  "unseal_and_validate lib pf ss expected_measurement expected_machine_id =
     ensure (ssi_measurement (ss_id ss) = expected_measurement) MeasurementMismatch (
     ensure (ssi_machine_id (ss_id ss) = expected_machine_id) MachineIdMismatch (
     and_then (map_err SealedMalformed (sealed_deserialize (ss_ciphertext ss))) (\<lambda>s.
     and_then (map_err UnsealFailed (enclave_unseal (sl_enclave lib) pf s SEALED_LABEL)) (\<lambda>unsealed_json_bytes.
     and_then (ok_or MetadataFromJson (metadata_from_json lib unsealed_json_bytes)) (\<lambda>meta.
     and_then (map_err SeedMalformed (root_seed_try_from (rs_root_seed meta))) (\<lambda>root_seed.
     and_then (map_err NetworkInvalid (validate_network (rs_deploy_env meta) (rs_network meta))) (\<lambda>_.
     ensure (ssi_user_pk (ss_id ss) = derive_user_pk lib root_seed) UserPkMismatch (
       Inr (root_seed, rs_deploy_env meta, rs_network meta)))))))))"

section \<open>The laws of the libraries\<close>

locale seed_platform =
  fixes lib :: seed_lib
  assumes aead: "aead_laws (sl_aead lib)" and aead_size: "32 \<le> aead_max_plaintext (sl_aead lib)"
    and enclave: "enclave_platform (sl_enclave lib)"
    and ed: "ed25519_primitives (sl_ed lib)"
    and metadata_json: "metadata_to_json lib m = Some bs \<Longrightarrow> metadata_from_json lib bs = Some m"
    and metadata_size: "length (rs_root_seed m) = 32 \<Longrightarrow>
      \<exists>bs. metadata_to_json lib m = Some bs \<and> length bs \<le> gcm_max (sl_enclave lib) \<and> length bs < 2 ^ 31"
    and mnemonic: "length e = 32 \<Longrightarrow> \<exists>m. from_entropy lib e = Some m \<and> to_entropy_array lib m = (e @ [0], 32)"

context seed_platform
begin

lemma password_roundtrip:
  assumes "length salt = 32" and "length key_id = 32" and "length (seed_bytes seed) = 32"
    and "is_ok (validate_password_len password)"
  shows "\<exists>c. password_encrypt lib salt key_id seed password = Some (Inr c) \<and>
    password_decrypt lib password c = Inr seed"
proof -
  let ?k = "derive_aes_key lib password salt"
  obtain d where d: "aes_encrypt (sl_aead lib) ?k key_id [salt] (\<lambda>v. v @ seed_bytes seed) = Some d"
    "length d = encrypted_len 32" "aes_decrypt (sl_aead lib) ?k [salt] d = Inr (seed_bytes seed)"
    using aes_encrypt_decrypt [OF aead assms(2), of "seed_bytes seed" ?k "[salt]"] aead_size assms(3) by auto
  obtain u where "validate_password_len password = Inr u" using assms(4) by (auto simp: is_ok_iff)
  with d assms(1,3) show ?thesis
    by (simp add: password_encrypt_def password_encrypt_data_def password_decrypt_def password_decrypt_data_def
        root_seed_try_from_def ROOT_SEED_LENGTH_def)
qed

lemma seed_seal_unseal:
  assumes "length key_id = 32" and "length (seed_bytes seed) = 32"
    and "seal_from_root_seed lib pf key_id seed env network m machine = Inr ss"
  shows "unseal_and_validate lib pf ss m machine = Inr (seed, env, network)"
proof -
  from assms(3) obtain u json s where seal:
      "validate_network env network = Inr u"
      "metadata_to_json lib \<lparr>rs_root_seed = seed_bytes seed, rs_deploy_env = env, rs_network = network\<rparr> = Some json"
      "enclave_seal (sl_enclave lib) pf key_id SEALED_LABEL json = Inr s"
      "ss = \<lparr>ss_id = \<lparr>ssi_user_pk = derive_user_pk lib seed, ssi_measurement = m, ssi_machine_id = machine\<rparr>,
        ss_ciphertext = sealed_serialize s\<rparr>"
    by (auto simp: seal_from_root_seed_def result_simps Let_def)
  note len = enclave_platform.seal_lengths [OF enclave assms(1) seal(3)]
  have "length json < 2 ^ 31"
    using metadata_size [of "\<lparr>rs_root_seed = seed_bytes seed, rs_deploy_env = env, rs_network = network\<rparr>"]
      assms(2) seal(2) by auto
  then have "sealed_deserialize (sealed_serialize s) = Inr s"
    using len by (intro sealed_serialize_deserialize) simp_all
  then show ?thesis
    using seal metadata_json [OF seal(2)] enclave_platform.unseal_seal [OF enclave assms(1) seal(3)] assms(2)
    by (simp add: unseal_and_validate_def root_seed_try_from_def ROOT_SEED_LENGTH_def)
qed

lemma seed_seal_total:
  assumes "length (seed_bytes seed) = 32" and "is_ok (validate_network env network)"
    and "pf = Sgx \<Longrightarrow> is_ok (egetkey (sl_enclave lib) (gen_sealing_request (sl_enclave lib) key_id))"
  shows "\<exists>ss. seal_from_root_seed lib pf key_id seed env network m machine = Inr ss"
proof -
  let ?m = "\<lparr>rs_root_seed = seed_bytes seed, rs_deploy_env = env, rs_network = network\<rparr>"
  obtain json where json: "metadata_to_json lib ?m = Some json" "length json \<le> gcm_max (sl_enclave lib)"
    using metadata_size [of ?m] assms(1) by auto
  obtain s where "enclave_seal (sl_enclave lib) pf key_id SEALED_LABEL json = Inr s"
    using enclave_platform.seal_total [OF enclave json(2) assms(3)] by blast
  then show ?thesis
    using json(1) assms(2) by (auto simp: seal_from_root_seed_def is_ok_iff Let_def)
qed

lemma mnemonic_roundtrip:
  assumes "length (seed_bytes seed) = 32"
  shows "\<exists>m. to_mnemonic lib seed = Some m \<and> root_seed_try_from_mnemonic lib m = Inr seed"
  using mnemonic [OF assms] assms by (auto simp: to_mnemonic_def root_seed_try_from_mnemonic_def)

end

text \<open>Whatever the database returns, a seed that is accepted carries the expected measurement and
  machine, a network its environment allows, and the user key of its own row.\<close>

lemma unseal_validates:
  assumes "unseal_and_validate lib pf ss m machine = Inr (seed, env, network)"
  shows "ssi_measurement (ss_id ss) = m \<and> ssi_machine_id (ss_id ss) = machine \<and>
    ssi_user_pk (ss_id ss) = derive_user_pk lib seed \<and> is_ok (validate_network env network) \<and>
    length (seed_bytes seed) = 32"
  using assms
  by (auto simp: unseal_and_validate_def root_seed_try_from_def ROOT_SEED_LENGTH_def result_simps is_ok_iff split: if_splits)

section \<open>A lawful instance\<close>

definition plain_env_code :: "DeployEnv \<Rightarrow> u8" where
  "plain_env_code env = (case env of Dev \<Rightarrow> 0 | Staging \<Rightarrow> 1 | Prod \<Rightarrow> 2)"

definition plain_network_code :: "Network \<Rightarrow> u8" where
  "plain_network_code n = (case to_inner n of Bitcoin \<Rightarrow> 0 | Testnet \<Rightarrow> 1 | Regtest \<Rightarrow> 2 | Signet \<Rightarrow> 3)"

definition plain_metadata :: "RootSeedWithMetadata \<Rightarrow> bytes" where
  "plain_metadata m = plain_env_code (rs_deploy_env m) # plain_network_code (rs_network m) # rs_root_seed m"

definition plain_metadata_parse :: "bytes \<Rightarrow> RootSeedWithMetadata option" where
  "plain_metadata_parse bs =
     (case bs of
        e # n # seed \<Rightarrow> Some
          \<lparr>rs_root_seed = seed,
           rs_deploy_env = (if e = 0 then Dev else if e = 1 then Staging else Prod),
           rs_network = Network (if n = 0 then Bitcoin else if n = 1 then Testnet else if n = 2 then Regtest else Signet)\<rparr>
      | _ \<Rightarrow> None)"

definition plain_seed_lib :: seed_lib where
  "plain_seed_lib =
     \<lparr>sl_aead = plain_lib, sl_ed = plain_ed, sl_enclave = plain_enclave,
      pbkdf2 = (\<lambda>n salt password. take 32 (password @ salt)),
      hkdf_fill = (\<lambda>prk label n. take n (prk @ concat label @ replicate n 0)),
      from_entropy = (\<lambda>e. Some (Mnemonic (map (\<lambda>b. char_of (unat b)) e))),
      to_entropy_array = (\<lambda>m. case m of Mnemonic s \<Rightarrow> (map (\<lambda>c. of_char c) s @ [0], length s)),
      metadata_to_json = (\<lambda>m. Some (plain_metadata m)), metadata_from_json = plain_metadata_parse\<rparr>"

lemma plain_metadata_roundtrip: "plain_metadata_parse (plain_metadata m) = Some m"
proof -
  have "rs_network m = Network (to_inner (rs_network m))" by simp
  then show ?thesis
    by (cases "rs_deploy_env m"; cases "to_inner (rs_network m)")
      (simp_all add: plain_metadata_def plain_metadata_parse_def plain_env_code_def plain_network_code_def)
qed

lemma plain_mnemonic_char: "map (\<lambda>c. of_char c) (map (\<lambda>b. char_of (unat b)) e) = (e :: bytes)"
  by (induction e) (simp_all add: of_char_u8)

interpretation plain_seed: seed_platform plain_seed_lib
proof (rule seed_platform.intro)
  fix m :: RootSeedWithMetadata and bs
  show "metadata_to_json plain_seed_lib m = Some bs \<Longrightarrow> metadata_from_json plain_seed_lib bs = Some m"
    using plain_metadata_roundtrip by (auto simp: plain_seed_lib_def)
  show "length (rs_root_seed m) = 32 \<Longrightarrow> \<exists>bs. metadata_to_json plain_seed_lib m = Some bs \<and>
      length bs \<le> gcm_max (sl_enclave plain_seed_lib) \<and> length bs < 2 ^ 31"
    by (simp add: plain_seed_lib_def plain_metadata_def plain_enclave_def)
next
  fix e :: bytes
  show "length e = 32 \<Longrightarrow> \<exists>m. from_entropy plain_seed_lib e = Some m \<and> to_entropy_array plain_seed_lib m = (e @ [0], 32)"
    using plain_mnemonic_char [of e] by (simp add: plain_seed_lib_def)
next
  show "aead_laws (sl_aead plain_seed_lib)" "enclave_platform (sl_enclave plain_seed_lib)"
    "ed25519_primitives (sl_ed plain_seed_lib)"
    using plain_lib_lawful plain_enclave.enclave_platform_axioms plain_ed.ed25519_primitives_axioms
    by (simp_all add: plain_seed_lib_def)
  show "32 \<le> aead_max_plaintext (sl_aead plain_seed_lib)"
    by (simp add: plain_seed_lib_def plain_lib_def)
qed

end
