(* ===== verification/Keys_Properties.thy ===== *)
theory Keys_Properties
  imports Root_Seed
begin

text \<open>The properties of signed structs, key files, sealed seeds and password backups.\<close>

text \<open>C12: Verifying a signed struct accepts exactly the serialized forms of signed structs whose signer is
  one the caller expects and whose signature the signer's key verifies over the hash of the type's domain
  separator followed by the struct's own bytes.  Nothing else is accepted: no other layout, no second
  encoding of the same value, no signature made for another type's separator unless it verifies for this
  one too.\<close>

theorem verify_signed_struct_exact:
  assumes "bcs_codec T"
  shows "verify_signed_struct lib T expected bs = Inr w \<longleftrightarrow>
    signed_serialize T w = Inr bs \<and> length (pk_bytes (sd_signer w)) = 32 \<and> length (sig_bytes (sd_sig w)) = 64 \<and>
    expected (sd_signer w) \<and>
    ed_verify lib (pk_bytes (sd_signer w))
      (ed_sha256 lib (domain_separator T @ drop SIGNED_STRUCT_OVERHEAD bs)) (sig_bytes (sd_sig w))"
proof -
  obtain p s v where w: "w = \<lparr>sd_signer = PublicKey p, sd_sig = Signature s, sd_inner = v\<rparr>"
    by (metis PublicKey.collapse Signature.collapse Signed.cases)
  show ?thesis
    unfolding w verify_signed_struct_iff bcs_codec.bcs_canonical [OF assms]
    by (auto simp: signed_serialize_def result_simps ed_lens)
qed

theorem verify_signed_struct_exact_witness:
  "\<exists>out w. sign_struct plain_ed (raw_bytes [7]) (from_seed plain_ed (replicate 32 1)) [1, 2, 3] = Inr (out, w) \<and>
    verify_signed_struct plain_ed (raw_bytes [7]) accept_any_signer out = Inr w \<and> sd_inner w = [1, 2, 3]"
proof -
  have "length (replicate 32 (1::u8)) = 32" by simp
  note out = sign_struct_out [OF plain_ed.ed25519_primitives_axioms this, of "raw_bytes [7]" "[1, 2, 3]" "[1, 2, 3]"]
  let ?w = "\<lparr>sd_signer = PublicKey (replicate 32 2),
    sd_sig = Signature (replicate 32 2 @ 7 # replicate 31 0), sd_inner = [1, 2, 3]\<rparr> :: bytes Signed"
  let ?out = "replicate 32 2 @ (replicate 32 2 @ 7 # replicate 31 0) @ [1, 2, 3] :: bytes"
  have "sign_struct plain_ed (raw_bytes [7]) (from_seed plain_ed (replicate 32 1)) [1, 2, 3] = Inr (?out, ?w)"
    using out by (simp add: raw_bytes_def plain_ed_def)
  moreover have "verify_signed_struct plain_ed (raw_bytes [7]) accept_any_signer ?out = Inr ?w"
    unfolding verify_signed_struct_exact [OF raw_bytes.bcs_codec_axioms]
    by (simp add: signed_serialize_def raw_bytes_def accept_any_signer_def plain_ed_def ed_lens)
  ultimately show ?thesis by force
qed

text \<open>A struct signed with a key pair verifies, for every caller that accepts this signer, as the
  very struct that was signed, and serializing the verified value gives the signed bytes back.\<close>

theorem signed_struct_roundtrip:
  assumes "ed25519_primitives lib" and "bcs_codec T" and "length seed = 32"
    and "bcs_to_bytes T v = Some ser" and "expected (public_key (from_seed lib seed))"
  shows "\<exists>out w. sign_struct lib T (from_seed lib seed) v = Inr (out, w) \<and> sd_inner w = v \<and>
    verify_signed_struct lib T expected out = Inr w \<and> signed_serialize T w = Inr out \<and>
    length out = SIGNED_STRUCT_OVERHEAD + length ser"
proof -
  note out = sign_struct_out [OF assms(1,3,4)]
  from signed_struct_verifies [where expected = expected, OF assms(1-3) out assms(5)] out show ?thesis
    using ed25519_primitives.public_len [OF assms(1,3)] ed25519_primitives.sign_len [OF assms(1,3)]
    by (auto simp: ed_lens)
qed

theorem signed_struct_roundtrip_witness:
  "\<exists>out w. sign_struct plain_ed (raw_bytes [7]) (from_seed plain_ed (replicate 32 1)) [1, 2, 3] = Inr (out, w) \<and>
    sd_inner w = [1, 2, 3] \<and> verify_signed_struct plain_ed (raw_bytes [7]) accept_any_signer out = Inr w \<and>
    signed_serialize (raw_bytes [7]) w = Inr out \<and> length out = SIGNED_STRUCT_OVERHEAD + length [1::u8, 2, 3]"
  by (rule signed_struct_roundtrip [OF plain_ed.ed25519_primitives_axioms raw_bytes.bcs_codec_axioms])
    (simp_all add: raw_bytes_def accept_any_signer_def)

text \<open>C15: The PKCS\#8 reader accepts exactly the bytes the writer produces for a key pair: every key
  pair is read back, and any other file is refused, in particular one whose embedded public key is not
  the one its secret key derives.\<close>

theorem pkcs8_exact:
  assumes "ed25519_primitives lib"
  shows "key_pair_deserialize_pkcs8 lib bs = Inr kp \<longleftrightarrow>
    (\<exists>seed. length seed = 32 \<and> kp = from_seed lib seed \<and> bs = key_pair_serialize_pkcs8 kp)"
  by (rule key_pair_pkcs8_iff [OF assms])

theorem pkcs8_exact_witness:
  "key_pair_deserialize_pkcs8 plain_ed (key_pair_serialize_pkcs8 (from_seed plain_ed (replicate 32 5))) =
     Inr (from_seed plain_ed (replicate 32 5))"
  unfolding pkcs8_exact [OF plain_ed.ed25519_primitives_axioms]
  by (rule exI [of _ "replicate 32 5"]) simp

text \<open>C9: Sealing a root seed for an allowed network succeeds whenever the machine can derive the
  sealing key, and the sealed seed opens on the same platform to the same seed, environment and network.
  It is refused for any other expected measurement or machine.\<close>

theorem sealed_seed_roundtrip:
  assumes "seed_platform lib" and "length (seed_bytes seed) = 32" and "length key_id = 32"
    and "is_ok (validate_network env network)"
    and "pf = Sgx \<Longrightarrow> is_ok (egetkey (sl_enclave lib) (gen_sealing_request (sl_enclave lib) key_id))"
  shows "\<exists>ss. seal_from_root_seed lib pf key_id seed env network m machine = Inr ss \<and>
    unseal_and_validate lib pf ss m machine = Inr (seed, env, network) \<and>
    (\<forall>m' machine'. is_ok (unseal_and_validate lib pf ss m' machine') \<longrightarrow> m' = m \<and> machine' = machine)"
proof -
  obtain ss where ss: "seal_from_root_seed lib pf key_id seed env network m machine = Inr ss"
    using seed_platform.seed_seal_total [OF assms(1,2,4,5)] by blast
  note open_ok = seed_platform.seed_seal_unseal [OF assms(1,3,2) ss]
  have "m' = m \<and> machine' = machine" if "is_ok (unseal_and_validate lib pf ss m' machine')" for m' machine'
    using that unseal_validates [OF open_ok] unseal_validates by (fastforce simp: is_ok_iff)
  with ss open_ok show ?thesis by blast
qed

theorem sealed_seed_roundtrip_witness:
  "\<exists>ss. seal_from_root_seed plain_seed_lib Sgx (replicate 32 9) (RootSeed (replicate 32 3)) Prod MAINNET
      MOCK_ENCLAVE MACHINE_ID_MOCK = Inr ss \<and>
    unseal_and_validate plain_seed_lib Sgx ss MOCK_ENCLAVE MACHINE_ID_MOCK =
      Inr (RootSeed (replicate 32 3), Prod, MAINNET)"
proof -
  have "\<exists>ss. seal_from_root_seed plain_seed_lib Sgx (replicate 32 9) (RootSeed (replicate 32 3)) Prod MAINNET
      MOCK_ENCLAVE MACHINE_ID_MOCK = Inr ss \<and>
    unseal_and_validate plain_seed_lib Sgx ss MOCK_ENCLAVE MACHINE_ID_MOCK =
      Inr (RootSeed (replicate 32 3), Prod, MAINNET) \<and>
    (\<forall>m' machine'. is_ok (unseal_and_validate plain_seed_lib Sgx ss m' machine') \<longrightarrow>
      m' = MOCK_ENCLAVE \<and> machine' = MACHINE_ID_MOCK)"
    by (rule sealed_seed_roundtrip [OF plain_seed.seed_platform_axioms])
      (simp_all add: validate_network_def plain_seed_lib_def plain_enclave_def)
  then show ?thesis by blast
qed


definition demo_sealed :: SealedSeed where
  "demo_sealed =
     \<lparr>ss_id = \<lparr>ssi_user_pk = derive_user_pk plain_seed_lib (RootSeed (replicate 32 3)),
        ssi_measurement = MOCK_ENCLAVE, ssi_machine_id = MACHINE_ID_MOCK\<rparr>,
      ss_ciphertext = sealed_serialize
        \<lparr>sealed_keyrequest = replicate 32 9,
         sealed_ciphertext = plain_metadata
           \<lparr>rs_root_seed = replicate 32 3, rs_deploy_env = Dev, rs_network = REGTEST\<rparr> @ replicate 16 0\<rparr>\<rparr>"

lemma demo_sealed_opens:
  "unseal_and_validate plain_seed_lib (NonSgx None) demo_sealed MOCK_ENCLAVE MACHINE_ID_MOCK =
    Inr (RootSeed (replicate 32 3), Dev, REGTEST)"
proof -
  have "sealed_deserialize (ss_ciphertext demo_sealed) = Inr
      \<lparr>sealed_keyrequest = replicate 32 9, sealed_ciphertext = plain_metadata
        \<lparr>rs_root_seed = replicate 32 3, rs_deploy_env = Dev, rs_network = REGTEST\<rparr> @ replicate 16 0\<rparr>"
    unfolding demo_sealed_def SealedSeed.simps
    by (rule sealed_serialize_deserialize) (simp_all add: plain_metadata_def)
  then show ?thesis
    using plain_metadata_roundtrip [of "\<lparr>rs_root_seed = replicate 32 3, rs_deploy_env = Dev, rs_network = REGTEST\<rparr>"]
    by (simp add: unseal_and_validate_def enclave_unseal_def mock_try_from_bytes_def plain_seed_lib_def
        plain_enclave_def plain_lib_def plain_metadata_def root_seed_try_from_def ROOT_SEED_LENGTH_def
        validate_network_def demo_sealed_def)
qed


text \<open>C14: A root seed encrypted under any password of 12 to 512 characters is recovered by decrypting
  with that password; a shorter or longer password is refused in both directions, and so is a backup of
  any other length.\<close>

theorem password_backup_roundtrip:
  assumes "seed_platform lib" and "length salt = 32" and "length key_id = 32" and "length (seed_bytes seed) = 32"
  shows "if 12 \<le> chars_count password \<and> chars_count password \<le> 512
    then (\<exists>c. password_encrypt lib salt key_id seed password = Some (Inr c) \<and> length c = 113 \<and>
      password_decrypt lib password c = Inr seed)
    else (\<exists>e. password_encrypt lib salt key_id seed password = Some (Inl (PasswordFailed e))) \<and>
      (\<forall>c. \<not> is_ok (password_decrypt lib password c))"
proof (cases "12 \<le> chars_count password \<and> chars_count password \<le> 512")
  case True
  then have ok: "is_ok (validate_password_len password)"
    by (simp add: validate_password_len_def MIN_PASSWORD_LENGTH_def MAX_PASSWORD_LENGTH_def Let_def)
  obtain c where c: "password_encrypt lib salt key_id seed password = Some (Inr c)"
    "password_decrypt lib password c = Inr seed"
    using seed_platform.password_roundtrip [OF assms ok] by blast
  have "length c = 113"
    using c(1) by (auto simp: password_encrypt_def Let_def len_defs split: sum.splits if_splits)
  with True c show ?thesis by simp
next
  case False
  then obtain e where "validate_password_len password = Inl e"
    by (auto simp: validate_password_len_def MIN_PASSWORD_LENGTH_def MAX_PASSWORD_LENGTH_def Let_def)
  moreover from this have "\<not> is_ok (password_decrypt lib password c)" for c
    by (auto simp: password_decrypt_def password_decrypt_data_def ensure_def)
  ultimately show ?thesis
    using False by (auto simp: password_encrypt_def password_encrypt_data_def)
qed

theorem password_backup_roundtrip_witness:
  "\<exists>c. password_encrypt plain_seed_lib (replicate 32 1) (replicate 32 2) (RootSeed (replicate 32 3))
      ''correct horse'' = Some (Inr c) \<and>
    length c = 113 \<and> password_decrypt plain_seed_lib ''correct horse'' c = Inr (RootSeed (replicate 32 3))"
proof -
  have "chars_count ''correct horse'' = 13" by code_simp
  with password_backup_roundtrip [OF plain_seed.seed_platform_axioms, of "replicate 32 1" "replicate 32 2"
      "RootSeed (replicate 32 3)" "''correct horse''"] show ?thesis by simp
qed

end
