(* ===== verification/Approved_Versions.thy ===== *)
theory Approved_Versions
  imports BTree_Map Enclave
begin

text \<open>
  \<^verbatim>\<open>node/src/approved_versions.rs\<close>: the list of node versions a user has approved, with rolling and yank
  revocation.  Version numbers are the \<^verbatim>\<open>semver\<close> crate's, a type parameter with its order and parser; the
  order is a \<open>total_cmp\<close>.
\<close>

section \<open>The operations\<close>

record 'v semver_lib =
  version_cmp :: "'v \<Rightarrow> 'v \<Rightarrow> ordering"
  version_parse :: "string \<Rightarrow> 'v option"
  SEMVER_VERSION :: string

text \<open>\<^verbatim>\<open>ApprovedVersions\<close> is its map of versions to measurements.\<close>

type_synonym 'v ApprovedVersions = "('v \<times> Measurement) list"

definition MAX_SIZE :: nat where "MAX_SIZE = 3"

definition YANKED_NODE_VERSIONS :: "string list" where "YANKED_NODE_VERSIONS = []"
definition YANKED_NODE_MEASUREMENTS :: "Measurement list" where "YANKED_NODE_MEASUREMENTS = []"

definition approved_new :: "'v ApprovedVersions" where
  "approved_new = []"

text \<open>\<open>SemverPanic\<close> is the \<^verbatim>\<open>expect\<close> on a version constant.\<close>

datatype ApproveError =
    SemverPanic
  | VersionMeasurementMismatch
  | YankedMeasurementUnknown
  | TooOldToApprove

fun yank_loop ::
    "'v semver_lib \<Rightarrow> Measurement list \<Rightarrow> string list \<Rightarrow> bool \<Rightarrow> ('v \<times> Measurement) list \<Rightarrow> 'v ApprovedVersions \<Rightarrow>
     (ApproveError + bool \<times> ('v \<times> Measurement) list) \<times> 'v ApprovedVersions" where
  "yank_loop lib yanked_ms [] updated revoked approved = (Inr (updated, revoked), approved)"
| "yank_loop lib yanked_ms (y # ys) updated revoked approved =
     (case version_parse lib y of
        None \<Rightarrow> (Inl SemverPanic, approved)
      | Some yanked_version \<Rightarrow>
          (case bt_get (version_cmp lib) yanked_version approved of
             None \<Rightarrow> yank_loop lib yanked_ms ys updated revoked approved
           | Some yanked_measurement \<Rightarrow>
               (let approved = bt_remove (version_cmp lib) yanked_version approved
                in if yanked_measurement \<in> set yanked_ms
                   then yank_loop lib yanked_ms ys True (revoked @ [(yanked_version, yanked_measurement)]) approved
                   else (Inl YankedMeasurementUnknown, approved))))"

fun trim_loop ::
    "bool \<Rightarrow> ('v \<times> Measurement) list \<Rightarrow> 'v ApprovedVersions \<Rightarrow>
     (bool \<times> ('v \<times> Measurement) list) \<times> 'v ApprovedVersions" where
  "trim_loop updated revoked [] = ((updated, revoked), [])"
| "trim_loop updated revoked (e # approved) =
     (if MAX_SIZE < length (e # approved) then trim_loop True (revoked @ [e]) approved
      else ((updated, revoked), e # approved))"

text \<open>The method for any pair of yank lists, which every release carries as constants.\<close>

definition approve_and_revoke_with ::
    "'v semver_lib \<Rightarrow> string list \<Rightarrow> Measurement list \<Rightarrow> Measurement \<Rightarrow> 'v ApprovedVersions \<Rightarrow>
     (ApproveError + bool \<times> ('v \<times> Measurement) list) \<times> 'v ApprovedVersions" where
  "approve_and_revoke_with lib yanked_versions yanked_measurements cur_measurement approved =
     (case version_parse lib (SEMVER_VERSION lib) of
        None \<Rightarrow> (Inl SemverPanic, approved)
      | Some cur_version \<Rightarrow>
          (let entry = bt_get (version_cmp lib) cur_version approved
           in if (case entry of Some occ_measurement \<Rightarrow> occ_measurement \<noteq> cur_measurement | None \<Rightarrow> False)
              then (Inl VersionMeasurementMismatch, approved)
              else
                (let updated = (entry = None);
                     approved = (if entry = None
                       then bt_insert (version_cmp lib) cur_version cur_measurement approved else approved)
                 in case yank_loop lib yanked_measurements yanked_versions updated [] approved of
                      (Inl e, approved) \<Rightarrow> (Inl e, approved)
                    | (Inr (updated, revoked), approved) \<Rightarrow>
                        (case trim_loop updated revoked approved of ((updated, revoked), approved) \<Rightarrow>
                           (if bt_get (version_cmp lib) cur_version approved = None
                            then (Inl TooOldToApprove, approved)
                            else (Inr (updated, revoked), approved))))))"

definition approve_and_revoke ::
    "'v semver_lib \<Rightarrow> Measurement \<Rightarrow> 'v ApprovedVersions \<Rightarrow>
     (ApproveError + bool \<times> ('v \<times> Measurement) list) \<times> 'v ApprovedVersions" where
  "approve_and_revoke lib cur_measurement approved =
     approve_and_revoke_with lib YANKED_NODE_VERSIONS YANKED_NODE_MEASUREMENTS cur_measurement approved"

section \<open>The two loops\<close>

lemma trim_loop_eq:
  "trim_loop updated revoked xs =
    ((updated \<or> MAX_SIZE < length xs, revoked @ take (length xs - MAX_SIZE) xs), drop (length xs - MAX_SIZE) xs)"
proof (induction xs arbitrary: updated revoked)
  case (Cons e xs)
  show ?case
  proof (cases "MAX_SIZE < length (e # xs)")
    case True
    then have "length (e # xs) - MAX_SIZE = Suc (length xs - MAX_SIZE)" by simp
    with True show ?thesis by (simp add: Cons.IH)
  qed simp
qed (simp add: MAX_SIZE_def)

text \<open>The versions the yank list names.\<close>

definition yanked :: "'v semver_lib \<Rightarrow> string list \<Rightarrow> 'v set" where
  "yanked lib ys = {v. \<exists>y \<in> set ys. version_parse lib y = Some v}"

definition without :: "'v set \<Rightarrow> ('v \<times> 'm) list \<Rightarrow> ('v \<times> 'm) list" where
  "without S xs = filter (\<lambda>e. fst e \<notin> S) xs"

lemma without_simps [simp]:
  "without {} xs = xs" "without S (without T xs) = without (S \<union> T) xs"
  by (simp_all add: without_def) (rule filter_cong, auto)

lemma yanked_Cons: "version_parse lib y = Some v \<Longrightarrow> yanked lib (y # ys) = insert v (yanked lib ys)"
  by (auto simp: yanked_def)

lemma yanked_Nil [simp]: "yanked lib [] = {}"
  by (simp add: yanked_def)

lemma without_absent: "map_of xs v = None \<Longrightarrow> without (insert v S) xs = without S xs"
  by (auto simp: without_def map_of_eq_None_iff intro!: filter_cong)

lemma without_length: "without S xs \<noteq> xs \<Longrightarrow> length (without S xs) < length xs"
  unfolding without_def by (metis length_filter_less filter_id_conv)

text \<open>The map once the running version has been entered.\<close>

definition approved_now :: "'v semver_lib \<Rightarrow> 'v \<Rightarrow> Measurement \<Rightarrow> 'v ApprovedVersions \<Rightarrow> 'v ApprovedVersions" where
  "approved_now lib cur m xs = (if map_of xs cur = None then bt_insert (version_cmp lib) cur m xs else xs)"

locale version_order = total_cmp "version_cmp lib" for lib :: "'v semver_lib"
begin

lemma bt_remove_without: "bt_remove (version_cmp lib) v xs = without {v} xs"
  unfolding bt_remove_def without_def by (rule filter_cong) (auto simp: cmp_eq)

lemma yank_loop_ok:
  assumes "\<forall>y \<in> set ys. version_parse lib y \<noteq> None" and "distinct (map fst xs)"
    and "\<forall>e \<in> set xs. fst e \<in> yanked lib ys \<longrightarrow> snd e \<in> set ms"
  shows "\<exists>revoked'. yank_loop lib ms ys updated revoked xs =
      (Inr (updated \<or> without (yanked lib ys) xs \<noteq> xs, revoked @ revoked'), without (yanked lib ys) xs) \<and>
    set revoked' = set xs - set (without (yanked lib ys) xs)"
  using assms
proof (induction ys arbitrary: updated revoked xs)
  case (Cons y ys)
  then obtain v where v: "version_parse lib y = Some v" by auto
  note S = yanked_Cons [OF v, of ys]
  show ?case
  proof (cases "map_of xs v")
    case None
    have "without (yanked lib (y # ys)) xs = without (yanked lib ys) xs"
      unfolding S by (rule without_absent [OF None])
    then show ?thesis
      using Cons.IH [of xs updated revoked] Cons.prems None v by (auto simp: bt_get_map_of S)
  next
    case (Some m)
    let ?xs = "without {v} xs"
    have mem: "(v, m) \<in> set xs" using Some by (rule map_of_SomeD)
    have "distinct (map fst ?xs)" using Cons.prems(2) by (simp add: without_def distinct_map_filter)
    moreover have "\<forall>e \<in> set ?xs. fst e \<in> yanked lib ys \<longrightarrow> snd e \<in> set ms"
      using Cons.prems(3) by (auto simp: without_def S)
    ultimately obtain r where r: "yank_loop lib ms ys True (revoked @ [(v, m)]) ?xs =
        (Inr (True, (revoked @ [(v, m)]) @ r), without (yanked lib ys) ?xs)"
      "set r = set ?xs - set (without (yanked lib ys) ?xs)"
      using Cons.IH [of ?xs True "revoked @ [(v, m)]"] Cons.prems(1) by auto
    have all: "without (yanked lib ys) ?xs = without (yanked lib (y # ys)) xs" by (simp add: S)
    have "(v, m) \<notin> set (without (yanked lib (y # ys)) xs)" by (simp add: without_def S)
    with mem have changed: "without (yanked lib (y # ys)) xs \<noteq> xs" by auto
    have "m \<in> set ms" using Cons.prems(3) mem by (auto simp: S)
    then have "yank_loop lib ms (y # ys) updated revoked xs =
        (Inr (True, revoked @ (v, m) # r), without (yanked lib (y # ys)) xs)"
      using r(1) Some v by (simp add: bt_get_map_of bt_remove_without S)
    moreover have "set ((v, m) # r) = set xs - set (without (yanked lib (y # ys)) xs)"
    proof -
      have uniq: "e = (v, m)" if "e \<in> set xs" "fst e = v" for e
      proof -
        have "map_of xs (fst e) = Some (snd e)" using that(1) Cons.prems(2) by simp
        with Some that(2) show ?thesis by (simp add: prod_eq_iff)
      qed
      have "set ?xs = {e \<in> set xs. fst e \<noteq> v}" by (simp add: without_def)
      with uniq mem have "set xs = insert (v, m) (set ?xs)" by blast
      moreover have "(v, m) \<notin> set (without (yanked lib ys) ?xs)" by (simp add: without_def)
      ultimately show ?thesis unfolding all [symmetric] by (simp add: r(2) insert_Diff_if)
    qed
    ultimately show ?thesis using changed by (intro exI [of _ "(v, m) # r"]) simp
  qed
qed simp

lemma yank_loop_bad:
  assumes "\<forall>y \<in> set ys. version_parse lib y \<noteq> None" and "distinct (map fst xs)"
    and "e \<in> set xs" "fst e \<in> yanked lib ys" "snd e \<notin> set ms"
  shows "fst (yank_loop lib ms ys updated revoked xs) = Inl YankedMeasurementUnknown"
  using assms
proof (induction ys arbitrary: updated revoked xs)
  case (Cons y ys)
  then obtain v where v: "version_parse lib y = Some v" by auto
  note S = yanked_Cons [OF v, of ys]
  have get: "map_of xs (fst e) = Some (snd e)" using Cons.prems(2,3) by simp
  show ?case
  proof (cases "map_of xs v")
    case None
    with get have "fst e \<noteq> v" by auto
    with Cons v None show ?thesis by (simp add: bt_get_map_of S)
  next
    case (Some m)
    have "e \<in> set (without {v} xs)" if "m \<in> set ms"
      using that get Some Cons.prems(3,5) by (auto simp: without_def)
    moreover have "fst e \<in> yanked lib ys" if "m \<in> set ms"
      using that get Some Cons.prems(4,5) by (auto simp: S)
    moreover have "distinct (map fst (without {v} xs))"
      using Cons.prems(2) by (simp add: without_def distinct_map_filter)
    ultimately show ?thesis
      using Cons.IH [of "without {v} xs"] Cons.prems(1,5) v Some
      by (simp add: bt_get_map_of bt_remove_without Let_def)
  qed
qed simp


text \<open>How many entries are newer than a version, and the newest \<open>MAX_SIZE\<close> entries of a map.\<close>

lemma in_newest_iff:
  assumes "bt_sorted (version_cmp lib) xs" and "(v, m) \<in> set xs"
  shows "(v, m) \<in> set (drop (length xs - n) xs) \<longleftrightarrow> length (filter (\<lambda>e. version_cmp lib v (fst e) = Less) xs) < n"
proof -
  obtain as bs where xs: "xs = as @ (v, m) # bs" using split_list [OF assms(2)] by blast
  have as: "\<forall>e \<in> set as. version_cmp lib (fst e) v = Less" and bs: "\<forall>e \<in> set bs. version_cmp lib v (fst e) = Less"
    using assms(1) by (auto simp: bt_sorted_def xs sorted_wrt_append)
  have "version_cmp lib v (fst e) \<noteq> Less" if "e \<in> set as" for e
    using as that cmp_flip [of "fst e" v] by auto
  moreover have "version_cmp lib v v \<noteq> Less" using cmp_eq [of v v] by simp
  ultimately have newer: "filter (\<lambda>e. version_cmp lib v (fst e) = Less) xs = bs"
    using bs by (simp add: xs filter_empty_conv filter_id_conv)
  have "(v, m) \<notin> set as" using as \<open>version_cmp lib v v \<noteq> Less\<close> by force
  moreover have "(v, m) \<notin> set (drop k bs)" for k
    using bs \<open>version_cmp lib v v \<noteq> Less\<close> by (force dest: in_set_dropD)
  ultimately have "(v, m) \<in> set (drop k xs) \<longleftrightarrow> k \<le> length as" for k
    by (auto simp: xs drop_Cons' dest: in_set_dropD)
  moreover have "length xs - n \<le> length as \<longleftrightarrow> length bs < n" by (auto simp: xs)
  ultimately show ?thesis by (simp only: newer)
qed

lemma newest_above:
  assumes "bt_sorted (version_cmp lib) xs" and "e \<in> set (drop k xs)" and "e' \<in> set xs" and "e' \<notin> set (drop k xs)"
  shows "version_cmp lib (fst e') (fst e) = Less"
proof -
  have "bt_sorted (version_cmp lib) (take k xs @ drop k xs)" using assms(1) by simp
  moreover have "e' \<in> set (take k xs)" using assms(3,4) by (metis UnE append_take_drop_id set_append)
  ultimately show ?thesis using assms(2) unfolding bt_sorted_def sorted_wrt_append by blast
qed

lemma sorted_without: "bt_sorted (version_cmp lib) xs \<Longrightarrow> bt_sorted (version_cmp lib) (without S xs)"
  by (simp add: bt_sorted_def without_def sorted_wrt_filter)

lemma approved_now_map:
  assumes "bt_sorted (version_cmp lib) xs" and "map_of xs cur \<in> {None, Some m}"
  shows "map_of (approved_now lib cur m xs) = (map_of xs)(cur \<mapsto> m)"
  using assms by (auto simp: approved_now_def bt_insert_map_of fun_eq_iff)

lemma approved_now_sorted: "bt_sorted (version_cmp lib) xs \<Longrightarrow> bt_sorted (version_cmp lib) (approved_now lib cur m xs)"
  by (simp add: approved_now_def bt_insert_sorted)

text \<open>What one call does, given that every version constant parses.\<close>

lemma approve_outcome:
  assumes sorted: "bt_sorted (version_cmp lib) xs"
    and cur: "version_parse lib (SEMVER_VERSION lib) = Some cur"
    and parse: "\<forall>y \<in> set ys. version_parse lib y \<noteq> None"
    and same: "map_of xs cur \<in> {None, Some m}"
    and known: "\<forall>e \<in> set (approved_now lib cur m xs). fst e \<in> yanked lib ys \<longrightarrow> snd e \<in> set ms"
  defines "keep \<equiv> without (yanked lib ys) (approved_now lib cur m xs)"
  defines "kept \<equiv> drop (length keep - MAX_SIZE) keep"
  shows "\<exists>revoked. approve_and_revoke_with lib ys ms m xs =
      (if map_of kept cur = None then Inl TooOldToApprove
       else Inr (map_of xs cur = None \<or> kept \<noteq> approved_now lib cur m xs, revoked), kept) \<and>
    set revoked = set (approved_now lib cur m xs) - set kept"
proof -
  let ?ins = "approved_now lib cur m xs"
  have dist: "distinct (map fst ?ins)" using approved_now_sorted [OF sorted] by (rule bt_sorted_distinct)
  obtain r where r: "yank_loop lib ms ys (map_of xs cur = None) [] ?ins =
      (Inr (map_of xs cur = None \<or> keep \<noteq> ?ins, r), keep)" "set r = set ?ins - set keep"
    using yank_loop_ok [OF parse dist known, of "map_of xs cur = None" "[]"] by (auto simp: keep_def)
  let ?r = "r @ take (length keep - MAX_SIZE) keep"
  have trim: "trim_loop (map_of xs cur = None \<or> keep \<noteq> ?ins) r keep =
      ((map_of xs cur = None \<or> kept \<noteq> ?ins, ?r), kept)"
  proof -
    have "keep \<noteq> ?ins \<or> MAX_SIZE < length keep \<longleftrightarrow> kept \<noteq> ?ins"
    proof (cases "MAX_SIZE < length keep")
      case True
      have "length keep \<le> length ?ins" by (simp add: keep_def without_def)
      with True have "length kept \<noteq> length ?ins" by (simp add: kept_def)
      with True show ?thesis by auto
    qed (simp add: kept_def)
    then show ?thesis by (auto simp: trim_loop_eq kept_def)
  qed
  have "set ?r = set ?ins - set kept"
  proof -
    have dk: "distinct keep" using dist by (simp add: keep_def without_def distinct_map)
    then have "set (take (length keep - MAX_SIZE) keep) \<inter> set kept = {}"
      unfolding kept_def by (simp add: set_take_disj_set_drop_if_distinct)
    moreover have "set keep = set (take (length keep - MAX_SIZE) keep) \<union> set kept"
      unfolding kept_def by (metis append_take_drop_id set_append)
    moreover have "set keep \<subseteq> set ?ins" by (auto simp: keep_def without_def)
    ultimately show ?thesis using r(2) by auto
  qed
  moreover have "approve_and_revoke_with lib ys ms m xs =
      (if map_of kept cur = None then Inl TooOldToApprove
       else Inr (map_of xs cur = None \<or> kept \<noteq> ?ins, ?r), kept)"
    using same r(1) trim
    by (cases "map_of xs cur")
      (auto simp: approve_and_revoke_with_def cur bt_get_map_of approved_now_def Let_def split: if_splits)
  ultimately show ?thesis by blast
qed

lemma approve_refused:
  assumes "bt_sorted (version_cmp lib) xs" and cur: "version_parse lib (SEMVER_VERSION lib) = Some cur"
    and parse: "\<forall>y \<in> set ys. version_parse lib y \<noteq> None"
    and bad: "map_of xs cur \<notin> {None, Some m} \<or>
      (\<exists>e \<in> set (approved_now lib cur m xs). fst e \<in> yanked lib ys \<and> snd e \<notin> set ms)"
  shows "\<not> is_ok (fst (approve_and_revoke_with lib ys ms m xs))"
proof (cases "map_of xs cur \<in> {None, Some m}")
  case False
  then show ?thesis
    by (cases "map_of xs cur") (auto simp: approve_and_revoke_with_def cur bt_get_map_of)
next
  case True
  with bad obtain e where e: "e \<in> set (approved_now lib cur m xs)" "fst e \<in> yanked lib ys" "snd e \<notin> set ms" by blast
  have "distinct (map fst (approved_now lib cur m xs))"
    using approved_now_sorted [OF assms(1)] by (rule bt_sorted_distinct)
  from yank_loop_bad [OF parse this e, of "map_of xs cur = None" "[]"] True show ?thesis
    by (cases "map_of xs cur"; cases "yank_loop lib ms ys (map_of xs cur = None) [] (approved_now lib cur m xs)")
      (auto simp: approve_and_revoke_with_def cur bt_get_map_of approved_now_def Let_def)
qed


lemma approve_ok_iff:
  fixes m :: Measurement
  assumes sorted: "bt_sorted (version_cmp lib) xs"
    and cur: "version_parse lib (SEMVER_VERSION lib) = Some cur"
    and parse: "\<forall>y \<in> set ys. version_parse lib y \<noteq> None"
  defines "keep \<equiv> without (yanked lib ys) (approved_now lib cur m xs)"
  shows "is_ok (fst (approve_and_revoke_with lib ys ms m xs)) \<longleftrightarrow>
    map_of xs cur \<in> {None, Some m} \<and> cur \<notin> yanked lib ys \<and>
    (\<forall>e \<in> set (approved_now lib cur m xs). fst e \<in> yanked lib ys \<longrightarrow> snd e \<in> set ms) \<and>
    length (filter (\<lambda>e. version_cmp lib cur (fst e) = Less) keep) < MAX_SIZE"
proof (cases "map_of xs cur \<in> {None, Some m} \<and>
    (\<forall>e \<in> set (approved_now lib cur m xs). fst e \<in> yanked lib ys \<longrightarrow> snd e \<in> set ms)")
  case True
  let ?now = "approved_now lib cur m xs"
  let ?kept = "drop (length keep - MAX_SIZE) keep"
  have same: "map_of xs cur \<in> {None, Some m}" and known: "\<forall>e \<in> set ?now. fst e \<in> yanked lib ys \<longrightarrow> snd e \<in> set ms"
    using True by blast+
  obtain b r where out: "approve_and_revoke_with lib ys ms m xs =
      (if map_of ?kept cur = None then Inl TooOldToApprove else Inr (b, r), ?kept)"
    using approve_outcome [OF sorted cur parse same known] by (auto simp: keep_def)
  have now: "bt_sorted (version_cmp lib) ?now" by (rule approved_now_sorted [OF sorted])
  have get: "map_of ?now cur = Some m" by (simp add: approved_now_map [OF sorted same])
  have srt: "bt_sorted (version_cmp lib) keep" unfolding keep_def by (rule sorted_without [OF now])
  have "map_of ?kept cur = Some m'" if "(cur, m') \<in> set ?kept" for m'
    using that srt by (intro map_of_is_SomeI) (simp_all add: bt_sorted_def sorted_wrt_drop bt_sorted_distinct)
  moreover have "(cur, m') \<in> set ?kept \<longrightarrow> m' = m" for m'
  proof
    assume "(cur, m') \<in> set ?kept"
    then have "(cur, m') \<in> set ?now" by (auto simp: keep_def without_def dest: in_set_dropD)
    then show "m' = m" using get now by (simp add: bt_sorted_distinct)
  qed
  ultimately have "map_of ?kept cur \<noteq> None \<longleftrightarrow> (cur, m) \<in> set ?kept" by (auto dest: map_of_SomeD)
  also have "\<dots> \<longleftrightarrow> cur \<notin> yanked lib ys \<and> length (filter (\<lambda>e. version_cmp lib cur (fst e) = Less) keep) < MAX_SIZE"
  proof (cases "cur \<in> yanked lib ys")
    case True
    then have "(cur, m) \<notin> set keep" by (simp add: keep_def without_def)
    with True show ?thesis by (auto dest: in_set_dropD)
  next
    case False
    then have "(cur, m) \<in> set keep" using map_of_SomeD [OF get] by (simp add: keep_def without_def)
    from in_newest_iff [OF srt this] False show ?thesis by simp
  qed
  finally show ?thesis using True by (cases "map_of ?kept cur") (auto simp: out)
next
  case False
  then show ?thesis using approve_refused [OF sorted cur parse, of m ms] by auto
qed

lemma approve_result:
  assumes sorted: "bt_sorted (version_cmp lib) xs"
    and cur: "version_parse lib (SEMVER_VERSION lib) = Some cur"
    and parse: "\<forall>y \<in> set ys. version_parse lib y \<noteq> None"
    and ok: "approve_and_revoke_with lib ys ms m xs = (Inr (updated, revoked), xs')"
  defines "keep \<equiv> without (yanked lib ys) (approved_now lib cur m xs)"
  shows "xs' = drop (length keep - MAX_SIZE) keep \<and> map_of xs' cur = Some m \<and> updated = (xs' \<noteq> xs) \<and>
    set revoked = set (approved_now lib cur m xs) - set xs'"
proof -
  have "is_ok (fst (approve_and_revoke_with lib ys ms m xs))" by (simp add: ok)
  then have same: "map_of xs cur \<in> {None, Some m}"
    and known: "\<forall>e \<in> set (approved_now lib cur m xs). fst e \<in> yanked lib ys \<longrightarrow> snd e \<in> set ms"
    unfolding approve_ok_iff [OF sorted cur parse] by blast+
  obtain r where r: "approve_and_revoke_with lib ys ms m xs =
      (if map_of (drop (length keep - MAX_SIZE) keep) cur = None then Inl TooOldToApprove
       else Inr (map_of xs cur = None \<or> drop (length keep - MAX_SIZE) keep \<noteq> approved_now lib cur m xs, r),
       drop (length keep - MAX_SIZE) keep)"
    "set r = set (approved_now lib cur m xs) - set (drop (length keep - MAX_SIZE) keep)"
    using approve_outcome [OF sorted cur parse same known] unfolding keep_def by blast
  then have xs': "xs' = drop (length keep - MAX_SIZE) keep" "map_of xs' cur \<noteq> None" "revoked = r"
    and up: "updated \<longleftrightarrow> map_of xs cur = None \<or> xs' \<noteq> approved_now lib cur m xs"
    using ok by (auto split: if_splits)
  have sub: "set xs' \<subseteq> set (approved_now lib cur m xs)"
    by (auto simp: xs'(1) keep_def without_def dest: in_set_dropD)
  obtain m' where m': "map_of xs' cur = Some m'" using xs'(2) by blast
  then have "(cur, m') \<in> set (approved_now lib cur m xs)" using sub map_of_SomeD [OF m'] by blast
  then have "map_of (approved_now lib cur m xs) cur = Some m'"
    using approved_now_sorted [OF sorted] by (simp add: bt_sorted_distinct)
  with m' have "map_of xs' cur = Some m" by (simp add: approved_now_map [OF sorted same])
  moreover have "updated = (xs' \<noteq> xs)"
    using up xs'(2) by (auto simp: approved_now_def split: if_splits)
  ultimately show ?thesis using xs'(1,3) r(2) by simp
qed

end

section \<open>The property\<close>

text \<open>C11: Approving the running version succeeds exactly when the list does not hold another measurement
  for it, it is not yanked, every yanked version found in the list has a yanked measurement, and fewer
  than three of the versions that are left are newer.  On success the list holds the three newest of the
  versions that are not yanked, the running version and its measurement among them; the returned versions
  are exactly those removed, each older than every version kept or yanked; and \<^verbatim>\<open>updated\<close> tells whether the
  list changed.  This holds for any yank lists a release may carry.\<close>

theorem approve_and_revoke_correct:
  fixes lib :: "'v semver_lib" and m :: Measurement
  assumes order: "total_cmp (version_cmp lib)" and sorted: "bt_sorted (version_cmp lib) xs"
    and cur: "version_parse lib (SEMVER_VERSION lib) = Some cur"
    and parse: "\<forall>y \<in> set ys. version_parse lib y \<noteq> None"
  defines "now \<equiv> approved_now lib cur m xs"
  defines "keep \<equiv> without (yanked lib ys) now"
  shows "(is_ok (fst (approve_and_revoke_with lib ys ms m xs)) \<longleftrightarrow>
      map_of xs cur \<in> {None, Some m} \<and> cur \<notin> yanked lib ys \<and>
      (\<forall>e \<in> set now. fst e \<in> yanked lib ys \<longrightarrow> snd e \<in> set ms) \<and>
      length (filter (\<lambda>e. version_cmp lib cur (fst e) = Less) keep) < MAX_SIZE) \<and>
    (\<forall>updated revoked xs'. approve_and_revoke_with lib ys ms m xs = (Inr (updated, revoked), xs') \<longrightarrow>
      map_of xs' cur = Some m \<and> length xs' = min MAX_SIZE (length keep) \<and> set xs' \<subseteq> set keep \<and>
      bt_sorted (version_cmp lib) xs' \<and> set revoked = set now - set xs' \<and> updated = (xs' \<noteq> xs) \<and>
      (\<forall>e \<in> set xs'. \<forall>e' \<in> set revoked. fst e' \<in> yanked lib ys \<or> version_cmp lib (fst e') (fst e) = Less))"
proof -
  have vo: "version_order lib" using order by (simp add: version_order_def)
  have srt: "bt_sorted (version_cmp lib) keep"
    unfolding keep_def now_def
    by (rule version_order.sorted_without [OF vo version_order.approved_now_sorted [OF vo sorted]])
  show ?thesis
  proof (rule conjI)
    show "is_ok (fst (approve_and_revoke_with lib ys ms m xs)) \<longleftrightarrow>
        map_of xs cur \<in> {None, Some m} \<and> cur \<notin> yanked lib ys \<and>
        (\<forall>e \<in> set now. fst e \<in> yanked lib ys \<longrightarrow> snd e \<in> set ms) \<and>
        length (filter (\<lambda>e. version_cmp lib cur (fst e) = Less) keep) < MAX_SIZE"
      unfolding keep_def now_def by (rule version_order.approve_ok_iff [OF vo sorted cur parse])
  next
    have "map_of xs' cur = Some m \<and> length xs' = min MAX_SIZE (length keep) \<and> set xs' \<subseteq> set keep \<and>
        bt_sorted (version_cmp lib) xs' \<and> set revoked = set now - set xs' \<and> updated = (xs' \<noteq> xs) \<and>
        (\<forall>e \<in> set xs'. \<forall>e' \<in> set revoked. fst e' \<in> yanked lib ys \<or> version_cmp lib (fst e') (fst e) = Less)"
      if ok: "approve_and_revoke_with lib ys ms m xs = (Inr (updated, revoked), xs')" for updated revoked xs'
    proof -
      from version_order.approve_result [OF vo sorted cur parse ok, folded now_def, folded keep_def]
      have xs': "xs' = drop (length keep - MAX_SIZE) keep" and rest: "map_of xs' cur = Some m"
        "updated = (xs' \<noteq> xs)" "set revoked = set now - set xs'"
        by blast+
      have "bt_sorted (version_cmp lib) xs'" using srt by (simp add: xs' bt_sorted_def sorted_wrt_drop)
      moreover have "fst e' \<in> yanked lib ys \<or> version_cmp lib (fst e') (fst e) = Less"
        if "e \<in> set xs'" "e' \<in> set revoked" for e e'
        using that version_order.newest_above [OF vo srt, of e "length keep - MAX_SIZE" e'] rest(3)
        by (auto simp: xs' keep_def without_def)
      moreover have "set xs' \<subseteq> set keep" by (auto simp: xs' dest: in_set_dropD)
      ultimately show ?thesis using rest by (auto simp: xs')
    qed
    then show "\<forall>updated revoked xs'. approve_and_revoke_with lib ys ms m xs = (Inr (updated, revoked), xs') \<longrightarrow>
        map_of xs' cur = Some m \<and> length xs' = min MAX_SIZE (length keep) \<and> set xs' \<subseteq> set keep \<and>
        bt_sorted (version_cmp lib) xs' \<and> set revoked = set now - set xs' \<and> updated = (xs' \<noteq> xs) \<and>
        (\<forall>e \<in> set xs'. \<forall>e' \<in> set revoked. fst e' \<in> yanked lib ys \<or> version_cmp lib (fst e') (fst e) = Less)"
      by blast
  qed
qed

text \<open>Versions as numbers, written in unary.\<close>

definition unary_versions :: "string \<Rightarrow> nat semver_lib" where
  "unary_versions cur = \<lparr>version_cmp = cmp_lin, version_parse = (\<lambda>s. Some (length s)), SEMVER_VERSION = cur\<rparr>"

interpretation unary: version_order "unary_versions cur"
  using total_cmp_lin by (simp add: version_order_def unary_versions_def)

lemma unary_run:
  "approve_and_revoke_with (unary_versions ''.....'') [''..''] [MOCK_SIGNER] MOCK_ENCLAVE
      [(1, MOCK_ENCLAVE), (2, MOCK_SIGNER), (3, MOCK_ENCLAVE), (4, MOCK_ENCLAVE)] =
    (Inr (True, [(2, MOCK_SIGNER), (1, MOCK_ENCLAVE)]), [(3, MOCK_ENCLAVE), (4, MOCK_ENCLAVE), (5, MOCK_ENCLAVE)])"
  by (simp add: approve_and_revoke_with_def unary_versions_def bt_remove_def MAX_SIZE_def cmp_lin_def Let_def)

theorem approve_and_revoke_correct_witness:
  "approve_and_revoke_with (unary_versions ''.....'') [''..''] [MOCK_SIGNER] MOCK_ENCLAVE
      [(1, MOCK_ENCLAVE), (2, MOCK_SIGNER), (3, MOCK_ENCLAVE), (4, MOCK_ENCLAVE)] =
    (Inr (True, [(2, MOCK_SIGNER), (1, MOCK_ENCLAVE)]), [(3, MOCK_ENCLAVE), (4, MOCK_ENCLAVE), (5, MOCK_ENCLAVE)]) \<and>
   set [(2, MOCK_SIGNER), (1, MOCK_ENCLAVE)] =
    set (approved_now (unary_versions ''.....'') 5 MOCK_ENCLAVE
      [(1, MOCK_ENCLAVE), (2, MOCK_SIGNER), (3, MOCK_ENCLAVE), (4, MOCK_ENCLAVE)]) -
    set [(3, MOCK_ENCLAVE), (4, MOCK_ENCLAVE), (5, MOCK_ENCLAVE)]"
proof -
  let ?xs = "[(1, MOCK_ENCLAVE), (2, MOCK_SIGNER), (3, MOCK_ENCLAVE), (4, MOCK_ENCLAVE)]"
  have order: "total_cmp (version_cmp (unary_versions ''.....''))" by (simp add: unary_versions_def total_cmp_lin)
  have sorted: "bt_sorted (version_cmp (unary_versions ''.....'')) ?xs"
    by (simp add: unary_versions_def bt_sorted_def)
  have cur: "version_parse (unary_versions ''.....'') (SEMVER_VERSION (unary_versions ''.....'')) = Some 5"
    by (simp add: unary_versions_def)
  have parse: "\<forall>y \<in> set [''..'']. version_parse (unary_versions ''.....'') y \<noteq> None" by (simp add: unary_versions_def)
  note spec = approve_and_revoke_correct [where m = MOCK_ENCLAVE and ms = "[MOCK_SIGNER]", OF order sorted cur parse]
  from conjunct2 [OF spec, rule_format, OF unary_run] unary_run show ?thesis by blast
qed

end
