(* ===== verification/Gdrive.thy ===== *)
theory Gdrive
  imports Lexe_Prelude
begin

text \<open>
  The Google Drive client of \<^verbatim>\<open>gdrive/src/\<close>: the models (\<^verbatim>\<open>models.rs\<close>), the OAuth2 credentials
  (\<^verbatim>\<open>oauth2.rs\<close>) and the API bindings (\<^verbatim>\<open>api.rs\<close>).  HTTP (\<^verbatim>\<open>reqwest\<close>), the clock and the JSON parsers are
  the parameter \<open>net\<close>; a request is given by its parts before they are put on the wire.
\<close>

section \<open>Models\<close>

datatype GFileId = GFileId (gid_str: string)

record GFile =
  gf_id :: GFileId
  gf_name :: string
  gf_mime_type :: string

record GFileCow =
  gc_id :: "GFileId option"
  gc_name :: "string option"
  gc_parents :: "GFileId list option"
  gc_mime_type :: "string option"
  gc_folder_color_rgb :: "string option"

definition gfile_cow_default :: GFileCow where
  "gfile_cow_default =
     \<lparr>gc_id = None, gc_name = None, gc_parents = None, gc_mime_type = None, gc_folder_color_rgb = None\<rparr>"

record ListFiles =
  lf_q :: string
  lf_order_by :: "string option"
  lf_page_token :: "string option"

record ListFilesResponse =
  lr_files :: "GFile list"
  lr_next_page_token :: "string option"

record GDriveCredentials =
  client_id :: string
  client_secret :: string
  refresh_token :: string
  access_token :: string
  expires_at :: u64

datatype GError =
    TokenRefresh GError
  | TokenExpired
  | InsufficientScopes string
  | WrongAccessType string
  | WrongTokenType string
  | Api nat "bytes option"
  | ReqwestError

section \<open>HTTP\<close>

datatype HttpMethod = GET | POST | PATCH | DELETE

datatype HttpQuery = NoQuery | ListQuery ListFiles | Pairs "(string \<times> string) list"

datatype HttpHeader = ContentType string | ContentLength nat

record RefreshRequest =
  rr_grant_type :: string
  rr_client_id :: string
  rr_client_secret :: string
  rr_refresh_token :: string

record AuthCodeRequest =
  ac_client_id :: string
  ac_client_secret :: string
  ac_redirect_uri :: string
  ac_code :: string
  ac_grant_type :: string

text \<open>\<open>Multipart\<close> is the metadata part followed by the file part with its file name.\<close>

datatype HttpBody =
    NoBody
  | GFileBody GFileCow
  | Multipart GFileCow bytes string
  | RawBody bytes
  | RefreshBody RefreshRequest
  | AuthCodeBody AuthCodeRequest
  | TokenInfoBody string

record HttpRequest =
  rq_method :: HttpMethod
  rq_url :: string
  rq_query :: HttpQuery
  rq_headers :: "HttpHeader list"
  rq_body :: HttpBody
  rq_bearer :: "string option"

text \<open>The body is \<open>None\<close> when reading it fails.\<close>

record HttpResponse =
  rs_status :: nat
  rs_body :: "bytes option"

record RefreshResponse =
  rf_access_token :: string
  rf_expires_in :: u32
  rf_scope :: string
  rf_token_type :: string

record AuthCodeResponse = RefreshResponse +
  rf_refresh_token :: string

record TokenInfo =
  ti_scope :: string
  ti_expires_in :: u32
  ti_access_type :: string

record 'w gnet =
  http :: "HttpRequest \<Rightarrow> 'w \<Rightarrow> (unit + HttpResponse) \<times> 'w"
  unix_now :: "'w \<Rightarrow> u64"
  parse_gfile :: "bytes \<Rightarrow> GFile option"
  parse_list :: "bytes \<Rightarrow> ListFilesResponse option"
  parse_refresh :: "bytes \<Rightarrow> RefreshResponse option"
  parse_auth_code :: "bytes \<Rightarrow> AuthCodeResponse option"
  parse_token_info :: "bytes \<Rightarrow> TokenInfo option"

definition is_success :: "nat \<Rightarrow> bool" where
  "is_success code \<longleftrightarrow> 200 \<le> code \<and> code < 300"

definition json_of :: "(bytes \<Rightarrow> 'a option) \<Rightarrow> HttpResponse \<Rightarrow> GError + 'a" where
  "json_of parse resp = ok_or ReqwestError (Option.bind (rs_body resp) parse)"

section \<open>OAuth2\<close>

definition ACCESS_TYPE :: string where "ACCESS_TYPE = ''offline''"
definition TOKEN_TYPE :: string where "TOKEN_TYPE = ''Bearer''"
definition MINIMUM_TOKEN_LIFETIME :: u64 where "MINIMUM_TOKEN_LIFETIME = 60"
definition API_SCOPE :: string where "API_SCOPE = ''https://www.googleapis.com/auth/drive.file''"
definition TOKEN_URL :: string where "TOKEN_URL = ''https://oauth2.googleapis.com/token''"
definition TOKENINFO_URL :: string where "TOKENINFO_URL = ''https://www.googleapis.com/oauth2/v3/tokeninfo''"

definition verify_response_scope :: "string \<Rightarrow> GError + unit" where
  "verify_response_scope scope =
     (if list_ex (\<lambda>s. s = API_SCOPE) (split_char (CHR '' '') scope) then Inr () else Inl (InsufficientScopes scope))"

definition post_json :: "string \<Rightarrow> HttpBody \<Rightarrow> HttpRequest" where
  "post_json url body =
     \<lparr>rq_method = POST, rq_url = url, rq_query = NoQuery, rq_headers = [], rq_body = body, rq_bearer = None\<rparr>"

definition http_call :: "'w gnet \<Rightarrow> HttpRequest \<Rightarrow> 'w \<Rightarrow> (GError + HttpResponse) \<times> 'w" where
  "http_call net rq = call_err (\<lambda>_. ReqwestError) (http net rq)"

definition auth_code_for_token ::
    "'w gnet \<Rightarrow> string \<Rightarrow> string \<Rightarrow> string \<Rightarrow> string \<Rightarrow> 'w \<Rightarrow> (GError + GDriveCredentials) \<times> 'w" where
  "auth_code_for_token net cid secret redirect_uri code =
     (let request = \<lparr>ac_client_id = cid, ac_client_secret = secret, ac_redirect_uri = redirect_uri, ac_code = code,
        ac_grant_type = ''authorization_code''\<rparr>
      in call_then (http_call net (post_json TOKEN_URL (AuthCodeBody request))) (\<lambda>http_resp.
         call_then (call_pure (if is_success (rs_status http_resp) then json_of (parse_auth_code net) http_resp
           else Inl (Api (rs_status http_resp) (rs_body http_resp)))) (\<lambda>r.
         if rf_token_type r \<noteq> TOKEN_TYPE then call_pure (Inl (WrongTokenType (rf_token_type r)))
         else
           call_then (call_pure (verify_response_scope (rf_scope r))) (\<lambda>_ w.
             (Inr \<lparr>client_id = cid, client_secret = secret, refresh_token = rf_refresh_token r,
                access_token = rf_access_token r, expires_at = unix_now net w + ucast (rf_expires_in r)\<rparr>, w)))))"

definition check_token_info ::
    "'w gnet \<Rightarrow> GDriveCredentials \<Rightarrow> 'w \<Rightarrow> (GError + bool \<times> GDriveCredentials) \<times> 'w" where
  "check_token_info net credentials =
     call_then (http_call net (post_json TOKENINFO_URL (TokenInfoBody (access_token credentials)))) (\<lambda>http_resp.
     call_then (call_pure (if rs_status http_resp = 200 then json_of (parse_token_info net) http_resp
       else if rs_status http_resp = 400 then Inl TokenExpired
       else Inl (Api (rs_status http_resp) (rs_body http_resp)))) (\<lambda>info.
     if ti_access_type info \<noteq> ACCESS_TYPE then call_pure (Inl (WrongAccessType (ti_access_type info)))
     else
       call_then (call_pure (verify_response_scope (ti_scope info))) (\<lambda>_ w.
         let expires = unix_now net w + ucast (ti_expires_in info)
         in if expires_at credentials \<noteq> expires
            then (Inr (True, credentials\<lparr>expires_at := expires\<rparr>), w)
            else (Inr (False, credentials), w))))"

definition refresh :: "'w gnet \<Rightarrow> GDriveCredentials \<Rightarrow> u64 \<Rightarrow> 'w \<Rightarrow> (GError + GDriveCredentials) \<times> 'w" where
  "refresh net credentials now =
     (let req = \<lparr>rr_grant_type = ''refresh_token'', rr_client_id = client_id credentials,
        rr_client_secret = client_secret credentials, rr_refresh_token = refresh_token credentials\<rparr>
      in call_then (http_call net (post_json TOKEN_URL (RefreshBody req))) (\<lambda>http_resp.
         call_then (call_pure (if rs_status http_resp = 200 then json_of (parse_refresh net) http_resp
           else (case rs_body http_resp of
                   None \<Rightarrow> Inl ReqwestError
                 | Some resp_str \<Rightarrow> Inl (Api (rs_status http_resp) (Some resp_str))))) (\<lambda>r.
         if rf_token_type r \<noteq> TOKEN_TYPE then call_pure (Inl (WrongTokenType (rf_token_type r)))
         else
           call_then (call_pure (verify_response_scope (rf_scope r))) (\<lambda>_.
             call_pure (Inr (credentials\<lparr>access_token := rf_access_token r,
               expires_at := now + ucast (rf_expires_in r)\<rparr>))))))"

definition refresh_if_necessary ::
    "'w gnet \<Rightarrow> GDriveCredentials \<Rightarrow> 'w \<Rightarrow> (GError + bool \<times> GDriveCredentials) \<times> 'w" where
  "refresh_if_necessary net credentials w =
     (let now = unix_now net w
      in if now + MINIMUM_TOKEN_LIFETIME < expires_at credentials then (Inr (False, credentials), w)
         else call_then (refresh net credentials now) (\<lambda>c. call_pure (Inr (True, c))) w)"

section \<open>The client\<close>

text \<open>
  The network together with the client's own state: the locked credentials, and the credentials channel
  with its last value and whether the receiver has not seen it yet.
\<close>

record 'w gworld =
  gw_net :: 'w
  gw_credentials :: GDriveCredentials
  gw_watch :: GDriveCredentials
  gw_changed :: bool

definition client_new :: "GDriveCredentials \<Rightarrow> 'w \<Rightarrow> 'w gworld" where
  "client_new creds w = \<lparr>gw_net = w, gw_credentials = creds, gw_watch = creds, gw_changed = False\<rparr>"

definition send_no_deserialize ::
    "'w gnet \<Rightarrow> HttpRequest \<Rightarrow> 'w gworld \<Rightarrow> (GError + HttpResponse) \<times> 'w gworld" where
  "send_no_deserialize net rq g =
     (case refresh_if_necessary net (gw_credentials g) (gw_net g) of
        (Inl e, w) \<Rightarrow> (Inl (TokenRefresh e), g\<lparr>gw_net := w\<rparr>)
      | (Inr (updated, creds), w) \<Rightarrow>
          (let g = g\<lparr>gw_credentials := creds\<rparr>;
               g = (if updated
                    then g\<lparr>gw_watch := (gw_watch g)\<lparr>access_token := access_token creds, expires_at := expires_at creds\<rparr>,
                           gw_changed := True\<rparr>
                    else g)
           in case http net (rq\<lparr>rq_bearer := Some (access_token creds)\<rparr>) w of
                (Inl _, w) \<Rightarrow> (Inl ReqwestError, g\<lparr>gw_net := w\<rparr>)
              | (Inr resp, w) \<Rightarrow>
                  (if is_success (rs_status resp) then Inr resp else Inl (Api (rs_status resp) (rs_body resp)),
                   g\<lparr>gw_net := w\<rparr>)))"

definition send_and_deserialize ::
    "'w gnet \<Rightarrow> (bytes \<Rightarrow> 'a option) \<Rightarrow> HttpRequest \<Rightarrow> 'w gworld \<Rightarrow> (GError + 'a) \<times> 'w gworld" where
  "send_and_deserialize net parse rq =
     call_then (send_no_deserialize net rq) (\<lambda>resp. call_pure (json_of parse resp))"

definition BASE_URL :: string where "BASE_URL = ''https://www.googleapis.com/drive/v3''"
definition BASE_UPLOAD_URL :: string where "BASE_UPLOAD_URL = ''https://www.googleapis.com/upload/drive/v3''"
definition FOLDER_MIME_TYPE :: string where "FOLDER_MIME_TYPE = ''application/vnd.google-apps.folder''"
definition BINARY_MIME_TYPE :: string where "BINARY_MIME_TYPE = ''application/octet-stream''"

definition files_url :: string where "files_url = BASE_URL @ ''/files''"
definition file_url :: "GFileId \<Rightarrow> string" where "file_url gid = BASE_URL @ ''/files/'' @ gid_str gid"

definition list_files_request :: "ListFiles \<Rightarrow> HttpRequest" where
  "list_files_request data =
     \<lparr>rq_method = GET, rq_url = files_url, rq_query = ListQuery data, rq_headers = [], rq_body = NoBody, rq_bearer = None\<rparr>"

definition list_files :: "'w gnet \<Rightarrow> ListFiles \<Rightarrow> 'w gworld \<Rightarrow> (GError + ListFilesResponse) \<times> 'w gworld" where
  "list_files net data = send_and_deserialize net (parse_list net) (list_files_request data)"

definition create_empty_file :: "'w gnet \<Rightarrow> GFileCow \<Rightarrow> 'w gworld \<Rightarrow> (GError + GFile) \<times> 'w gworld" where
  "create_empty_file net data = send_and_deserialize net (parse_gfile net) (post_json files_url (GFileBody data))"

definition create_blob_request :: "GFileId \<Rightarrow> string \<Rightarrow> bytes \<Rightarrow> HttpRequest" where
  "create_blob_request parent_id name data =
     (let metadata = gfile_cow_default\<lparr>gc_id := None, gc_name := Some name, gc_parents := Some [parent_id],
            gc_mime_type := Some BINARY_MIME_TYPE\<rparr>
      in \<lparr>rq_method = POST, rq_url = BASE_UPLOAD_URL @ ''/files'', rq_query = Pairs [(''uploadType'', ''multipart'')],
          rq_headers = [], rq_body = Multipart metadata data name, rq_bearer = None\<rparr>)"

definition create_blob_file ::
    "'w gnet \<Rightarrow> GFileId \<Rightarrow> string \<Rightarrow> bytes \<Rightarrow> 'w gworld \<Rightarrow> (GError + GFile) \<times> 'w gworld" where
  "create_blob_file net parent_id name data =
     send_and_deserialize net (parse_gfile net) (create_blob_request parent_id name data)"

definition update_blob_request :: "GFileId \<Rightarrow> bytes \<Rightarrow> HttpRequest" where
  "update_blob_request gid data =
     \<lparr>rq_method = PATCH, rq_url = BASE_UPLOAD_URL @ ''/files/'' @ gid_str gid,
      rq_query = Pairs [(''uploadType'', ''media'')],
      rq_headers = [ContentType BINARY_MIME_TYPE, ContentLength (length data)], rq_body = RawBody data, rq_bearer = None\<rparr>"

definition update_blob_file ::
    "'w gnet \<Rightarrow> GFileId \<Rightarrow> bytes \<Rightarrow> 'w gworld \<Rightarrow> (GError + GFile) \<times> 'w gworld" where
  "update_blob_file net gid data = send_and_deserialize net (parse_gfile net) (update_blob_request gid data)"

definition download_request :: "GFileId \<Rightarrow> HttpRequest" where
  "download_request gid =
     \<lparr>rq_method = GET, rq_url = file_url gid, rq_query = Pairs [(''alt'', ''media'')], rq_headers = [], rq_body = NoBody,
      rq_bearer = None\<rparr>"

definition download_blob_file :: "'w gnet \<Rightarrow> GFileId \<Rightarrow> 'w gworld \<Rightarrow> (GError + bytes) \<times> 'w gworld" where
  "download_blob_file net gid =
     call_then (send_no_deserialize net (download_request gid)) (\<lambda>resp.
       call_pure (ok_or ReqwestError (rs_body resp)))"

definition delete_request :: "GFileId \<Rightarrow> HttpRequest" where
  "delete_request gid =
     \<lparr>rq_method = DELETE, rq_url = file_url gid, rq_query = NoQuery, rq_headers = [], rq_body = NoBody, rq_bearer = None\<rparr>"

definition gdrive_delete_file :: "'w gnet \<Rightarrow> GFileId \<Rightarrow> 'w gworld \<Rightarrow> (GError + unit) \<times> 'w gworld" where
  "gdrive_delete_file net gid =
     call_then (send_no_deserialize net (delete_request gid)) (\<lambda>_. call_pure (Inr ()))"

text \<open>The six bindings, which is all the higher layers use of the client.\<close>

record 's gclient =
  c_list_files :: "ListFiles \<Rightarrow> 's \<Rightarrow> (GError + ListFilesResponse) \<times> 's"
  c_create_empty_file :: "GFileCow \<Rightarrow> 's \<Rightarrow> (GError + GFile) \<times> 's"
  c_create_blob_file :: "GFileId \<Rightarrow> string \<Rightarrow> bytes \<Rightarrow> 's \<Rightarrow> (GError + GFile) \<times> 's"
  c_update_blob_file :: "GFileId \<Rightarrow> bytes \<Rightarrow> 's \<Rightarrow> (GError + GFile) \<times> 's"
  c_download_blob_file :: "GFileId \<Rightarrow> 's \<Rightarrow> (GError + bytes) \<times> 's"
  c_delete_file :: "GFileId \<Rightarrow> 's \<Rightarrow> (GError + unit) \<times> 's"

definition gdrive_client :: "'w gnet \<Rightarrow> 'w gworld gclient" where
  "gdrive_client net =
     \<lparr>c_list_files = list_files net, c_create_empty_file = create_empty_file net,
      c_create_blob_file = create_blob_file net, c_update_blob_file = update_blob_file net,
      c_download_blob_file = download_blob_file net, c_delete_file = gdrive_delete_file net\<rparr>"

end
