(* ===== verification/Vfs.thy ===== *)
theory Vfs
  imports BTree_Map Aes Hex
begin

text \<open>
  Files of the virtual file system (\<^verbatim>\<open>common/src/api/vfs.rs\<close>) and their encryption
  (\<^verbatim>\<open>lexe-ln/src/persister.rs\<close>).  Serialization of the contents (\<^verbatim>\<open>serde_json\<close>, LDK's \<^verbatim>\<open>Writeable\<close>) is a
  parameter.
\<close>

section \<open>Files\<close>

datatype VfsDirectory = VfsDirectory (dirname: string)

record VfsFileId =
  fid_dir :: VfsDirectory
  fid_filename :: string

record VfsFile =
  vf_id :: VfsFileId
  vf_data :: bytes

definition file_id_new :: "string \<Rightarrow> string \<Rightarrow> VfsFileId" where
  "file_id_new d f = \<lparr>fid_dir = VfsDirectory d, fid_filename = f\<rparr>"

definition file_new :: "string \<Rightarrow> string \<Rightarrow> bytes \<Rightarrow> VfsFile" where
  "file_new d f data = \<lparr>vf_id = file_id_new d f, vf_data = data\<rparr>"

definition file_id_display :: "VfsFileId \<Rightarrow> string" where
  "file_id_display i = dirname (fid_dir i) @ ''/'' @ fid_filename i"

definition SINGLETON_DIRECTORY :: string where "SINGLETON_DIRECTORY = ''.''"

text \<open>The derived order: the directory first, then the file name.\<close>

definition file_id_cmp :: "VfsFileId \<Rightarrow> VfsFileId \<Rightarrow> ordering" where
  "file_id_cmp a b =
     then_cmp (cmp_str (dirname (fid_dir a)) (dirname (fid_dir b))) (cmp_str (fid_filename a) (fid_filename b))"

interpretation file_ids: total_cmp file_id_cmp
proof -
  have pair: "total_cmp (\<lambda>x y. then_cmp (cmp_str (fst x) (fst y)) (cmp_str (snd x) (snd y)))"
    by (intro total_cmp_pair total_cmp_list total_cmp_char)
  have "inj (\<lambda>i :: VfsFileId. (dirname (fid_dir i), fid_filename i))"
    by (rule injI) (auto intro!: VfsFileId.equality VfsDirectory.expand)
  from total_cmp_inj [OF pair this] show "total_cmp file_id_cmp" by (simp add: file_id_cmp_def [abs_def])
qed

section \<open>Encryption\<close>

datatype FileError = DirnameMismatch | FilenameMismatch | FileDecrypt | FileJson

text \<open>\<open>None\<close> is a panic: the contents do not serialize, or are too long for the cipher.\<close>

definition encrypt_file ::
    "aead_lib \<Rightarrow> bytes \<Rightarrow> AesMasterKey \<Rightarrow> VfsFileId \<Rightarrow> (bytes \<Rightarrow> bytes) \<Rightarrow> VfsFile option" where
  "encrypt_file lib key_id vfs_master_key file_id write_data_cb =
     (let aad = [as_bytes (dirname (fid_dir file_id)), as_bytes (fid_filename file_id)]
      in map_option (\<lambda>data. \<lparr>vf_id = file_id, vf_data = data\<rparr>)
           (aes_encrypt lib vfs_master_key key_id aad write_data_cb))"

text \<open>\<^verbatim>\<open>encrypt_json\<close> and \<^verbatim>\<open>encrypt_ldk_writeable\<close>, by how the value is serialized.\<close>

definition encrypt_value ::
    "aead_lib \<Rightarrow> ('a \<Rightarrow> bytes option) \<Rightarrow> bytes \<Rightarrow> AesMasterKey \<Rightarrow> VfsFileId \<Rightarrow> 'a \<Rightarrow> VfsFile option" where
  "encrypt_value lib ser key_id vfs_master_key file_id v =
     Option.bind (ser v) (\<lambda>bs. encrypt_file lib key_id vfs_master_key file_id (\<lambda>mut_vec_u8. mut_vec_u8 @ bs))"

definition decrypt_file ::
    "aead_lib \<Rightarrow> AesMasterKey \<Rightarrow> VfsFileId \<Rightarrow> VfsFile \<Rightarrow> FileError + bytes" where
  "decrypt_file lib vfs_master_key expected_file_id returned_file =
     ensure (fid_dir (vf_id returned_file) = fid_dir expected_file_id) DirnameMismatch (
     ensure (fid_filename (vf_id returned_file) = fid_filename expected_file_id) FilenameMismatch (
       let aad = [as_bytes (dirname (fid_dir expected_file_id)), as_bytes (fid_filename expected_file_id)]
       in map_err (\<lambda>_. FileDecrypt) (aes_decrypt lib vfs_master_key aad (vf_data returned_file))))"

definition decrypt_json_file ::
    "aead_lib \<Rightarrow> (bytes \<Rightarrow> 'a option) \<Rightarrow> AesMasterKey \<Rightarrow> VfsFileId \<Rightarrow> VfsFile \<Rightarrow> FileError + 'a" where
  "decrypt_json_file lib des vfs_master_key expected_file_id returned_file =
     and_then (decrypt_file lib vfs_master_key expected_file_id returned_file) (\<lambda>json_bytes.
       ok_or FileJson (des json_bytes))"

text \<open>What the contents codecs promise.\<close>

locale contents_codec =
  fixes ser :: "'a \<Rightarrow> bytes option" and des :: "bytes \<Rightarrow> 'a option"
  assumes des_ser: "ser v = Some bs \<Longrightarrow> des bs = Some v"
begin

lemma decrypt_encrypted:
  assumes "aead_laws lib" and "length key_id = 32" and "encrypt_value lib ser key_id mk i v = Some f"
  shows "vf_id f = i \<and> decrypt_json_file lib des mk i f = Inr v"
proof -
  obtain bs d where "ser v = Some bs"
    and enc: "aes_encrypt lib mk key_id [as_bytes (dirname (fid_dir i)), as_bytes (fid_filename i)] (\<lambda>v. v @ bs) = Some d"
    and "f = \<lparr>vf_id = i, vf_data = d\<rparr>"
    using assms(3) by (auto simp: encrypt_value_def encrypt_file_def bind_eq_Some_conv)
  with aes_decrypt_encrypted [OF assms(1,2) enc] des_ser show ?thesis
    by (simp add: decrypt_json_file_def decrypt_file_def)
qed

end

lemma encrypt_value_total:
  assumes "aead_laws lib" and "length key_id = 32" and "ser v = Some bs" and "length bs \<le> aead_max_plaintext lib"
  shows "\<exists>f. encrypt_value lib ser key_id mk i v = Some f"
  using aes_encrypt_decrypt [OF assms(1,2,4), of mk "[as_bytes (dirname (fid_dir i)), as_bytes (fid_filename i)]"] assms(3)
  by (auto simp: encrypt_value_def encrypt_file_def)

end
