(* ===== verification/Gvfs.thy ===== *)
theory Gvfs
  imports Gdrive Vfs Payment_Uri
begin

text \<open>
  The virtual file system on Google Drive: file names (\<^verbatim>\<open>gdrive/src/gvfs_file_id.rs\<close>), finding and creating
  the directories (\<^verbatim>\<open>gdrive/src/lexe_dir.rs\<close> and the helpers of \<^verbatim>\<open>gdrive/src/api.rs\<close>) and the file operations
  with their cache (\<^verbatim>\<open>gdrive/src/gvfs.rs\<close>).  Every operation holds the cache's lock from its first read to its
  last write, so operations are atomic steps on the cache and the client's state.
\<close>

section \<open>Calls that may not return\<close>

text \<open>\<open>None\<close> is a call that never returns: following the pages of a listing may go on for ever.\<close>

definition run_then ::
    "('s \<Rightarrow> (('e + 'a) \<times> 's) option) \<Rightarrow> ('a \<Rightarrow> 's \<Rightarrow> (('e + 'b) \<times> 's) option) \<Rightarrow> 's \<Rightarrow> (('e + 'b) \<times> 's) option" where
  "run_then c k s =
     (case c s of
        None \<Rightarrow> None
      | Some (Inl e, s') \<Rightarrow> Some (Inl e, s')
      | Some (Inr x, s') \<Rightarrow> k x s')"

definition run_call :: "('s \<Rightarrow> ('e + 'a) \<times> 's) \<Rightarrow> 's \<Rightarrow> (('e + 'a) \<times> 's) option" where
  "run_call c s = Some (c s)"

section \<open>File names\<close>

datatype GvfsFileId = GvfsFileId (gvfile_str: string)

datatype GvfsError =
    GApi GError
  | NoSlash
  | ManySlashes
  | EmptyDirname
  | EmptyFilename
  | MultipleChildren
  | NetworkMismatch
  | WrongMimeType
  | CreateDupe
  | FileNotFound
  | RootNotListable
  | GvfsPanic

definition gvfile_validate :: "string \<Rightarrow> GvfsError + unit" where
  "gvfile_validate s =
     (case split_char (CHR ''/'') s of
        [d, f] \<Rightarrow> ensure (d \<noteq> []) EmptyDirname (ensure (f \<noteq> []) EmptyFilename (Inr ()))
      | d # f # _ # _ \<Rightarrow> Inl ManySlashes
      | _ \<Rightarrow> Inl NoSlash)"

definition gvfile_from_str :: "string \<Rightarrow> GvfsError + GvfsFileId" where
  "gvfile_from_str s = and_then (gvfile_validate s) (\<lambda>_. Inr (GvfsFileId s))"

definition gvfile_try_from :: "VfsFileId \<Rightarrow> GvfsError + GvfsFileId" where
  "gvfile_try_from vfile_id =
     (let inner = dirname (fid_dir vfile_id) @ ''/'' @ fid_filename vfile_id
      in and_then (gvfile_validate inner) (\<lambda>_. Inr (GvfsFileId inner)))"

text \<open>\<open>None\<close> is the violated invariant of \<^verbatim>\<open>as_parts\<close>.\<close>

definition as_parts :: "GvfsFileId \<Rightarrow> (string \<times> string) option" where
  "as_parts g = split_once (CHR ''/'') (gvfile_str g)"

definition to_vfile_id :: "GvfsFileId \<Rightarrow> VfsFileId option" where
  "to_vfile_id g = map_option (\<lambda>(d, f). file_id_new d f) (as_parts g)"

section \<open>Directories\<close>

definition api_call :: "('s \<Rightarrow> (GError + 'a) \<times> 's) \<Rightarrow> 's \<Rightarrow> (GvfsError + 'a) \<times> 's" where
  "api_call = call_err GApi"

definition search_query :: "GFileId \<Rightarrow> string \<Rightarrow> string" where
  "search_query parent_id child_name =
     ''name = '' @ [CHR 39] @ child_name @ [CHR 39] @ '' and '' @ [CHR 39] @ gid_str parent_id @ [CHR 39] @
     '' in parents and trashed = false''"

definition children_query :: "GFileId \<Rightarrow> string" where
  "children_query parent_id = [CHR 39] @ gid_str parent_id @ [CHR 39] @ '' in parents and trashed = false''"

definition lexe_dir_query :: string where
  "lexe_dir_query =
     ''name contains '' @ [CHR 39] @ ''LexeData'' @ [CHR 39] @ '' and mimeType = '' @ [CHR 39] @
     ''application/vnd.google-apps.folder'' @ [CHR 39] @ ''and trashed = false''"

definition search_direct_children ::
    "'s gclient \<Rightarrow> GFileId \<Rightarrow> string \<Rightarrow> 's \<Rightarrow> (GvfsError + GFile option) \<times> 's" where
  "search_direct_children cl parent_id child_name =
     (let data = \<lparr>lf_q = search_query parent_id child_name, lf_order_by = None, lf_page_token = None\<rparr>
      in call_then (api_call (c_list_files cl data)) (\<lambda>resp.
           call_pure (ensure (length (lr_files resp) \<le> 1) MultipleChildren
             (Inr (if lr_files resp = [] then None else Some (last (lr_files resp)))))))"

partial_function (option) list_pages ::
    "'s gclient \<Rightarrow> ListFiles \<Rightarrow> ListFilesResponse \<Rightarrow> GFile list \<Rightarrow> 's \<Rightarrow> ((GvfsError + GFile list) \<times> 's) option" where
  "list_pages cl data resp all_gfiles s =
     (case lr_next_page_token resp of
        None \<Rightarrow> Some (Inr all_gfiles, s)
      | Some token \<Rightarrow>
          (let data = data\<lparr>lf_page_token := Some token\<rparr>
           in case api_call (c_list_files cl data) s of
                (Inl e, s) \<Rightarrow> Some (Inl e, s)
              | (Inr resp, s) \<Rightarrow> list_pages cl data resp (all_gfiles @ lr_files resp) s))"

declare list_pages.simps [code]

definition list_direct_children ::
    "'s gclient \<Rightarrow> GFileId \<Rightarrow> 's \<Rightarrow> ((GvfsError + GFile list) \<times> 's) option" where
  "list_direct_children cl parent_id =
     (let data = \<lparr>lf_q = children_query parent_id, lf_order_by = Some ''name'', lf_page_token = None\<rparr>
      in run_then (run_call (api_call (c_list_files cl data))) (\<lambda>resp.
           list_pages cl data resp (lr_files resp)))"

definition create_child_dir ::
    "'s gclient \<Rightarrow> GFileId \<Rightarrow> string \<Rightarrow> 's \<Rightarrow> (GvfsError + GFileId) \<times> 's" where
  "create_child_dir cl parent_id child_name =
     (let data = gfile_cow_default\<lparr>gc_id := None, gc_name := Some child_name, gc_parents := Some [parent_id],
            gc_mime_type := Some FOLDER_MIME_TYPE\<rparr>
      in call_then (api_call (c_create_empty_file cl data)) (\<lambda>file. call_pure (Inr (gf_id file))))"

definition LEXE_DIR_NAME :: string where
  "LEXE_DIR_NAME = ''X LexeData (DO NOT RENAME, MODIFY, OR DELETE)''"

definition contains_str :: "string \<Rightarrow> string \<Rightarrow> bool" where
  "contains_str pat s \<longleftrightarrow> list_ex (\<lambda>i. starts_with pat (drop i s)) [0..<Suc (length s)]"

definition find_exact :: "ListFilesResponse \<Rightarrow> GFile option" where
  "find_exact resp = find (\<lambda>file. contains_str ''LexeData'' (gf_name file)) (lr_files resp)"

text \<open>The loop over at most \<open>left\<close> more pages.\<close>

fun find_lexe_loop ::
    "'s gclient \<Rightarrow> ListFiles \<Rightarrow> nat \<Rightarrow> ListFilesResponse \<Rightarrow> GFile option \<Rightarrow> 's \<Rightarrow>
     (GvfsError + GFile option) \<times> 's" where
  "find_lexe_loop cl data 0 resp maybe_file s = (Inr maybe_file, s)"
| "find_lexe_loop cl data (Suc left) resp maybe_file s =
     (if maybe_file = None \<and> lr_next_page_token resp \<noteq> None
      then (let data = data\<lparr>lf_page_token := lr_next_page_token resp\<rparr>
            in call_then (api_call (c_list_files cl data)) (\<lambda>resp.
                 find_lexe_loop cl data left resp (find_exact resp)) s)
      else (Inr maybe_file, s))"

definition find_lexe_dir :: "'s gclient \<Rightarrow> 's \<Rightarrow> (GvfsError + GFile option) \<times> 's" where
  "find_lexe_dir cl =
     (let data = \<lparr>lf_q = lexe_dir_query, lf_order_by = Some ''createdTime'', lf_page_token = None\<rparr>
      in call_then (api_call (c_list_files cl data)) (\<lambda>resp.
           find_lexe_loop cl data 10 resp (find_exact resp)))"

definition create_lexe_dir :: "'s gclient \<Rightarrow> 's \<Rightarrow> (GvfsError + GFile) \<times> 's" where
  "create_lexe_dir cl =
     (let data = \<lparr>gc_id = None, gc_name = Some LEXE_DIR_NAME, gc_parents = None, gc_mime_type = Some FOLDER_MIME_TYPE,
            gc_folder_color_rgb = Some ''#FF5733''\<rparr>
      in api_call (c_create_empty_file cl data))"

definition get_or_create_lexe_dir :: "'s gclient \<Rightarrow> 's \<Rightarrow> (GvfsError + GFile) \<times> 's" where
  "get_or_create_lexe_dir cl =
     call_then (find_lexe_dir cl) (\<lambda>maybe_dir.
       case maybe_dir of Some dir \<Rightarrow> call_pure (Inr dir) | None \<Rightarrow> create_lexe_dir cl)"

record GvfsRoot =
  root_network :: Network
  root_gid :: GFileId

definition get_gvfs_root_gid :: "'s gclient \<Rightarrow> GFileId \<Rightarrow> string \<Rightarrow> 's \<Rightarrow> (GvfsError + GFileId option) \<times> 's" where
  "get_gvfs_root_gid cl lexe_dir network_str =
     call_then (search_direct_children cl lexe_dir network_str) (\<lambda>maybe_file.
       call_pure (Inr (map_option gf_id maybe_file)))"

definition get_or_create_gvfs_root ::
    "'s gclient \<Rightarrow> GFileId \<Rightarrow> Network \<Rightarrow> 's \<Rightarrow> (GvfsError + GvfsRoot) \<times> 's" where
  "get_or_create_gvfs_root cl lexe_dir network =
     call_then (get_gvfs_root_gid cl lexe_dir (network_to_str network)) (\<lambda>maybe_gid.
     call_then (case maybe_gid of
         Some gid \<Rightarrow> call_pure (Inr gid)
       | None \<Rightarrow> create_child_dir cl lexe_dir (network_to_str network)) (\<lambda>gvfs_root_gid.
       call_pure (Inr \<lparr>root_network = network, root_gid = gvfs_root_gid\<rparr>)))"

section \<open>GoogleVfs\<close>

record GoogleVfs =
  gvfs_root :: GvfsRoot
  gid_cache :: "(VfsFileId \<times> GFileId) list"

definition cache_entry :: "GFile \<Rightarrow> GvfsError + VfsFileId \<times> GFileId" where
  "cache_entry gfile =
     and_then (gvfile_from_str (gf_name gfile)) (\<lambda>gvfile_id.
     and_then (ok_or GvfsPanic (to_vfile_id gvfile_id)) (\<lambda>vfile_id.
       Inr (vfile_id, gf_id gfile)))"

definition build_cache :: "GFile list \<Rightarrow> GvfsError + (VfsFileId \<times> GFileId) list" where
  "build_cache all_gfiles =
     map_ok (\<lambda>entries. fold (\<lambda>(i, gid). bt_insert file_id_cmp i gid) entries [])
       (collect_results (map cache_entry all_gfiles))"

definition find_or_create_root :: "'s gclient \<Rightarrow> Network \<Rightarrow> 's \<Rightarrow> (GvfsError + GvfsRoot) \<times> 's" where
  "find_or_create_root cl network =
     call_then (get_or_create_lexe_dir cl) (\<lambda>dir. get_or_create_gvfs_root cl (gf_id dir) network)"

text \<open>The listing's error is kept until the root has been checked.\<close>

definition init_from_client ::
    "'s gclient \<Rightarrow> Network \<Rightarrow> GvfsRoot option \<Rightarrow> 's \<Rightarrow> ((GvfsError + GoogleVfs \<times> GvfsRoot option) \<times> 's) option" where
  "init_from_client cl network maybe_given_gvfs_root =
     (let using_given_root = maybe_given_gvfs_root \<noteq> None
      in run_then (run_call (case maybe_given_gvfs_root of
           Some given \<Rightarrow> call_pure (ensure (root_network given = network) NetworkMismatch (Inr given))
         | None \<Rightarrow> find_or_create_root cl network)) (\<lambda>root.
         \<lambda>s. Option.bind (list_direct_children cl (root_gid root) s) (\<lambda>(try_all_gfiles, s).
           let do_gvfs_search = (case try_all_gfiles of Inr files \<Rightarrow> files = [] | Inl _ \<Rightarrow> True)
           in run_then (if using_given_root \<and> do_gvfs_search
                then run_then (run_call (find_or_create_root cl network)) (\<lambda>found.
                  if root \<noteq> found
                  then (\<lambda>s. Option.bind (list_direct_children cl (root_gid found) s) (\<lambda>(try_all_gfiles, s).
                    Some (Inr (found, True, try_all_gfiles), s)))
                  else run_call (call_pure (Inr (root, False, try_all_gfiles))))
                else run_call (call_pure (Inr (root, \<not> using_given_root, try_all_gfiles))))
              (\<lambda>(root, found_or_corrected, try_all_gfiles).
                run_call (call_pure (
                  and_then try_all_gfiles (\<lambda>all_gfiles.
                  ensure (list_all (\<lambda>gfile. gf_mime_type gfile = BINARY_MIME_TYPE) all_gfiles) WrongMimeType (
                  and_then (build_cache all_gfiles) (\<lambda>cache.
                    Inr (\<lparr>gvfs_root = root, gid_cache = cache\<rparr>,
                      if found_or_corrected then Some root else None))))))) s)))"

text \<open>A method's state is the file system and the state of its client.\<close>

definition file_exists :: "VfsFileId \<Rightarrow> GoogleVfs \<Rightarrow> bool" where
  "file_exists vfile_id g \<longleftrightarrow> bt_get file_id_cmp vfile_id (gid_cache g) \<noteq> None"

definition get_file ::
    "'s gclient \<Rightarrow> VfsFileId \<Rightarrow> GoogleVfs \<times> 's \<Rightarrow> (GvfsError + VfsFile option) \<times> GoogleVfs \<times> 's" where
  "get_file cl vfile_id st =
     (let (g, s) = st
      in case bt_get file_id_cmp vfile_id (gid_cache g) of
           None \<Rightarrow> (Inr None, g, s)
         | Some vfile_gid \<Rightarrow>
             (case api_call (c_download_blob_file cl vfile_gid) s of
                (Inl e, s) \<Rightarrow> (Inl e, g, s)
              | (Inr data, s) \<Rightarrow> (Inr (Some \<lparr>vf_id = vfile_id, vf_data = data\<rparr>), g, s)))"

text \<open>Uploading a new file and entering it in the cache.\<close>

definition upload_new ::
    "'s gclient \<Rightarrow> VfsFile \<Rightarrow> GoogleVfs \<times> 's \<Rightarrow> (GvfsError + unit) \<times> GoogleVfs \<times> 's" where
  "upload_new cl vfile st =
     (let (g, s) = st
      in case gvfile_try_from (vf_id vfile) of
           Inl e \<Rightarrow> (Inl e, g, s)
         | Inr gvfile_id \<Rightarrow>
             (case api_call (c_create_blob_file cl (root_gid (gvfs_root g)) (gvfile_str gvfile_id) (vf_data vfile)) s of
                (Inl e, s) \<Rightarrow> (Inl e, g, s)
              | (Inr gfile, s) \<Rightarrow>
                  (Inr (), g\<lparr>gid_cache := bt_insert file_id_cmp (vf_id vfile) (gf_id gfile) (gid_cache g)\<rparr>, s)))"

definition create_file ::
    "'s gclient \<Rightarrow> VfsFile \<Rightarrow> GoogleVfs \<times> 's \<Rightarrow> (GvfsError + unit) \<times> GoogleVfs \<times> 's" where
  "create_file cl vfile st =
     (if bt_get file_id_cmp (vf_id vfile) (gid_cache (fst st)) \<noteq> None then (Inl CreateDupe, st)
      else upload_new cl vfile st)"

definition upsert_file ::
    "'s gclient \<Rightarrow> VfsFile \<Rightarrow> GoogleVfs \<times> 's \<Rightarrow> (GvfsError + unit) \<times> GoogleVfs \<times> 's" where
  "upsert_file cl vfile st =
     (case bt_get file_id_cmp (vf_id vfile) (gid_cache (fst st)) of
        Some gid \<Rightarrow>
          (case api_call (c_update_blob_file cl gid (vf_data vfile)) (snd st) of
             (Inl e, s) \<Rightarrow> (Inl e, fst st, s)
           | (Inr _, s) \<Rightarrow> (Inr (), fst st, s))
      | None \<Rightarrow> upload_new cl vfile st)"

definition delete_file ::
    "'s gclient \<Rightarrow> VfsFileId \<Rightarrow> GoogleVfs \<times> 's \<Rightarrow> (GvfsError + unit) \<times> GoogleVfs \<times> 's" where
  "delete_file cl vfile_id st =
     (let (g, s) = st
      in case bt_get file_id_cmp vfile_id (gid_cache g) of
           None \<Rightarrow> (Inl FileNotFound, g, s)
         | Some gid \<Rightarrow>
             (case api_call (c_delete_file cl gid) s of
                (Inl e, s) \<Rightarrow> (Inl e, g, s)
              | (Inr _, s) \<Rightarrow> (Inr (), g\<lparr>gid_cache := bt_remove file_id_cmp vfile_id (gid_cache g)\<rparr>, s)))"

text \<open>Every download is made, also after one has failed.\<close>

fun download_all ::
    "'s gclient \<Rightarrow> (GFileId \<times> GvfsFileId) list \<Rightarrow> 's \<Rightarrow> (GvfsError + VfsFile) list \<times> 's" where
  "download_all cl [] s = ([], s)"
| "download_all cl ((gid, gvfile_id) # rest) s =
     (let (try_data, s) = api_call (c_download_blob_file cl gid) s;
          try_vfile = and_then try_data (\<lambda>data.
            and_then (ok_or GvfsPanic (to_vfile_id gvfile_id)) (\<lambda>vfile_id.
              Inr \<lparr>vf_id = vfile_id, vf_data = data\<rparr>));
          (try_rest, s) = download_all cl rest s
      in (try_vfile # try_rest, s))"

definition get_directory ::
    "'s gclient \<Rightarrow> VfsDirectory \<Rightarrow> GoogleVfs \<times> 's \<Rightarrow> (GvfsError + VfsFile list) \<times> GoogleVfs \<times> 's" where
  "get_directory cl vdir st =
     (let (g, s) = st
      in if dirname vdir = SINGLETON_DIRECTORY then (Inl RootNotListable, g, s)
         else
           (let lower_bound = file_id_new (dirname vdir) [];
                entries = takeWhile (\<lambda>(vfile_id, _). dirname (fid_dir vfile_id) = dirname vdir)
                  (bt_range_from file_id_cmp lower_bound (gid_cache g))
            in case collect_results (map (\<lambda>(vfile_id, gid). map_ok (\<lambda>gv. (gid, gv)) (gvfile_try_from vfile_id)) entries) of
                 Inl _ \<Rightarrow> (Inl GvfsPanic, g, s)
               | Inr subdir_gid_gvids \<Rightarrow>
                   (if subdir_gid_gvids = [] then (Inr [], g, s)
                    else
                      (let (tries, s) = download_all cl subdir_gid_gvids s
                       in (collect_results tries, g, s)))))"

end
