(* ===== verification/Gvfs_Proofs.thy ===== *)
theory Gvfs_Proofs
  imports Gvfs
begin

text \<open>
  The Google file system implements a map from file ids to contents.  What the proofs rely on of Google
  Drive is the locale \<open>drive_client\<close>, over an abstract view of the drive; its client lemmas give the cache
  invariant and the behaviour of every operation.
\<close>

section \<open>Names\<close>

definition id_ok :: "VfsFileId \<Rightarrow> bool" where
  "id_ok i \<longleftrightarrow> CHR ''/'' \<notin> set (dirname (fid_dir i)) \<and> CHR ''/'' \<notin> set (fid_filename i) \<and>
     dirname (fid_dir i) \<noteq> [] \<and> fid_filename i \<noteq> []"

lemma count_slash: "count_list s c = 0 \<longleftrightarrow> c \<notin> set s"
  by (induction s) auto

lemma gvfile_validate_ok_iff:
  "gvfile_validate s = Inr () \<longleftrightarrow>
    (\<exists>d f. s = d @ CHR ''/'' # f \<and> CHR ''/'' \<notin> set d \<and> CHR ''/'' \<notin> set f \<and> d \<noteq> [] \<and> f \<noteq> [])"
proof
  assume ok: "gvfile_validate s = Inr ()"
  then obtain d f where sp: "split_char (CHR ''/'') s = [d, f]" and ne: "d \<noteq> []" "f \<noteq> []"
    by (auto simp: gvfile_validate_def split: list.splits)
  note s = split_char_pair [OF sp]
  have "count_list s (CHR ''/'') = 1" using split_char_length [of "CHR ''/''" s] sp by simp
  then have "count_list d (CHR ''/'') = 0" using s by simp
  then have "CHR ''/'' \<notin> set d" by (simp add: count_slash)
  with s ne show "\<exists>d f. s = d @ CHR ''/'' # f \<and> CHR ''/'' \<notin> set d \<and> CHR ''/'' \<notin> set f \<and> d \<noteq> [] \<and> f \<noteq> []" by blast
next
  assume "\<exists>d f. s = d @ CHR ''/'' # f \<and> CHR ''/'' \<notin> set d \<and> CHR ''/'' \<notin> set f \<and> d \<noteq> [] \<and> f \<noteq> []"
  then show "gvfile_validate s = Inr ()"
    by (auto simp: gvfile_validate_def)
qed

lemma append_char_eq:
  assumes "c \<notin> set a" and "c \<notin> set a'"
  shows "a @ c # b = a' @ c # b' \<longleftrightarrow> a = a' \<and> b = b'"
  using assms
proof (induction a arbitrary: a')
  case Nil
  then show ?case by (cases a') auto
next
  case (Cons x a)
  then show ?case by (cases a') auto
qed

lemma gvfile_try_from_ok_iff:
  "gvfile_try_from i = Inr (GvfsFileId n) \<longleftrightarrow> id_ok i \<and> n = file_id_display i"
proof -
  have "gvfile_validate (dirname (fid_dir i) @ CHR ''/'' # fid_filename i) = Inr () \<longleftrightarrow> id_ok i"
  proof
    assume "id_ok i"
    then show "gvfile_validate (dirname (fid_dir i) @ CHR ''/'' # fid_filename i) = Inr ()"
      unfolding gvfile_validate_ok_iff id_ok_def by blast
  next
    let ?d = "dirname (fid_dir i)" and ?f = "fid_filename i"
    assume "gvfile_validate (?d @ CHR ''/'' # ?f) = Inr ()"
    then obtain d f where df: "?d @ CHR ''/'' # ?f = d @ CHR ''/'' # f" "CHR ''/'' \<notin> set d" "CHR ''/'' \<notin> set f"
      "d \<noteq> []" "f \<noteq> []"
      unfolding gvfile_validate_ok_iff by blast
    have "count_list (?d @ CHR ''/'' # ?f) (CHR ''/'') = 1"
      unfolding df(1) using df(2,3) by (simp add: count_slash)
    then have "CHR ''/'' \<notin> set ?d" by (simp add: count_slash)
    from append_char_eq [OF this df(2)] df show "id_ok i" by (auto simp: id_ok_def)
  qed
  then show ?thesis
    by (cases "gvfile_validate (dirname (fid_dir i) @ CHR ''/'' # fid_filename i)")
      (auto simp: gvfile_try_from_def file_id_display_def Let_def)
qed

lemma file_id_display_inj: "id_ok i \<Longrightarrow> id_ok j \<Longrightarrow> file_id_display i = file_id_display j \<longleftrightarrow> i = j"
  using append_char_eq [of "CHR ''/''" "dirname (fid_dir i)" "dirname (fid_dir j)" "fid_filename i" "fid_filename j"]
  by (auto simp: id_ok_def file_id_display_def intro!: VfsFileId.equality VfsDirectory.expand)

lemma to_vfile_id_display: "id_ok i \<Longrightarrow> to_vfile_id (GvfsFileId (file_id_display i)) = Some i"
  by (simp add: to_vfile_id_def as_parts_def file_id_display_def id_ok_def split_once_append file_id_new_def)

lemma gvfile_from_str_ok_iff: "gvfile_from_str s = Inr g \<longleftrightarrow> g = GvfsFileId s \<and> (\<exists>i. id_ok i \<and> s = file_id_display i)"
proof -
  have "gvfile_validate s = Inr () \<longleftrightarrow> (\<exists>i. id_ok i \<and> s = file_id_display i)"
  proof
    assume "gvfile_validate s = Inr ()"
    then obtain d f where "s = d @ CHR ''/'' # f" "CHR ''/'' \<notin> set d" "CHR ''/'' \<notin> set f" "d \<noteq> []" "f \<noteq> []"
      unfolding gvfile_validate_ok_iff by blast
    then show "\<exists>i. id_ok i \<and> s = file_id_display i"
      by (intro exI [of _ "file_id_new d f"]) (simp add: id_ok_def file_id_new_def file_id_display_def)
  next
    assume "\<exists>i. id_ok i \<and> s = file_id_display i"
    then show "gvfile_validate s = Inr ()"
      unfolding gvfile_validate_ok_iff id_ok_def file_id_display_def by force
  qed
  then show ?thesis by (cases "gvfile_validate s") (auto simp: gvfile_from_str_def)
qed

lemma cache_entry_ok_iff:
  "cache_entry gf = Inr (i, gid) \<longleftrightarrow> id_ok i \<and> gf_name gf = file_id_display i \<and> gid = gf_id gf"
proof
  assume "cache_entry gf = Inr (i, gid)"
  then obtain g where "gvfile_from_str (gf_name gf) = Inr g" "to_vfile_id g = Some i" "gid = gf_id gf"
    by (auto simp: cache_entry_def result_simps)
  then show "id_ok i \<and> gf_name gf = file_id_display i \<and> gid = gf_id gf"
    using to_vfile_id_display unfolding gvfile_from_str_ok_iff by fastforce
next
  assume "id_ok i \<and> gf_name gf = file_id_display i \<and> gid = gf_id gf"
  moreover from this have "gvfile_from_str (gf_name gf) = Inr (GvfsFileId (file_id_display i))"
    unfolding gvfile_from_str_ok_iff by auto
  ultimately show "cache_entry gf = Inr (i, gid)" by (simp add: cache_entry_def to_vfile_id_display)
qed

section \<open>What Google Drive promises\<close>

record drive_file =
  df_name :: string
  df_mime :: string
  df_parents :: "GFileId list"
  df_data :: bytes

type_synonym drive = "GFileId \<rightharpoonup> drive_file"

definition gfile_of :: "GFileId \<Rightarrow> drive_file \<Rightarrow> GFile" where
  "gfile_of gid f = \<lparr>gf_id = gid, gf_name = df_name f, gf_mime_type = df_mime f\<rparr>"

definition children :: "drive \<Rightarrow> GFileId \<Rightarrow> GFile set" where
  "children d p = {gfile_of gid f | gid f. d gid = Some f \<and> p \<in> set (df_parents f)}"

text \<open>An id that can stand in a query.\<close>

definition gid_ok :: "GFileId \<Rightarrow> bool" where
  "gid_ok gid \<longleftrightarrow> CHR 39 \<notin> set (gid_str gid)"

text \<open>
  \<open>drv s\<close> is the content of the drive.  \<open>listing s q t\<close> are the pages still to come of a query from a page
  token on: a page token continues the listing it came with, and the listing of a directory is the set of
  its children.  A call that fails has changed nothing.  \<open>my_drive\<close> is the user's top directory, where a
  directory without a parent is put; the client never lists it.
\<close>

locale drive_client =
  fixes cl :: "'s gclient" and drv :: "'s \<Rightarrow> drive" and listing :: "'s \<Rightarrow> string \<Rightarrow> string option \<Rightarrow> GFile list list"
    and my_drive :: GFileId
  assumes list_drive: "c_list_files cl d s = (r, s') \<Longrightarrow> drv s' = drv s"
    and list_page: "c_list_files cl d s = (Inr resp, s') \<Longrightarrow>
      \<exists>ps. listing s (lf_q d) (lf_page_token d) = lr_files resp # ps \<and>
        (case lr_next_page_token resp of None \<Rightarrow> ps = [] | Some t \<Rightarrow> listing s' (lf_q d) (Some t) = ps)"
    and list_exists: "c_list_files cl d s = (Inr resp, s') \<Longrightarrow> gf \<in> set (lr_files resp) \<Longrightarrow> drv s (gf_id gf) \<noteq> None"
    and list_children: "gid_ok p \<Longrightarrow> p \<noteq> my_drive \<Longrightarrow>
      set (concat (listing s (children_query p) None)) = children (drv s) p"
    and create_empty_ok: "c_create_empty_file cl c s = (Inr gf, s') \<Longrightarrow>
      drv s (gf_id gf) = None \<and> gid_ok (gf_id gf) \<and>
      drv s' = (drv s)(gf_id gf \<mapsto> \<lparr>df_name = the (gc_name c), df_mime = the (gc_mime_type c),
        df_parents = (case gc_parents c of None \<Rightarrow> [my_drive] | Some ps \<Rightarrow> ps), df_data = []\<rparr>)"
    and create_empty_fails: "c_create_empty_file cl c s = (Inl e, s') \<Longrightarrow> drv s' = drv s"
    and create_blob_ok: "c_create_blob_file cl p n b s = (Inr gf, s') \<Longrightarrow>
      drv s (gf_id gf) = None \<and>
      drv s' = (drv s)(gf_id gf \<mapsto> \<lparr>df_name = n, df_mime = BINARY_MIME_TYPE, df_parents = [p], df_data = b\<rparr>)"
    and create_blob_fails: "c_create_blob_file cl p n b s = (Inl e, s') \<Longrightarrow> drv s' = drv s"
    and update_ok: "c_update_blob_file cl gid b s = (Inr gf, s') \<Longrightarrow>
      \<exists>f. drv s gid = Some f \<and> drv s' = (drv s)(gid \<mapsto> f\<lparr>df_data := b\<rparr>)"
    and update_fails: "c_update_blob_file cl gid b s = (Inl e, s') \<Longrightarrow> drv s' = drv s"
    and download_drive: "c_download_blob_file cl gid s = (rd, s') \<Longrightarrow> drv s' = drv s"
    and download_ok: "c_download_blob_file cl gid s = (Inr b, s') \<Longrightarrow> \<exists>f. drv s gid = Some f \<and> df_data f = b"
    and delete_ok: "c_delete_file cl gid s = (Inr u, s') \<Longrightarrow> drv s gid = Some f \<Longrightarrow> df_mime f = BINARY_MIME_TYPE \<Longrightarrow>
      drv s' = (drv s)(gid := None)"
    and delete_fails: "c_delete_file cl gid s = (Inl e, s') \<Longrightarrow> drv s' = drv s"

section \<open>The cache invariant\<close>

text \<open>
  The cache is complete and correct: it maps an id to a file exactly when that file lies in the root under
  the id's name, and everything in the root is such a file.
\<close>

definition cache_ok :: "drive \<Rightarrow> GoogleVfs \<Rightarrow> bool" where
  "cache_ok d g \<longleftrightarrow>
     bt_sorted file_id_cmp (gid_cache g) \<and>
     (\<forall>i gid. map_of (gid_cache g) i = Some gid \<longrightarrow> id_ok i \<and>
        (\<exists>f. d gid = Some f \<and> root_gid (gvfs_root g) \<in> set (df_parents f) \<and> df_name f = file_id_display i \<and>
          df_mime f = BINARY_MIME_TYPE)) \<and>
     (\<forall>gid f. d gid = Some f \<longrightarrow> root_gid (gvfs_root g) \<in> set (df_parents f) \<longrightarrow>
        (\<exists>i. id_ok i \<and> df_name f = file_id_display i \<and> map_of (gid_cache g) i = Some gid))"

text \<open>The files, by id.\<close>

definition vfs_view :: "drive \<Rightarrow> GoogleVfs \<Rightarrow> VfsFileId \<rightharpoonup> bytes" where
  "vfs_view d g i = Option.bind (map_of (gid_cache g) i) (\<lambda>gid. map_option df_data (d gid))"

lemma cache_okD:
  assumes "cache_ok d g" and "map_of (gid_cache g) i = Some gid"
  obtains f where "id_ok i" "d gid = Some f" "root_gid (gvfs_root g) \<in> set (df_parents f)"
    "df_name f = file_id_display i" "df_mime f = BINARY_MIME_TYPE"
  using assms unfolding cache_ok_def by blast

lemma cache_entry_in_drive:
  assumes "cache_ok d g" and "map_of (gid_cache g) i = Some gid"
  shows "id_ok i \<and> (\<exists>f. d gid = Some f \<and> root_gid (gvfs_root g) \<in> set (df_parents f) \<and>
    df_name f = file_id_display i \<and> df_mime f = BINARY_MIME_TYPE)"
  using assms unfolding cache_ok_def by blast

lemma cache_inj:
  assumes "cache_ok d g" and "map_of (gid_cache g) i = Some gid" and "map_of (gid_cache g) j = Some gid"
  shows "i = j"
proof -
  obtain f where "id_ok i" "d gid = Some f" "df_name f = file_id_display i" using cache_okD [OF assms(1,2)] by metis
  moreover obtain f' where "id_ok j" "d gid = Some f'" "df_name f' = file_id_display j"
    using cache_okD [OF assms(1,3)] by metis
  ultimately show ?thesis using file_id_display_inj by auto
qed

lemma view_None_iff:
  assumes "cache_ok d g"
  shows "vfs_view d g i = None \<longleftrightarrow> map_of (gid_cache g) i = None"
proof (cases "map_of (gid_cache g) i")
  case (Some gid)
  then obtain f where "d gid = Some f" by (rule cache_okD [OF assms])
  with Some show ?thesis by (simp add: vfs_view_def)
qed (simp add: vfs_view_def)

text \<open>The view depends on the drive only: it is the content of the file in the root with the id's name.\<close>

lemma view_iff:
  assumes "cache_ok d g"
  shows "vfs_view d g i = Some b \<longleftrightarrow> id_ok i \<and>
    (\<exists>gid f. d gid = Some f \<and> root_gid (gvfs_root g) \<in> set (df_parents f) \<and> df_name f = file_id_display i \<and> df_data f = b)"
proof
  assume "vfs_view d g i = Some b"
  then obtain gid f where gid: "map_of (gid_cache g) i = Some gid" "d gid = Some f" "df_data f = b"
    by (auto simp: vfs_view_def bind_eq_Some_conv)
  from cache_entry_in_drive [OF assms gid(1)] gid(2,3) show "id_ok i \<and>
      (\<exists>gid f. d gid = Some f \<and> root_gid (gvfs_root g) \<in> set (df_parents f) \<and> df_name f = file_id_display i \<and> df_data f = b)"
    by (metis option.inject)
next
  assume "id_ok i \<and>
      (\<exists>gid f. d gid = Some f \<and> root_gid (gvfs_root g) \<in> set (df_parents f) \<and> df_name f = file_id_display i \<and> df_data f = b)"
  then obtain gid f where f: "id_ok i" "d gid = Some f" "root_gid (gvfs_root g) \<in> set (df_parents f)"
    "df_name f = file_id_display i" "df_data f = b" by blast
  then obtain j where "id_ok j" "df_name f = file_id_display j" "map_of (gid_cache g) j = Some gid"
    using assms unfolding cache_ok_def by blast
  with f have "map_of (gid_cache g) i = Some gid" using file_id_display_inj by auto
  with f show "vfs_view d g i = Some b" by (simp add: vfs_view_def)
qed

section \<open>The operations\<close>

lemma cache_ok_insert:
  fixes b :: bytes
  assumes ok: "cache_ok d g" and free: "map_of (gid_cache g) i = None" and i: "id_ok i" and new: "d gid = None"
  defines "f \<equiv> \<lparr>df_name = file_id_display i, df_mime = BINARY_MIME_TYPE, df_parents = [root_gid (gvfs_root g)], df_data = b\<rparr>"
  defines "g' \<equiv> g\<lparr>gid_cache := bt_insert file_id_cmp i gid (gid_cache g)\<rparr>"
  shows "cache_ok (d(gid \<mapsto> f)) g' \<and> vfs_view (d(gid \<mapsto> f)) g' = (vfs_view d g)(i \<mapsto> b)"
proof
  have sorted: "bt_sorted file_id_cmp (gid_cache g)" using ok by (simp add: cache_ok_def)
  have root: "gvfs_root g' = gvfs_root g" by (simp add: g'_def)
  have map: "map_of (gid_cache g') = (map_of (gid_cache g))(i \<mapsto> gid)"
    by (simp add: g'_def file_ids.bt_insert_map_of [OF sorted])
  have other: "gid' \<noteq> gid" if "map_of (gid_cache g) j = Some gid'" for j gid'
    using cache_entry_in_drive [OF ok that] new by auto
  show "cache_ok (d(gid \<mapsto> f)) g'"
    unfolding cache_ok_def
  proof (intro conjI allI impI)
    show "bt_sorted file_id_cmp (gid_cache g')" by (simp add: g'_def file_ids.bt_insert_sorted [OF sorted])
  next
    fix j gid'
    assume get: "map_of (gid_cache g') j = Some gid'"
    show "id_ok j" using get i cache_entry_in_drive [OF ok, of j gid'] by (auto simp: map split: if_splits)
    show "\<exists>f'. (d(gid \<mapsto> f)) gid' = Some f' \<and> root_gid (gvfs_root g') \<in> set (df_parents f') \<and>
        df_name f' = file_id_display j \<and> df_mime f' = BINARY_MIME_TYPE"
    proof (cases "j = i")
      case True
      with get show ?thesis by (simp add: map f_def root)
    next
      case False
      with get have get': "map_of (gid_cache g) j = Some gid'" by (simp add: map)
      from cache_entry_in_drive [OF ok get'] other [OF get'] show ?thesis by (fastforce simp: root)
    qed
  next
    fix gid' f'
    assume f': "(d(gid \<mapsto> f)) gid' = Some f'" "root_gid (gvfs_root g') \<in> set (df_parents f')"
    show "\<exists>j. id_ok j \<and> df_name f' = file_id_display j \<and> map_of (gid_cache g') j = Some gid'"
    proof (cases "gid' = gid")
      case True
      with f' i show ?thesis by (auto simp: map f_def)
    next
      case False
      with f' have "d gid' = Some f'" "root_gid (gvfs_root g) \<in> set (df_parents f')" by (simp_all add: root)
      then obtain j where "id_ok j" "df_name f' = file_id_display j" "map_of (gid_cache g) j = Some gid'"
        using ok unfolding cache_ok_def by blast
      moreover from this free have "j \<noteq> i" by auto
      ultimately show ?thesis by (auto simp: map)
    qed
  qed
  show "vfs_view (d(gid \<mapsto> f)) g' = (vfs_view d g)(i \<mapsto> b)"
    using other by (fastforce simp: vfs_view_def map f_def fun_eq_iff split: bind_splits)
qed

lemma cache_ok_update:
  assumes ok: "cache_ok d g" and get: "map_of (gid_cache g) i = Some gid" and f: "d gid = Some f"
  shows "cache_ok (d(gid \<mapsto> f\<lparr>df_data := b\<rparr>)) g \<and> vfs_view (d(gid \<mapsto> f\<lparr>df_data := b\<rparr>)) g = (vfs_view d g)(i \<mapsto> b)"
proof
  show "cache_ok (d(gid \<mapsto> f\<lparr>df_data := b\<rparr>)) g"
    using ok f unfolding cache_ok_def
    by (simp split: if_splits) (metis drive_file.select_convs(1-3) drive_file.surjective drive_file.update_convs(4) option.inject)
  have "gid' \<noteq> gid" if "map_of (gid_cache g) j = Some gid'" "j \<noteq> i" for j gid'
    using that get cache_inj [OF ok] by blast
  then show "vfs_view (d(gid \<mapsto> f\<lparr>df_data := b\<rparr>)) g = (vfs_view d g)(i \<mapsto> b)"
    using get by (fastforce simp: vfs_view_def fun_eq_iff split: bind_splits)
qed

lemma cache_ok_delete:
  assumes ok: "cache_ok d g" and get: "map_of (gid_cache g) i = Some gid"
  defines "g' \<equiv> g\<lparr>gid_cache := bt_remove file_id_cmp i (gid_cache g)\<rparr>"
  shows "cache_ok (d(gid := None)) g' \<and> vfs_view (d(gid := None)) g' = (vfs_view d g)(i := None)"
proof
  have sorted: "bt_sorted file_id_cmp (gid_cache g)" using ok by (simp add: cache_ok_def)
  have root: "gvfs_root g' = gvfs_root g" by (simp add: g'_def)
  have map: "map_of (gid_cache g') = (map_of (gid_cache g))(i := None)"
    by (simp add: g'_def file_ids.bt_remove_map_of)
  have other: "gid' \<noteq> gid" if "map_of (gid_cache g) j = Some gid'" "j \<noteq> i" for j gid'
    using that get cache_inj [OF ok] by blast
  show "cache_ok (d(gid := None)) g'"
    unfolding cache_ok_def
  proof (intro conjI allI impI)
    show "bt_sorted file_id_cmp (gid_cache g')" by (simp add: g'_def file_ids.bt_remove_sorted [OF sorted])
  next
    fix j gid'
    assume "map_of (gid_cache g') j = Some gid'"
    then have get': "map_of (gid_cache g) j = Some gid'" "j \<noteq> i" by (auto simp: map split: if_splits)
    from cache_entry_in_drive [OF ok get'(1)] other [OF get'] show "id_ok j"
      "\<exists>f'. (d(gid := None)) gid' = Some f' \<and> root_gid (gvfs_root g') \<in> set (df_parents f') \<and>
        df_name f' = file_id_display j \<and> df_mime f' = BINARY_MIME_TYPE"
      by (fastforce simp: root)+
  next
    fix gid' f'
    assume f': "(d(gid := None)) gid' = Some f'" "root_gid (gvfs_root g') \<in> set (df_parents f')"
    then have "gid' \<noteq> gid" "d gid' = Some f'" "root_gid (gvfs_root g) \<in> set (df_parents f')"
      by (auto simp: root split: if_splits)
    then obtain j where "id_ok j" "df_name f' = file_id_display j" "map_of (gid_cache g) j = Some gid'"
      using ok unfolding cache_ok_def by blast
    moreover from this get \<open>gid' \<noteq> gid\<close> have "j \<noteq> i" by auto
    ultimately show "\<exists>j. id_ok j \<and> df_name f' = file_id_display j \<and> map_of (gid_cache g') j = Some gid'"
      by (auto simp: map)
  qed
  show "vfs_view (d(gid := None)) g' = (vfs_view d g)(i := None)"
    using other by (fastforce simp: vfs_view_def map fun_eq_iff split: bind_splits)
qed

section \<open>Listing a directory of the cache\<close>

interpretation strs: total_cmp cmp_str
  by (intro total_cmp_list total_cmp_char)

lemma range_from_filter:
  assumes "bt_sorted file_id_cmp xs"
  shows "bt_range_from file_id_cmp lower xs = filter (\<lambda>(i, _). file_id_cmp i lower \<noteq> Less) xs"
  using assms
proof (induction xs)
  case (Cons x xs)
  have tl: "bt_sorted file_id_cmp xs" "\<forall>y \<in> set xs. file_id_cmp (fst x) (fst y) = Less"
    using Cons.prems by (auto simp: bt_sorted_def)
  have "file_id_cmp (fst y) lower \<noteq> Less" if "file_id_cmp (fst x) lower \<noteq> Less" "y \<in> set xs" for y
    using that tl(2) file_ids.cmp_trans by blast
  with Cons.IH [OF tl(1)] show ?case
    by (cases x) (auto simp: bt_range_from_def filter_id_conv case_prod_beta)
qed (simp add: bt_range_from_def)

lemma directory_entries:
  assumes "bt_sorted file_id_cmp xs"
  shows "takeWhile (\<lambda>(i, _). dirname (fid_dir i) = d) (bt_range_from file_id_cmp (file_id_new d []) xs) =
    filter (\<lambda>(i, _). dirname (fid_dir i) = d) xs"
proof -
  let ?lower = "file_id_new d []" and ?P = "\<lambda>(i :: VfsFileId, _ :: 'a). dirname (fid_dir i) = d"
  have empty: "cmp_str f [] \<noteq> Less" for f by (cases f) simp_all
  have above: "file_id_cmp i ?lower \<noteq> Less" if "dirname (fid_dir i) = d" for i
    using that empty by (simp add: file_id_cmp_def file_id_new_def)
  have take: "takeWhile ?P ys = filter ?P ys"
    if "bt_sorted file_id_cmp ys" "\<forall>y \<in> set ys. file_id_cmp (fst y) ?lower \<noteq> Less" for ys
    using that
  proof (induction ys)
    case (Cons y ys)
    have IH: "takeWhile ?P ys = filter ?P ys" using Cons by (simp add: bt_sorted_def)
    show ?case
    proof (cases "dirname (fid_dir (fst y)) = d")
      case False
      then have gt: "cmp_str (dirname (fid_dir (fst y))) d = Greater"
        using Cons.prems(2) strs.cmp_eq by (cases "cmp_str (dirname (fid_dir (fst y))) d")
          (auto simp: file_id_cmp_def file_id_new_def)
      have "dirname (fid_dir (fst z)) \<noteq> d" if "z \<in> set ys" for z
      proof
        assume "dirname (fid_dir (fst z)) = d"
        with gt have "file_id_cmp (fst y) (fst z) = Greater" by (simp add: file_id_cmp_def)
        moreover have "file_id_cmp (fst y) (fst z) = Less" using Cons.prems(1) that by (simp add: bt_sorted_def)
        ultimately show False by simp
      qed
      then have "filter ?P ys = []" by (fastforce simp: filter_empty_conv)
      with False show ?thesis by (cases y) simp
    qed (use IH in \<open>cases y, simp\<close>)
  qed simp
  have "bt_sorted file_id_cmp (filter (\<lambda>(i, _). file_id_cmp i ?lower \<noteq> Less) xs)"
    using assms by (simp add: bt_sorted_def sorted_wrt_filter)
  from take [OF this] have "takeWhile ?P (bt_range_from file_id_cmp ?lower xs) =
      filter ?P (filter (\<lambda>(i, _). file_id_cmp i ?lower \<noteq> Less) xs)"
    unfolding range_from_filter [OF assms] by (auto simp: case_prod_beta)
  also have "\<dots> = filter ?P xs" using above by (auto simp: case_prod_beta intro!: filter_cong)
  finally show ?thesis .
qed

section \<open>Refinement\<close>

datatype vfs_op =
    OpGet VfsFileId
  | OpCreate VfsFile
  | OpUpsert VfsFile
  | OpDelete VfsFileId
  | OpDir VfsDirectory

datatype vfs_out = OutFile "VfsFile option" | OutUnit | OutFiles "VfsFile list"

definition map_out :: "('a \<Rightarrow> vfs_out) \<Rightarrow> (GvfsError + 'a) \<times> GoogleVfs \<times> 's \<Rightarrow> (GvfsError + vfs_out) \<times> GoogleVfs \<times> 's" where
  "map_out f x = (map_ok f (fst x), snd x)"

definition gvfs_exec :: "'s gclient \<Rightarrow> vfs_op \<Rightarrow> GoogleVfs \<times> 's \<Rightarrow> (GvfsError + vfs_out) \<times> GoogleVfs \<times> 's" where
  "gvfs_exec cl op st =
     (case op of
        OpGet i \<Rightarrow> map_out OutFile (get_file cl i st)
      | OpCreate f \<Rightarrow> map_out (\<lambda>_. OutUnit) (create_file cl f st)
      | OpUpsert f \<Rightarrow> map_out (\<lambda>_. OutUnit) (upsert_file cl f st)
      | OpDelete i \<Rightarrow> map_out (\<lambda>_. OutUnit) (delete_file cl i st)
      | OpDir d \<Rightarrow> map_out OutFiles (get_directory cl d st))"

fun gvfs_run :: "'s gclient \<Rightarrow> vfs_op list \<Rightarrow> GoogleVfs \<times> 's \<Rightarrow> (GvfsError + vfs_out) list \<times> GoogleVfs \<times> 's" where
  "gvfs_run cl [] st = ([], st)"
| "gvfs_run cl (op # ops) st =
     (let (r, st) = gvfs_exec cl op st; (rs, st) = gvfs_run cl ops st in (r # rs, st))"

text \<open>The specification: a map from file ids to contents.\<close>

type_synonym vfs_map = "VfsFileId \<rightharpoonup> bytes"

definition store_spec :: "VfsFile \<Rightarrow> vfs_map \<Rightarrow> (GvfsError + vfs_out) \<Rightarrow> vfs_map \<Rightarrow> bool" where
  "store_spec f v r v' \<longleftrightarrow>
     (case gvfile_try_from (vf_id f) of
        Inl e \<Rightarrow> r = Inl e \<and> v' = v
      | Inr _ \<Rightarrow> r = Inr OutUnit \<and> v' = v(vf_id f \<mapsto> vf_data f))"

definition vfs_spec :: "vfs_op \<Rightarrow> vfs_map \<Rightarrow> (GvfsError + vfs_out) \<Rightarrow> vfs_map \<Rightarrow> bool" where
  "vfs_spec op v r v' \<longleftrightarrow>
     (case op of
        OpGet i \<Rightarrow> v' = v \<and> r = Inr (OutFile (map_option (\<lambda>b. \<lparr>vf_id = i, vf_data = b\<rparr>) (v i)))
      | OpCreate f \<Rightarrow>
          (if v (vf_id f) \<noteq> None then r = Inl CreateDupe \<and> v' = v else store_spec f v r v')
      | OpUpsert f \<Rightarrow>
          (if v (vf_id f) \<noteq> None then r = Inr OutUnit \<and> v' = v(vf_id f \<mapsto> vf_data f) else store_spec f v r v')
      | OpDelete i \<Rightarrow>
          (if v i = None then r = Inl FileNotFound \<and> v' = v else r = Inr OutUnit \<and> v' = v(i := None))
      | OpDir d \<Rightarrow> v' = v \<and>
          (if dirname d = SINGLETON_DIRECTORY then r = Inl RootNotListable
           else \<exists>fs. r = Inr (OutFiles fs) \<and>
             sorted_wrt (\<lambda>a b. file_id_cmp (vf_id a) (vf_id b) = Less) fs \<and>
             set fs = {\<lparr>vf_id = i, vf_data = b\<rparr> | i b. fid_dir i = d \<and> v i = Some b}))"

text \<open>One step: as the map, or a failed call to the service that changes nothing.\<close>

definition vfs_step :: "vfs_op \<Rightarrow> vfs_map \<Rightarrow> (GvfsError + vfs_out) \<Rightarrow> vfs_map \<Rightarrow> bool" where
  "vfs_step op v r v' \<longleftrightarrow> (\<exists>e. r = Inl (GApi e)) \<and> v' = v \<or> vfs_spec op v r v'"

inductive vfs_steps :: "vfs_map \<Rightarrow> vfs_op list \<Rightarrow> (GvfsError + vfs_out) list \<Rightarrow> vfs_map \<Rightarrow> bool" where
  steps_Nil: "vfs_steps v [] [] v"
| steps_Cons: "vfs_step op v r v' \<Longrightarrow> vfs_steps v' ops rs v'' \<Longrightarrow> vfs_steps v (op # ops) (r # rs) v''"

inductive_simps vfs_steps_Nil [simp]: "vfs_steps v [] rs v'"
inductive_simps vfs_steps_Cons: "vfs_steps v (op # ops) rs v'"

context drive_client
begin

lemma api_call_cases:
  assumes "api_call c s = (r, s')"
  obtains e where "c s = (Inl e, s')" "r = Inl (GApi e)" | x where "c s = (Inr x, s')" "r = Inr x"
  using assms by (cases "c s"; cases "fst (c s)") (auto simp: api_call_def call_err_def)

lemma get_refines:
  assumes ok: "cache_ok (drv s) g" and run: "get_file cl i (g, s) = (r, g', s')"
  shows "cache_ok (drv s') g' \<and> g' = g \<and> drv s' = drv s \<and>
    ((\<exists>e. r = Inl (GApi e)) \<or> r = Inr (map_option (\<lambda>b. \<lparr>vf_id = i, vf_data = b\<rparr>) (vfs_view (drv s) g i)))"
proof (cases "map_of (gid_cache g) i")
  case None
  with run ok show ?thesis by (auto simp: get_file_def file_ids.bt_get_map_of vfs_view_def)
next
  case (Some gid)
  obtain r1 s1 where call: "api_call (c_download_blob_file cl gid) s = (r1, s1)" by force
  from call show ?thesis
  proof (cases rule: api_call_cases)
    case (1 e)
    then show ?thesis using run Some call ok download_drive by (auto simp: get_file_def file_ids.bt_get_map_of)
  next
    case (2 b)
    obtain f where "drv s gid = Some f" "df_data f = b" using download_ok [OF 2(1)] by blast
    then show ?thesis
      using run Some call 2 ok download_drive [OF 2(1)]
      by (auto simp: get_file_def file_ids.bt_get_map_of vfs_view_def)
  qed
qed

lemma upload_refines:
  assumes ok: "cache_ok (drv s) g" and free: "vfs_view (drv s) g (vf_id f) = None"
    and run: "upload_new cl f (g, s) = (r, g', s')"
  shows "cache_ok (drv s') g' \<and>
    ((\<exists>e. r = Inl (GApi e)) \<and> vfs_view (drv s') g' = vfs_view (drv s) g \<or>
     store_spec f (vfs_view (drv s) g) (map_ok (\<lambda>_. OutUnit) r) (vfs_view (drv s') g'))"
proof (cases "gvfile_try_from (vf_id f)")
  case (Inl e)
  with run ok show ?thesis by (auto simp: upload_new_def store_spec_def)
next
  case (Inr gv)
  then obtain n where gv: "gv = GvfsFileId n" "id_ok (vf_id f)" "n = file_id_display (vf_id f)"
    using gvfile_try_from_ok_iff by (cases gv) blast
  obtain r1 s1 where call: "api_call (c_create_blob_file cl (root_gid (gvfs_root g)) n (vf_data f)) s = (r1, s1)"
    by force
  from call show ?thesis
  proof (cases rule: api_call_cases)
    case (1 e)
    then show ?thesis using run Inr gv(1) call ok create_blob_fails [OF 1(1)] by (auto simp: upload_new_def)
  next
    case (2 gf)
    note new = create_blob_ok [OF 2(1)]
    have none: "map_of (gid_cache g) (vf_id f) = None" using free by (simp add: view_None_iff [OF ok])
    from cache_ok_insert [OF ok none gv(2), of "gf_id gf" "vf_data f"] new show ?thesis
      using run Inr gv call 2(2) by (auto simp: upload_new_def store_spec_def)
  qed
qed

lemma create_refines:
  assumes ok: "cache_ok (drv s) g" and run: "create_file cl f (g, s) = (r, g', s')"
  shows "cache_ok (drv s') g' \<and>
    vfs_step (OpCreate f) (vfs_view (drv s) g) (map_ok (\<lambda>_. OutUnit) r) (vfs_view (drv s') g')"
proof (cases "vfs_view (drv s) g (vf_id f)")
  case None
  then have "upload_new cl f (g, s) = (r, g', s')"
    using run view_None_iff [OF ok] by (simp add: create_file_def file_ids.bt_get_map_of)
  from upload_refines [OF ok None this] None show ?thesis by (auto simp: vfs_step_def vfs_spec_def)
next
  case (Some b)
  then have "map_of (gid_cache g) (vf_id f) \<noteq> None" using view_None_iff [OF ok, of "vf_id f"] by simp
  with run have "r = Inl CreateDupe" "g' = g" "s' = s"
    by (auto simp: create_file_def file_ids.bt_get_map_of)
  with Some ok show ?thesis by (simp add: vfs_step_def vfs_spec_def)
qed

lemma upsert_refines:
  assumes ok: "cache_ok (drv s) g" and run: "upsert_file cl f (g, s) = (r, g', s')"
  shows "cache_ok (drv s') g' \<and>
    vfs_step (OpUpsert f) (vfs_view (drv s) g) (map_ok (\<lambda>_. OutUnit) r) (vfs_view (drv s') g')"
proof (cases "map_of (gid_cache g) (vf_id f)")
  case None
  then have "upload_new cl f (g, s) = (r, g', s')" and none: "vfs_view (drv s) g (vf_id f) = None"
    using run view_None_iff [OF ok] by (simp_all add: upsert_file_def file_ids.bt_get_map_of)
  from upload_refines [OF ok none this(1)] none show ?thesis by (auto simp: vfs_step_def vfs_spec_def)
next
  case (Some gid)
  then have some: "vfs_view (drv s) g (vf_id f) \<noteq> None" using view_None_iff [OF ok, of "vf_id f"] by simp
  obtain r1 s1 where call: "api_call (c_update_blob_file cl gid (vf_data f)) s = (r1, s1)" by force
  from call show ?thesis
  proof (cases rule: api_call_cases)
    case (1 e)
    then show ?thesis
      using run Some call ok update_fails [OF 1(1)]
      by (auto simp: upsert_file_def file_ids.bt_get_map_of vfs_step_def)
  next
    case (2 gf)
    obtain df where df: "drv s gid = Some df" "drv s1 = (drv s)(gid \<mapsto> df\<lparr>df_data := vf_data f\<rparr>)"
      using update_ok [OF 2(1)] by blast
    from cache_ok_update [OF ok Some df(1), of "vf_data f"] show ?thesis
      using run Some call 2(2) df(2) some
      by (auto simp: upsert_file_def file_ids.bt_get_map_of vfs_step_def vfs_spec_def)
  qed
qed

lemma delete_refines:
  assumes ok: "cache_ok (drv s) g" and run: "delete_file cl i (g, s) = (r, g', s')"
  shows "cache_ok (drv s') g' \<and>
    vfs_step (OpDelete i) (vfs_view (drv s) g) (map_ok (\<lambda>_. OutUnit) r) (vfs_view (drv s') g')"
proof (cases "map_of (gid_cache g) i")
  case None
  with run ok show ?thesis
    using view_None_iff [OF ok, of i] by (auto simp: delete_file_def file_ids.bt_get_map_of vfs_step_def vfs_spec_def)
next
  case (Some gid)
  then have some: "vfs_view (drv s) g i \<noteq> None" using view_None_iff [OF ok, of i] by simp
  obtain r1 s1 where call: "api_call (c_delete_file cl gid) s = (r1, s1)" by force
  from call show ?thesis
  proof (cases rule: api_call_cases)
    case (1 e)
    then show ?thesis
      using run Some call ok delete_fails [OF 1(1)]
      by (auto simp: delete_file_def file_ids.bt_get_map_of vfs_step_def)
  next
    case (2 u)
    obtain df where "drv s gid = Some df" "df_mime df = BINARY_MIME_TYPE"
      using cache_entry_in_drive [OF ok Some] by blast
    note del = delete_ok [OF 2(1) this]
    from cache_ok_delete [OF ok Some] show ?thesis
      using run Some call 2(2) del some
      by (auto simp: delete_file_def file_ids.bt_get_map_of vfs_step_def vfs_spec_def)
  qed
qed


lemma download_all_ok:
  assumes "download_all cl xs s = (rs, s')" and "\<forall>x \<in> set xs. to_vfile_id (snd x) \<noteq> None"
  shows "drv s' = drv s \<and>
    (case collect_results rs of
       Inl e \<Rightarrow> \<exists>e'. e = GApi e'
     | Inr fs \<Rightarrow> list_all2 (\<lambda>x f. to_vfile_id (snd x) = Some (vf_id f) \<and>
         (\<exists>df. drv s (fst x) = Some df \<and> df_data df = vf_data f)) xs fs)"
  using assms
proof (induction xs arbitrary: s rs s')
  case (Cons x xs)
  obtain gid gv where x: "x = (gid, gv)" by force
  obtain i where i: "to_vfile_id gv = Some i" using Cons.prems(2) by (auto simp: x)
  obtain r1 s1 where call: "api_call (c_download_blob_file cl gid) s = (r1, s1)" by force
  obtain rs1 s2 where rest: "download_all cl xs s1 = (rs1, s2)" by force
  note IH = Cons.IH [OF rest] Cons.prems(2)
  have run: "rs = and_then r1 (\<lambda>b. Inr \<lparr>vf_id = i, vf_data = b\<rparr>) # rs1" "s' = s2"
    using Cons.prems(1) by (auto simp: x call rest i Let_def)
  from call show ?case
  proof (cases rule: api_call_cases)
    case (1 e)
    then show ?thesis using IH run download_drive [OF 1(1)] by auto
  next
    case (2 b)
    then show ?thesis
      using IH run download_drive [OF 2(1)] download_ok [OF 2(1)]
      by (cases "collect_results rs1") (auto simp: x i)
  qed
qed simp

lemma collect_gvids:
  assumes "\<forall>e \<in> set es. id_ok (fst e)"
  shows "collect_results (map (\<lambda>(vfile_id, gid). map_ok (\<lambda>gv. (gid, gv)) (gvfile_try_from vfile_id)) es) =
    Inr (map (\<lambda>e. (snd e, GvfsFileId (file_id_display (fst e)))) es)"
  using assms
proof (induction es)
  case (Cons e es)
  have "gvfile_try_from (fst e) = Inr (GvfsFileId (file_id_display (fst e)))"
    using Cons.prems by (simp add: gvfile_try_from_ok_iff)
  with Cons show ?case by (simp add: case_prod_beta)
qed simp

lemma directory_refines:
  assumes ok: "cache_ok (drv s) g" and run: "get_directory cl d (g, s) = (r, g', s')"
  shows "cache_ok (drv s') g' \<and>
    vfs_step (OpDir d) (vfs_view (drv s) g) (map_ok OutFiles r) (vfs_view (drv s') g')"
proof (cases "dirname d = SINGLETON_DIRECTORY")
  case True
  with run ok show ?thesis by (auto simp: get_directory_def vfs_step_def vfs_spec_def)
next
  case False
  define es where "es = filter (\<lambda>(i, _). dirname (fid_dir i) = dirname d) (gid_cache g)"
  have sorted: "bt_sorted file_id_cmp (gid_cache g)" using ok by (simp add: cache_ok_def)
  have dist: "distinct (map fst (gid_cache g))" by (rule file_ids.bt_sorted_distinct [OF sorted])
  have mem: "(i, gid) \<in> set es \<longleftrightarrow> fid_dir i = d \<and> map_of (gid_cache g) i = Some gid" for i gid
    using map_of_eq_Some_iff [OF dist] by (auto simp: es_def intro: VfsDirectory.expand)
  have ids: "\<forall>e \<in> set es. id_ok (fst e)" using mem cache_entry_in_drive [OF ok] by (metis prod.collapse)
  let ?xs = "map (\<lambda>e. (snd e, GvfsFileId (file_id_display (fst e)))) es"
  obtain rs s1 where dl: "download_all cl ?xs s = (rs, s1)" by force
  have ids': "\<forall>x \<in> set ?xs. to_vfile_id (snd x) \<noteq> None" using ids by (auto simp: to_vfile_id_display)
  note all = download_all_ok [OF dl ids']
  have "(r, g', s') = (if es = [] then (Inr [], g, s) else (collect_results rs, g, s1))"
    using run False dl
    by (cases "es = []")
      (simp_all add: get_directory_def directory_entries [OF sorted] collect_gvids [OF ids] es_def [symmetric] Let_def)
  then have out: "g' = g" "drv s' = drv s" "r = collect_results rs"
    using all dl by (auto split: if_splits)
  show ?thesis
  proof (cases "collect_results rs")
    case (Inl e)
    with all out ok show ?thesis by (auto simp: vfs_step_def)
  next
    case (Inr fs)
    with all have "list_all2 (\<lambda>x f. to_vfile_id (snd x) = Some (vf_id f) \<and>
        (\<exists>df. drv s (fst x) = Some df \<and> df_data df = vf_data f)) ?xs fs" by simp
    then have "list_all2 (\<lambda>e f. vf_id f = fst e \<and> vfs_view (drv s) g (fst e) = Some (vf_data f)) es fs"
      unfolding list_all2_map1
    proof (rule list.rel_mono_strong)
      fix e f
      assume e: "e \<in> set es" and "to_vfile_id (snd (snd e, GvfsFileId (file_id_display (fst e)))) = Some (vf_id f) \<and>
        (\<exists>df. drv s (fst (snd e, GvfsFileId (file_id_display (fst e)))) = Some df \<and> df_data df = vf_data f)"
      moreover have "map_of (gid_cache g) (fst e) = Some (snd e)" using mem e by (metis prod.collapse)
      ultimately show "vf_id f = fst e \<and> vfs_view (drv s) g (fst e) = Some (vf_data f)"
        using ids by (auto simp: to_vfile_id_display vfs_view_def)
    qed
    then have fs: "map vf_id fs = map fst es" "\<forall>f \<in> set fs. vfs_view (drv s) g (vf_id f) = Some (vf_data f)"
      by (induction rule: list_all2_induct) auto
    have "sorted_wrt (\<lambda>a b. file_id_cmp (vf_id a) (vf_id b) = Less) fs"
    proof -
      have "sorted_wrt (\<lambda>a b. file_id_cmp (fst a) (fst b) = Less) es"
        using sorted by (simp add: es_def bt_sorted_def sorted_wrt_filter)
      then have "sorted_wrt (\<lambda>a b. file_id_cmp a b = Less) (map vf_id fs)"
        unfolding fs(1) sorted_wrt_map .
      then show ?thesis unfolding sorted_wrt_map .
    qed
    moreover have "set fs = {\<lparr>vf_id = i, vf_data = b\<rparr> | i b. fid_dir i = d \<and> vfs_view (drv s) g i = Some b}"
    proof (intro set_eqI iffI)
      fix f assume f: "f \<in> set fs"
      then have "vf_id f \<in> fst ` set es" using arg_cong [OF fs(1), of set] by (metis image_eqI set_map)
      then have "fid_dir (vf_id f) = d" using mem by force
      moreover have "vfs_view (drv s) g (vf_id f) = Some (vf_data f)" using fs(2) f by blast
      moreover have "f = \<lparr>vf_id = vf_id f, vf_data = vf_data f\<rparr>" by simp
      ultimately show "f \<in> {\<lparr>vf_id = i, vf_data = b\<rparr> | i b. fid_dir i = d \<and> vfs_view (drv s) g i = Some b}"
        by blast
    next
      fix f assume "f \<in> {\<lparr>vf_id = i, vf_data = b\<rparr> | i b. fid_dir i = d \<and> vfs_view (drv s) g i = Some b}"
      then obtain i b where f: "f = \<lparr>vf_id = i, vf_data = b\<rparr>" "fid_dir i = d" "vfs_view (drv s) g i = Some b" by blast
      then have "map_of (gid_cache g) i \<noteq> None" using view_None_iff [OF ok, of i] by simp
      then obtain gid where "(i, gid) \<in> set es" using mem f(2) by blast
      then have "i \<in> set (map vf_id fs)" unfolding fs(1) by force
      then obtain f' where "f' \<in> set fs" "vf_id f' = i" by auto
      with fs(2) f show "f \<in> set fs" by (cases f') auto
    qed
    ultimately show ?thesis using Inr out ok False by (auto simp: vfs_step_def vfs_spec_def)
  qed
qed

lemma exec_refines:
  assumes "cache_ok (drv s) g" and "gvfs_exec cl op (g, s) = (r, g', s')"
  shows "cache_ok (drv s') g' \<and> vfs_step op (vfs_view (drv s) g) r (vfs_view (drv s') g')"
proof (cases op)
  case (OpGet i)
  obtain r1 g1 s1 where "get_file cl i (g, s) = (r1, g1, s1)" by (metis prod.collapse)
  with get_refines [OF assms(1) this] assms(2) OpGet show ?thesis
    by (auto simp: gvfs_exec_def map_out_def vfs_step_def vfs_spec_def)
next
  case (OpCreate f)
  obtain r1 g1 s1 where "create_file cl f (g, s) = (r1, g1, s1)" by (metis prod.collapse)
  with create_refines [OF assms(1) this] assms(2) OpCreate show ?thesis by (auto simp: gvfs_exec_def map_out_def)
next
  case (OpUpsert f)
  obtain r1 g1 s1 where "upsert_file cl f (g, s) = (r1, g1, s1)" by (metis prod.collapse)
  with upsert_refines [OF assms(1) this] assms(2) OpUpsert show ?thesis by (auto simp: gvfs_exec_def map_out_def)
next
  case (OpDelete i)
  obtain r1 g1 s1 where "delete_file cl i (g, s) = (r1, g1, s1)" by (metis prod.collapse)
  with delete_refines [OF assms(1) this] assms(2) OpDelete show ?thesis by (auto simp: gvfs_exec_def map_out_def)
next
  case (OpDir d)
  obtain r1 g1 s1 where "get_directory cl d (g, s) = (r1, g1, s1)" by (metis prod.collapse)
  with directory_refines [OF assms(1) this] assms(2) OpDir show ?thesis by (auto simp: gvfs_exec_def map_out_def)
qed

lemma run_refines:
  assumes "cache_ok (drv s) g" and "gvfs_run cl ops (g, s) = (rs, g', s')"
  shows "cache_ok (drv s') g' \<and> vfs_steps (vfs_view (drv s) g) ops rs (vfs_view (drv s') g')"
  using assms
proof (induction ops arbitrary: g s rs g' s')
  case (Cons op ops)
  obtain r g1 s1 where step: "gvfs_exec cl op (g, s) = (r, g1, s1)" by (metis prod.collapse)
  obtain rs1 g2 s2 where rest: "gvfs_run cl ops (g1, s1) = (rs1, g2, s2)" by (metis prod.collapse)
  have out: "rs = r # rs1" "g' = g2" "s' = s2" using Cons.prems(2) by (auto simp: step rest)
  note one = exec_refines [OF Cons.prems(1) step]
  from Cons.IH [OF conjunct1 [OF one] rest] one show ?case
    unfolding out by (auto intro: steps_Cons)
qed simp

section \<open>Initialization\<close>

text \<open>Following the pages of a listing ends, because every page of it comes once.\<close>

lemma list_pages_returns:
  assumes "case lr_next_page_token resp of None \<Rightarrow> ps = [] | Some t \<Rightarrow> listing s (lf_q data) (Some t) = ps"
  shows "\<exists>r s'. list_pages cl data resp acc s = Some (r, s') \<and> drv s' = drv s \<and>
    (\<forall>fs. r = Inr fs \<longrightarrow> fs = acc @ concat ps) \<and> (\<forall>e. r = Inl e \<longrightarrow> (\<exists>e'. e = GApi e'))"
  using assms
proof (induction ps arbitrary: data resp acc s)
  case Nil
  show ?case
  proof (cases "lr_next_page_token resp")
    case (Some t)
    let ?d = "data\<lparr>lf_page_token := Some t\<rparr>"
    obtain r1 s1 where call: "api_call (c_list_files cl ?d) s = (r1, s1)" by force
    from call show ?thesis
    proof (cases rule: api_call_cases)
      case (1 e)
      then show ?thesis using Some call list_drive [OF 1(1)] by (simp add: list_pages.simps)
    next
      case (2 resp')
      then show ?thesis using list_page [OF 2(1)] Nil Some by simp
    qed
  qed (simp add: list_pages.simps)
next
  case (Cons p ps)
  then obtain t where t: "lr_next_page_token resp = Some t" "listing s (lf_q data) (Some t) = p # ps"
    by (auto split: option.splits)
  let ?d = "data\<lparr>lf_page_token := Some t\<rparr>"
  obtain r1 s1 where call: "api_call (c_list_files cl ?d) s = (r1, s1)" by force
  from call show ?case
  proof (cases rule: api_call_cases)
    case (1 e)
    then show ?thesis using t call list_drive [OF 1(1)] by (simp add: list_pages.simps)
  next
    case (2 resp')
    from list_page [OF 2(1)] t(2) have page: "lr_files resp' = p"
      "case lr_next_page_token resp' of None \<Rightarrow> ps = [] | Some t \<Rightarrow> listing s1 (lf_q ?d) (Some t) = ps"
      by (auto split: option.splits)
    from Cons.IH [OF page(2), of "acc @ p"] obtain r s' where
        "list_pages cl ?d resp' (acc @ p) s1 = Some (r, s')" "drv s' = drv s1"
        "\<forall>fs. r = Inr fs \<longrightarrow> fs = (acc @ p) @ concat ps" "\<forall>e. r = Inl e \<longrightarrow> (\<exists>e'. e = GApi e')" by blast
    then show ?thesis
      using t(1) call 2 page(1) list_drive [OF 2(1)] by (subst list_pages.simps) simp
  qed
qed

lemma list_children_returns:
  "\<exists>r s'. list_direct_children cl p s = Some (r, s') \<and> drv s' = drv s \<and>
    (\<forall>fs. r = Inr fs \<longrightarrow> gid_ok p \<longrightarrow> p \<noteq> my_drive \<longrightarrow> set fs = children (drv s) p) \<and> (\<forall>e. r = Inl e \<longrightarrow> (\<exists>e'. e = GApi e'))"
proof -
  let ?d = "\<lparr>lf_q = children_query p, lf_order_by = Some ''name'', lf_page_token = None\<rparr>"
  obtain r1 s1 where call: "api_call (c_list_files cl ?d) s = (r1, s1)" by force
  from call show ?thesis
  proof (cases rule: api_call_cases)
    case (1 e)
    then show ?thesis
      using call list_drive [OF 1(1)] by (simp add: list_direct_children_def run_then_def run_call_def Let_def)
  next
    case (2 resp)
    obtain ps where ps: "listing s (lf_q ?d) (lf_page_token ?d) = lr_files resp # ps"
      "case lr_next_page_token resp of None \<Rightarrow> ps = [] | Some t \<Rightarrow> listing s1 (lf_q ?d) (Some t) = ps"
      using list_page [OF 2(1)] by blast
    from list_pages_returns [OF ps(2), of "lr_files resp"] obtain r s' where
        "list_pages cl ?d resp (lr_files resp) s1 = Some (r, s')" "drv s' = drv s1"
        "\<forall>fs. r = Inr fs \<longrightarrow> fs = lr_files resp @ concat ps" "\<forall>e. r = Inl e \<longrightarrow> (\<exists>e'. e = GApi e')" by auto
    then show ?thesis
      using call 2(2) list_drive [OF 2(1)] list_children [of p s] ps(1)
      by (auto simp: list_direct_children_def run_then_def run_call_def Let_def)
  qed
qed

end

end
