(* ===== verification/Gvfs_Init.thy ===== *)
theory Gvfs_Init
  imports Gvfs_Proofs
begin

text \<open>
  Opening the Google file system: finding or creating its directories, listing the root and building the
  cache.  Opening always returns, and the cache it builds is complete.
\<close>

section \<open>Finding the directories\<close>

lemma children_create:
  assumes "d gid = None"
  shows "children (d(gid \<mapsto> f)) p = (if p \<in> set (df_parents f) then insert (gfile_of gid f) (children d p) else children d p)"
proof -
  have "gid' \<noteq> gid" if "d gid' = Some f'" for gid' f' using that assms by auto
  then show ?thesis unfolding children_def by (auto split: if_splits)
qed

context drive_client
begin

lemma find_lexe_loop_ok:
  assumes "find_lexe_loop cl data n resp mf s = (r, s')" and "\<forall>gf. mf = Some gf \<longrightarrow> drv s (gf_id gf) \<noteq> None"
  shows "drv s' = drv s \<and> (\<forall>gf. r = Inr (Some gf) \<longrightarrow> drv s (gf_id gf) \<noteq> None)"
  using assms
proof (induction n arbitrary: data resp mf s)
  case (Suc n)
  show ?case
  proof (cases "mf = None \<and> lr_next_page_token resp \<noteq> None")
    case True
    let ?d = "data\<lparr>lf_page_token := lr_next_page_token resp\<rparr>"
    obtain r1 s1 where call: "api_call (c_list_files cl ?d) s = (r1, s1)" by force
    from call show ?thesis
    proof (cases rule: api_call_cases)
      case (1 e)
      then show ?thesis using Suc.prems(1) True call list_drive [OF 1(1)] by (auto simp: call_then_def)
    next
      case (2 resp')
      have same: "drv s1 = drv s" by (rule list_drive [OF 2(1)])
      have "find_lexe_loop cl ?d n resp' (find_exact resp') s1 = (r, s')"
        using Suc.prems(1) True call 2(2) by (auto simp: call_then_def)
      moreover have "\<forall>gf. find_exact resp' = Some gf \<longrightarrow> drv s1 (gf_id gf) \<noteq> None"
        using list_exists [OF 2(1)] same by (auto simp: find_exact_def find_Some_iff)
      ultimately have "drv s' = drv s1 \<and> (\<forall>gf. r = Inr (Some gf) \<longrightarrow> drv s1 (gf_id gf) \<noteq> None)" by (rule Suc.IH)
      with same show ?thesis by simp
    qed
  qed (use Suc.prems in auto)
qed auto

lemma find_lexe_dir_ok:
  assumes "find_lexe_dir cl s = (r, s')"
  shows "drv s' = drv s \<and> (\<forall>gf. r = Inr (Some gf) \<longrightarrow> drv s (gf_id gf) \<noteq> None)"
proof -
  let ?d = "\<lparr>lf_q = lexe_dir_query, lf_order_by = Some ''createdTime'', lf_page_token = None\<rparr>"
  obtain r1 s1 where call: "api_call (c_list_files cl ?d) s = (r1, s1)" by force
  from call show ?thesis
  proof (cases rule: api_call_cases)
    case (1 e)
    then show ?thesis using assms call list_drive [OF 1(1)] by (auto simp: find_lexe_dir_def call_then_def Let_def)
  next
    case (2 resp)
    have same: "drv s1 = drv s" by (rule list_drive [OF 2(1)])
    have loop: "find_lexe_loop cl ?d 10 resp (find_exact resp) s1 = (r, s')"
      using assms call 2(2) by (simp add: find_lexe_dir_def call_then_def Let_def)
    have "\<forall>gf. find_exact resp = Some gf \<longrightarrow> drv s1 (gf_id gf) \<noteq> None"
      using list_exists [OF 2(1)] same by (auto simp: find_exact_def find_Some_iff)
    from find_lexe_loop_ok [OF loop this] same show ?thesis by simp
  qed
qed

lemma lexe_dir_ok:
  assumes "get_or_create_lexe_dir cl s = (Inr dir, s')"
  shows "drv s' (gf_id dir) \<noteq> None \<and> (\<forall>p. p \<noteq> my_drive \<longrightarrow> children (drv s') p = children (drv s) p)"
proof -
  obtain r1 s1 where find: "find_lexe_dir cl s = (r1, s1)" by force
  note found = find_lexe_dir_ok [OF find]
  show ?thesis
  proof (cases r1)
    case (Inr mf)
    show ?thesis
    proof (cases mf)
      case None
      let ?c = "\<lparr>gc_id = None, gc_name = Some LEXE_DIR_NAME, gc_parents = None, gc_mime_type = Some FOLDER_MIME_TYPE,
            gc_folder_color_rgb = Some ''#FF5733''\<rparr>"
      have "api_call (c_create_empty_file cl ?c) s1 = (Inr dir, s')"
        using assms find Inr None by (simp add: get_or_create_lexe_dir_def call_then_def create_lexe_dir_def Let_def)
      then have "c_create_empty_file cl ?c s1 = (Inr dir, s')" by (cases rule: api_call_cases) auto
      from create_empty_ok [OF this] found show ?thesis by (simp add: children_create)
    next
      case (Some gf)
      then show ?thesis
        using assms find Inr found by (auto simp: get_or_create_lexe_dir_def call_then_def call_pure_def)
    qed
  qed (use assms find in \<open>simp add: get_or_create_lexe_dir_def call_then_def\<close>)
qed

lemma search_ok:
  assumes "search_direct_children cl p n s = (r, s')"
  shows "drv s' = drv s"
proof -
  let ?d = "\<lparr>lf_q = search_query p n, lf_order_by = None, lf_page_token = None\<rparr>"
  obtain r1 s1 where call: "api_call (c_list_files cl ?d) s = (r1, s1)" by force
  then have "drv s1 = drv s" by (cases rule: api_call_cases) (auto dest: list_drive)
  then show ?thesis
    using assms call by (auto simp: search_direct_children_def call_then_def call_pure_def Let_def split: sum.splits)
qed

lemma gvfs_root_ok:
  assumes "get_or_create_gvfs_root cl lexe n s = (Inr rt, s')" and "drv s lexe \<noteq> None"
  shows "root_network rt = n \<and> (root_gid rt \<noteq> my_drive \<longrightarrow> children (drv s') (root_gid rt) = children (drv s) (root_gid rt))"
proof -
  obtain r1 s1 where search: "search_direct_children cl lexe (network_to_str n) s = (r1, s1)" by force
  note same = search_ok [OF search]
  show ?thesis
  proof (cases r1)
    case (Inr mf)
    show ?thesis
    proof (cases mf)
      case (Some gf)
      then show ?thesis
        using assms(1) search Inr same
        by (auto simp: get_or_create_gvfs_root_def get_gvfs_root_gid_def call_then_def call_pure_def)
    next
      case None
      let ?c = "gfile_cow_default\<lparr>gc_id := None, gc_name := Some (network_to_str n), gc_parents := Some [lexe],
            gc_mime_type := Some FOLDER_MIME_TYPE\<rparr>"
      obtain r2 s2 where create: "api_call (c_create_empty_file cl ?c) s1 = (r2, s2)" by force
      from create show ?thesis
      proof (cases rule: api_call_cases)
        case (1 e)
        then show ?thesis
          using assms(1) search Inr None create
          by (simp add: get_or_create_gvfs_root_def get_gvfs_root_gid_def create_child_dir_def call_then_def call_pure_def Let_def)
      next
        case (2 gf)
        have root: "rt = \<lparr>root_network = n, root_gid = gf_id gf\<rparr>" "s' = s2"
          using assms(1) search Inr None create 2(2)
          by (simp_all add: get_or_create_gvfs_root_def get_gvfs_root_gid_def create_child_dir_def call_then_def call_pure_def Let_def)
        note new = create_empty_ok [OF 2(1)]
        have "lexe \<noteq> gf_id gf" using new assms(2) same by auto
        then show ?thesis using new same by (simp add: root children_create gfile_cow_default_def)
      qed
    qed
  qed (use assms search in \<open>simp add: get_or_create_gvfs_root_def get_gvfs_root_gid_def call_then_def\<close>)
qed

lemma find_or_create_root_ok:
  assumes "find_or_create_root cl n s = (Inr rt, s')"
  shows "root_network rt = n \<and> (root_gid rt \<noteq> my_drive \<longrightarrow> children (drv s') (root_gid rt) = children (drv s) (root_gid rt))"
proof -
  obtain dir s1 where dir: "get_or_create_lexe_dir cl s = (Inr dir, s1)"
    and root: "get_or_create_gvfs_root cl (gf_id dir) n s1 = (Inr rt, s')"
    using assms unfolding find_or_create_root_def by (cases rule: call_then_cases) auto
  from lexe_dir_ok [OF dir] gvfs_root_ok [OF root] show ?thesis by simp
qed

end

text \<open>Names in the root are unique: what no other writer guarantees.\<close>

definition unique_names :: "drive \<Rightarrow> GFileId \<Rightarrow> bool" where
  "unique_names d p \<longleftrightarrow> (\<forall>a \<in> children d p. \<forall>b \<in> children d p. gf_name a = gf_name b \<longrightarrow> gf_id a = gf_id b)"

lemma fold_insert_functional:
  assumes "\<forall>i a b. (i, a) \<in> set es \<longrightarrow> (i, b) \<in> set es \<longrightarrow> a = b" and "bt_sorted file_id_cmp acc"
  defines "out \<equiv> fold (\<lambda>(i, gid). bt_insert file_id_cmp i gid) es acc"
  shows "bt_sorted file_id_cmp out \<and>
    (\<forall>i gid. map_of out i = Some gid \<longleftrightarrow> (i, gid) \<in> set es \<or> (i \<notin> fst ` set es \<and> map_of acc i = Some gid))"
  using assms(1,2) unfolding out_def
proof (induction es arbitrary: acc)
  case (Cons e es)
  obtain j a where e: "e = (j, a)" by force
  let ?acc = "bt_insert file_id_cmp j a acc"
  have fn: "\<forall>i a b. (i, a) \<in> set es \<longrightarrow> (i, b) \<in> set es \<longrightarrow> a = b" using Cons.prems(1) by (meson list.set_intros(2))
  have "bt_sorted file_id_cmp ?acc" by (rule file_ids.bt_insert_sorted [OF Cons.prems(2)])
  note IH = Cons.IH [OF fn this]
  have head: "b = a" if "(j, b) \<in> set es" for b using that Cons.prems(1) e by (meson list.set_intros)
  show ?case
  proof (intro conjI allI)
    show "bt_sorted file_id_cmp (fold (\<lambda>(i, gid). bt_insert file_id_cmp i gid) (e # es) acc)" using IH by (simp add: e)
    fix i gid
    have "map_of (fold (\<lambda>(i, gid). bt_insert file_id_cmp i gid) (e # es) acc) i = Some gid \<longleftrightarrow>
        (i, gid) \<in> set es \<or> (i \<notin> fst ` set es \<and> map_of ?acc i = Some gid)"
      using IH by (simp add: e)
    also have "\<dots> \<longleftrightarrow> (i, gid) \<in> set (e # es) \<or> (i \<notin> fst ` set (e # es) \<and> map_of acc i = Some gid)"
      using head by (cases "i = j") (auto simp: e file_ids.bt_insert_map_of [OF Cons.prems(2)])
    finally show "map_of (fold (\<lambda>(i, gid). bt_insert file_id_cmp i gid) (e # es) acc) i = Some gid \<longleftrightarrow>
        (i, gid) \<in> set (e # es) \<or> (i \<notin> fst ` set (e # es) \<and> map_of acc i = Some gid)" .
  qed
qed auto

lemma build_cache_ok:
  assumes all: "set fs = children d (root_gid rt)" and "\<forall>gf \<in> set fs. gf_mime_type gf = BINARY_MIME_TYPE"
    and build: "build_cache fs = Inr cache" and uniq: "unique_names d (root_gid rt)"
  shows "cache_ok d \<lparr>gvfs_root = rt, gid_cache = cache\<rparr>"
proof -
  obtain es where "collect_results (map cache_entry fs) = Inr es"
    and cache: "cache = fold (\<lambda>(i, gid). bt_insert file_id_cmp i gid) es []"
    using build by (auto simp: build_cache_def result_simps)
  from collect_results_ok [OF this(1)] have entries: "map cache_entry fs = map Inr es" .
  have es: "(i, gid) \<in> set es \<longleftrightarrow> (\<exists>gf \<in> set fs. id_ok i \<and> gf_name gf = file_id_display i \<and> gid = gf_id gf)" for i gid
  proof -
    have "(i, gid) \<in> set es \<longleftrightarrow> Inr (i, gid) \<in> set (map cache_entry fs)" unfolding entries by auto
    then show ?thesis using cache_entry_ok_iff by (auto simp: image_iff) (metis cache_entry_ok_iff)+
  qed
  have "\<forall>i a b. (i, a) \<in> set es \<longrightarrow> (i, b) \<in> set es \<longrightarrow> a = b"
    using uniq unfolding es unique_names_def all [symmetric] by metis
  from fold_insert_functional [OF this, of "[]"] have sorted: "bt_sorted file_id_cmp cache"
    and map: "map_of cache i = Some gid \<longleftrightarrow> (i, gid) \<in> set es" for i gid
    by (auto simp: cache bt_sorted_def)
  have named: "\<exists>i. id_ok i \<and> gf_name gf = file_id_display i" if "gf \<in> set fs" for gf
  proof -
    have "cache_entry gf \<in> set (map Inr es)" unfolding entries [symmetric] using that by simp
    then obtain i gid where "cache_entry gf = Inr (i, gid)" by auto
    then show ?thesis using cache_entry_ok_iff by blast
  qed
  show ?thesis
    unfolding cache_ok_def
  proof (intro conjI allI impI)
    fix i gid
    assume "map_of (gid_cache \<lparr>gvfs_root = rt, gid_cache = cache\<rparr>) i = Some gid"
    then obtain gf where gf: "gf \<in> set fs" "id_ok i" "gf_name gf = file_id_display i" "gid = gf_id gf"
      using map es by auto
    then show "id_ok i" by simp
    from gf(1) obtain f where f: "gf = gfile_of gid f" "d gid = Some f" "root_gid rt \<in> set (df_parents f)"
      using gf(4) unfolding all by (auto simp: children_def gfile_of_def)
    moreover have "df_name f = file_id_display i" using gf(3) f(1) by (simp add: gfile_of_def)
    moreover have "df_mime f = BINARY_MIME_TYPE" using bspec [OF assms(2) gf(1)] f(1) by (simp add: gfile_of_def)
    ultimately show "\<exists>f. d gid = Some f \<and>
        root_gid (gvfs_root \<lparr>gvfs_root = rt, gid_cache = cache\<rparr>) \<in> set (df_parents f) \<and>
        df_name f = file_id_display i \<and> df_mime f = BINARY_MIME_TYPE"
      by simp
  next
    fix gid f
    assume "d gid = Some f" "root_gid (gvfs_root \<lparr>gvfs_root = rt, gid_cache = cache\<rparr>) \<in> set (df_parents f)"
    then have gf: "gfile_of gid f \<in> set fs" unfolding all by (auto simp: children_def)
    from named [OF this] obtain i where "id_ok i" "df_name f = file_id_display i" by (auto simp: gfile_of_def)
    then have "(i, gid) \<in> set es" unfolding es by (intro bexI [OF _ gf]) (simp add: gfile_of_def)
    with \<open>id_ok i\<close> \<open>df_name f = file_id_display i\<close>
    show "\<exists>i. id_ok i \<and> df_name f = file_id_display i \<and> map_of (gid_cache \<lparr>gvfs_root = rt, gid_cache = cache\<rparr>) i = Some gid"
      using map by auto
  qed (simp add: sorted)
qed

section \<open>Opening\<close>

text \<open>A root that can be listed and in which no two files have the same name.\<close>

definition usable :: "GFileId \<Rightarrow> drive \<Rightarrow> GvfsRoot \<Rightarrow> bool" where
  "usable md d rt \<longleftrightarrow> gid_ok (root_gid rt) \<and> root_gid rt \<noteq> md \<and> unique_names d (root_gid rt)"

lemma finish_ok:
  assumes "\<forall>fs. listed = Inr fs \<longrightarrow> gid_ok (root_gid rt) \<longrightarrow> root_gid rt \<noteq> md \<longrightarrow> set fs = children d (root_gid rt)"
    and "and_then listed (\<lambda>fs.
        ensure (list_all (\<lambda>gf. gf_mime_type gf = BINARY_MIME_TYPE) fs) WrongMimeType
          (and_then (build_cache fs) (\<lambda>cache. Inr (\<lparr>gvfs_root = rt, gid_cache = cache\<rparr>, p)))) = Inr (g, p')"
  shows "gvfs_root g = rt \<and> p' = p \<and> (usable md d rt \<longrightarrow> cache_ok d g)"
proof -
  obtain fs cache where fs: "listed = Inr fs" "list_all (\<lambda>gf. gf_mime_type gf = BINARY_MIME_TYPE) fs"
      "build_cache fs = Inr cache" and g: "g = \<lparr>gvfs_root = rt, gid_cache = cache\<rparr>" "p' = p"
    using assms(2) by (auto simp: result_simps)
  have "cache_ok d g" if "usable md d rt"
    using that assms(1) fs unfolding g by (intro build_cache_ok [of fs]) (simp_all add: usable_def list_all_iff)
  with g show ?thesis by simp
qed

text \<open>The result of opening, by what it opened.\<close>

definition opened :: "GFileId \<Rightarrow> drive \<Rightarrow> Network \<Rightarrow> GvfsRoot option \<Rightarrow> GvfsError + GoogleVfs \<times> GvfsRoot option \<Rightarrow> bool" where
  "opened md d network given r \<longleftrightarrow>
     (case r of
        Inl _ \<Rightarrow> True
      | Inr (g, persist) \<Rightarrow>
          root_network (gvfs_root g) = network \<and>
          (usable md d (gvfs_root g) \<longrightarrow> cache_ok d g) \<and>
          (case persist of None \<Rightarrow> given = Some (gvfs_root g) | Some rt \<Rightarrow> rt = gvfs_root g))"

context drive_client
begin

lemma init_found_ok:
  "\<exists>r s'. init_from_client cl network None s = Some (r, s') \<and> opened my_drive (drv s') network None r"
proof -
  obtain r1 s1 where find: "find_or_create_root cl network s = (r1, s1)" by force
  show ?thesis
  proof (cases r1)
    case (Inr rt)
    from list_children_returns [of "root_gid rt" s1] obtain listed s2 where list:
        "list_direct_children cl (root_gid rt) s1 = Some (listed, s2)" "drv s2 = drv s1"
        "\<forall>fs. listed = Inr fs \<longrightarrow> gid_ok (root_gid rt) \<longrightarrow> root_gid rt \<noteq> my_drive \<longrightarrow> set fs = children (drv s2) (root_gid rt)"
      by auto
    note found = find_or_create_root_ok [OF find [unfolded Inr]]
    show ?thesis
      using find Inr list(1) found finish_ok [OF list(3)]
      by (fastforce simp: init_from_client_def run_then_def run_call_def call_pure_def opened_def Let_def split: sum.splits)
  qed (use find in \<open>simp add: init_from_client_def run_then_def run_call_def opened_def\<close>)
qed

lemma init_given_ok:
  "\<exists>r s'. init_from_client cl network (Some given) s = Some (r, s') \<and> opened my_drive (drv s') network (Some given) r"
proof (cases "root_network given = network")
  case True
  from list_children_returns [of "root_gid given" s] obtain listed s1 where list:
      "list_direct_children cl (root_gid given) s = Some (listed, s1)" "drv s1 = drv s"
      "\<forall>fs. listed = Inr fs \<longrightarrow> gid_ok (root_gid given) \<longrightarrow> root_gid given \<noteq> my_drive \<longrightarrow> set fs = children (drv s1) (root_gid given)"
    by auto
  note run = init_from_client_def run_then_def run_call_def call_pure_def opened_def Let_def
  show ?thesis
  proof (cases "\<exists>f fs. listed = Inr (f # fs)")
    case files: True
    then show ?thesis
      using True list(1) finish_ok [OF list(3)] by (fastforce simp: run split: sum.splits)
  next
    case False
    then have search: "(case listed of Inr fs \<Rightarrow> fs = [] | Inl _ \<Rightarrow> True)"
      by (auto split: sum.splits) (metis list.exhaust)
    obtain r2 s2 where find: "find_or_create_root cl network s1 = (r2, s2)" by force
    show ?thesis
    proof (cases r2)
      case (Inl e)
      then show ?thesis using True list(1) find search by (simp add: run)
    next
      case (Inr found)
      note ok = find_or_create_root_ok [OF find [unfolded Inr]]
      show ?thesis
      proof (cases "found = given")
        case same: True
        with list(3) ok have "\<forall>fs. listed = Inr fs \<longrightarrow> gid_ok (root_gid given) \<longrightarrow> root_gid given \<noteq> my_drive \<longrightarrow> set fs = children (drv s2) (root_gid given)"
          by simp
        from finish_ok [OF this] show ?thesis
          using True list(1) find Inr search same by (fastforce simp: run split: sum.splits)
      next
        case other: False
        from list_children_returns [of "root_gid found" s2] obtain listed' s3 where list':
            "list_direct_children cl (root_gid found) s2 = Some (listed', s3)"
            "\<forall>fs. listed' = Inr fs \<longrightarrow> gid_ok (root_gid found) \<longrightarrow> root_gid found \<noteq> my_drive \<longrightarrow> set fs = children (drv s3) (root_gid found)"
          by auto
        show ?thesis
          using True list(1) find Inr search other list'(1) ok finish_ok [OF list'(2)]
          by (fastforce simp: run split: sum.splits)
      qed
    qed
  qed
qed (simp add: init_from_client_def run_then_def run_call_def call_pure_def opened_def)

lemma init_ok: "\<exists>r s'. init_from_client cl network given s = Some (r, s') \<and> opened my_drive (drv s') network given r"
  using init_found_ok init_given_ok by (cases given) auto

end

end
