(* ===== verification/Gdrive_Service.thy ===== *)
theory Gdrive_Service
  imports Gvfs_Init
begin

text \<open>
  The API bindings keep the contract of the file system's client.  What is relied on of the Drive service is
  the locale \<open>drive_service\<close>, over the HTTP requests the bindings send; the token requests they send before
  those have no effect on the drive.
\<close>

section \<open>The service\<close>

text \<open>\<open>answers net rq w x w'\<close>: the request is answered with success, and the body parses as \<open>x\<close>.\<close>

definition answers ::
    "'w gnet \<Rightarrow> (bytes \<Rightarrow> 'a option) \<Rightarrow> HttpRequest \<Rightarrow> 'w \<Rightarrow> 'a \<Rightarrow> 'w \<Rightarrow> bool" where
  "answers net parse rq w x w' \<longleftrightarrow>
     (\<exists>resp. http net rq w = (Inr resp, w') \<and> is_success (rs_status resp) \<and> Option.bind (rs_body resp) parse = Some x)"

definition refuses :: "'w gnet \<Rightarrow> HttpRequest \<Rightarrow> 'w \<Rightarrow> 'w \<Rightarrow> bool" where
  "refuses net rq w w' \<longleftrightarrow>
     (\<exists>r. http net rq w = (r, w') \<and> (\<forall>resp. r = Inr resp \<longrightarrow> \<not> is_success (rs_status resp)))"

definition unreadable :: "'w gnet \<Rightarrow> (bytes \<Rightarrow> 'a option) \<Rightarrow> HttpRequest \<Rightarrow> 'w \<Rightarrow> 'w \<Rightarrow> bool" where
  "unreadable net parse rq w w' \<longleftrightarrow>
     (\<exists>resp. http net rq w = (Inr resp, w') \<and> is_success (rs_status resp) \<and> Option.bind (rs_body resp) parse = None)"

definition bearing :: "string \<Rightarrow> HttpRequest \<Rightarrow> HttpRequest" where
  "bearing token rq = rq\<lparr>rq_bearer := Some token\<rparr>"

locale drive_service =
  fixes net :: "'w gnet" and wd :: "'w \<Rightarrow> drive" and pages :: "'w \<Rightarrow> string \<Rightarrow> string option \<Rightarrow> GFile list list"
    and my_drive :: GFileId
  assumes token_same: "http net (post_json TOKEN_URL body) w = (r, w') \<Longrightarrow> wd w' = wd w \<and> pages w' = pages w"
    and refused_same: "refuses net rq w w' \<Longrightarrow> wd w' = wd w"
    and list_same: "http net (bearing tok (list_files_request d)) w = (r, w') \<Longrightarrow> wd w' = wd w"
    and list_answers: "answers net (parse_list net) (bearing tok (list_files_request d)) w resp w' \<Longrightarrow>
      \<exists>ps. pages w (lf_q d) (lf_page_token d) = lr_files resp # ps \<and>
        (case lr_next_page_token resp of None \<Rightarrow> ps = [] | Some t \<Rightarrow> pages w' (lf_q d) (Some t) = ps)"
    and list_known: "answers net (parse_list net) (bearing tok (list_files_request d)) w resp w' \<Longrightarrow>
      gf \<in> set (lr_files resp) \<Longrightarrow> wd w (gf_id gf) \<noteq> None"
    and pages_children: "gid_ok p \<Longrightarrow> p \<noteq> my_drive \<Longrightarrow> set (concat (pages w (children_query p) None)) = children (wd w) p"
    and create_answers: "answers net (parse_gfile net) (bearing tok (post_json files_url (GFileBody c))) w gf w' \<Longrightarrow>
      wd w (gf_id gf) = None \<and> gid_ok (gf_id gf) \<and>
      wd w' = (wd w)(gf_id gf \<mapsto> \<lparr>df_name = the (gc_name c), df_mime = the (gc_mime_type c),
        df_parents = (case gc_parents c of None \<Rightarrow> [my_drive] | Some ps \<Rightarrow> ps), df_data = []\<rparr>)"
    and create_readable: "\<not> unreadable net (parse_gfile net) (bearing tok (post_json files_url (GFileBody c))) w w'"
    and upload_answers: "answers net (parse_gfile net) (bearing tok (create_blob_request p n b)) w gf w' \<Longrightarrow>
      wd w (gf_id gf) = None \<and>
      wd w' = (wd w)(gf_id gf \<mapsto> \<lparr>df_name = n, df_mime = BINARY_MIME_TYPE, df_parents = [p], df_data = b\<rparr>)"
    and upload_readable: "\<not> unreadable net (parse_gfile net) (bearing tok (create_blob_request p n b)) w w'"
    and update_answers: "answers net (parse_gfile net) (bearing tok (update_blob_request gid b)) w gf w' \<Longrightarrow>
      \<exists>f. wd w gid = Some f \<and> wd w' = (wd w)(gid \<mapsto> f\<lparr>df_data := b\<rparr>)"
    and update_readable: "\<not> unreadable net (parse_gfile net) (bearing tok (update_blob_request gid b)) w w'"
    and download_same: "http net (bearing tok (download_request gid)) w = (r, w') \<Longrightarrow> wd w' = wd w"
    and download_answers: "answers net Some (bearing tok (download_request gid)) w b w' \<Longrightarrow>
      \<exists>f. wd w gid = Some f \<and> df_data f = b"
    and delete_answers: "http net (bearing tok (delete_request gid)) w = (Inr a, w') \<Longrightarrow> is_success (rs_status a) \<Longrightarrow>
      wd w gid = Some f \<Longrightarrow> df_mime f = BINARY_MIME_TYPE \<Longrightarrow> wd w' = (wd w)(gid := None)"
begin

section \<open>The bindings\<close>

lemma refresh_same:
  assumes "refresh_if_necessary net creds w = (r, w')"
  shows "wd w' = wd w \<and> pages w' = pages w"
proof -
  have "wd w' = wd w \<and> pages w' = pages w" if "refresh net creds now w = (r', w')" for now r' w'
  proof -
    let ?body = "RefreshBody \<lparr>rr_grant_type = ''refresh_token'', rr_client_id = client_id creds,
        rr_client_secret = client_secret creds, rr_refresh_token = refresh_token creds\<rparr>"
    obtain a w1 where call: "http net (post_json TOKEN_URL ?body) w = (a, w1)" by force
    with that have "w' = w1"
      by (cases a) (auto simp: refresh_def http_call_def call_then_def call_err_def call_pure_def Let_def split: sum.splits if_splits)
    with token_same [OF call] show ?thesis by simp
  qed
  with assms show ?thesis
    by (auto simp: refresh_if_necessary_def call_then_def call_pure_def Let_def split: if_splits prod.splits sum.splits)
qed

text \<open>A request reaches the service after the tokens have been seen to, or is not sent.\<close>

lemma send_cases:
  assumes "send_no_deserialize net rq g = (r, g')"
  obtains e where "r = Inl e" "wd (gw_net g') = wd (gw_net g)"
  | tok w resp where "wd w = wd (gw_net g)" "pages w = pages (gw_net g)" "r = Inr resp"
      "http net (bearing tok rq) w = (Inr resp, gw_net g')" "is_success (rs_status resp)"
proof -
  obtain a w where refresh: "refresh_if_necessary net (gw_credentials g) (gw_net g) = (a, w)" by force
  note same = refresh_same [OF refresh]
  show ?thesis
  proof (cases a)
    case (Inl e)
    then show ?thesis using assms refresh same that(1) by (auto simp: send_no_deserialize_def)
  next
    case (Inr x)
    obtain updated creds where x: "x = (updated, creds)" by force
    obtain b w' where call: "http net (bearing (access_token creds) rq) w = (b, w')" by force
    have net: "gw_net g' = w'"
      using assms refresh Inr x call
      by (cases b) (auto simp: send_no_deserialize_def bearing_def Let_def)
    show ?thesis
    proof (cases "\<exists>resp. b = Inr resp \<and> is_success (rs_status resp)")
      case True
      then obtain resp where resp: "b = Inr resp" "is_success (rs_status resp)" by blast
      then have "r = Inr resp"
        using assms refresh Inr x call by (auto simp: send_no_deserialize_def bearing_def Let_def)
      then show ?thesis using that(2) same call resp net by blast
    next
      case False
      then have "refuses net (bearing (access_token creds) rq) w w'" using call by (auto simp: refuses_def)
      moreover have "\<exists>e. r = Inl e"
        using assms refresh Inr x call False by (cases b) (auto simp: send_no_deserialize_def bearing_def Let_def)
      ultimately show ?thesis using refused_same same net that(1) by metis
    qed
  qed
qed

text \<open>A request with an answer to read: the answer, or an error with either no effect or an unreadable answer.\<close>

lemma send_json_cases:
  assumes "send_and_deserialize net parse rq g = (r, g')"
  obtains e where "r = Inl e" "wd (gw_net g') = wd (gw_net g)"
  | e tok w where "r = Inl e" "wd w = wd (gw_net g)" "unreadable net parse (bearing tok rq) w (gw_net g')"
  | x tok w where "r = Inr x" "wd w = wd (gw_net g)" "pages w = pages (gw_net g)"
      "answers net parse (bearing tok rq) w x (gw_net g')"
proof -
  obtain r1 g1 where send: "send_no_deserialize net rq g = (r1, g1)" by force
  from send show ?thesis
  proof (cases rule: send_cases)
    case (1 e)
    then show ?thesis using assms send that(1) by (auto simp: send_and_deserialize_def call_then_def)
  next
    case (2 tok w resp)
    then have out: "r = json_of parse resp" "g' = g1"
      using assms send by (simp_all add: send_and_deserialize_def call_then_def call_pure_def)
    show ?thesis
    proof (cases "Option.bind (rs_body resp) parse")
      case None
      then show ?thesis using 2 out that(2) by (auto simp: json_of_def unreadable_def ok_or_def)
    next
      case (Some x)
      then show ?thesis using 2 out that(3) by (auto simp: json_of_def answers_def ok_or_def)
    qed
  qed
qed

end

sublocale drive_service \<subseteq> bindings: drive_client
    "gdrive_client net" "\<lambda>g. wd (gw_net g)" "\<lambda>g. pages (gw_net g)" my_drive
proof (rule drive_client.intro)
  fix d and g g' :: "'w gworld" and r :: "GError + ListFilesResponse"
  assume "c_list_files (gdrive_client net) d g = (r, g')"
  then have "send_and_deserialize net (parse_list net) (list_files_request d) g = (r, g')"
    by (simp add: gdrive_client_def list_files_def)
  then show "wd (gw_net g') = wd (gw_net g)"
    by (cases rule: send_json_cases) (auto simp: answers_def unreadable_def dest: list_same)
next
  fix d resp and g g' :: "'w gworld"
  assume "c_list_files (gdrive_client net) d g = (Inr resp, g')"
  then have "send_and_deserialize net (parse_list net) (list_files_request d) g = (Inr resp, g')"
    by (simp add: gdrive_client_def list_files_def)
  then obtain tok w where w: "wd w = wd (gw_net g)" "pages w = pages (gw_net g)"
      and a: "answers net (parse_list net) (bearing tok (list_files_request d)) w resp (gw_net g')"
    by (cases rule: send_json_cases) auto
  from list_answers [OF a] w(2)
  show "\<exists>ps. pages (gw_net g) (lf_q d) (lf_page_token d) = lr_files resp # ps \<and>
      (case lr_next_page_token resp of None \<Rightarrow> ps = [] | Some t \<Rightarrow> pages (gw_net g') (lf_q d) (Some t) = ps)" by simp
  show "wd (gw_net g) (gf_id gf) \<noteq> None" if "gf \<in> set (lr_files resp)" for gf
    using list_known [OF a that] w(1) by simp
next
  fix p and g :: "'w gworld"
  assume "gid_ok p" "p \<noteq> my_drive"
  then show "set (concat (pages (gw_net g) (children_query p) None)) = children (wd (gw_net g)) p"
    by (rule pages_children)
next
  fix c and g g' :: "'w gworld"
  have send: "c_create_empty_file (gdrive_client net) c g = send_and_deserialize net (parse_gfile net) (post_json files_url (GFileBody c)) g"
    by (simp add: gdrive_client_def create_empty_file_def)
  show "wd (gw_net g) (gf_id gf) = None \<and> gid_ok (gf_id gf) \<and>
      wd (gw_net g') = (wd (gw_net g))(gf_id gf \<mapsto> \<lparr>df_name = the (gc_name c), df_mime = the (gc_mime_type c),
        df_parents = (case gc_parents c of None \<Rightarrow> [my_drive] | Some ps \<Rightarrow> ps), df_data = []\<rparr>)"
    if "c_create_empty_file (gdrive_client net) c g = (Inr gf, g')" for gf
    using that [unfolded send] by (cases rule: send_json_cases) (auto dest: create_answers)
  show "wd (gw_net g') = wd (gw_net g)" if "c_create_empty_file (gdrive_client net) c g = (Inl e, g')" for e
    using that [unfolded send] by (cases rule: send_json_cases) (auto simp: create_readable)
next
  fix p n b and g g' :: "'w gworld"
  have send: "c_create_blob_file (gdrive_client net) p n b g = send_and_deserialize net (parse_gfile net) (create_blob_request p n b) g"
    by (simp add: gdrive_client_def create_blob_file_def)
  show "wd (gw_net g) (gf_id gf) = None \<and>
      wd (gw_net g') = (wd (gw_net g))(gf_id gf \<mapsto> \<lparr>df_name = n, df_mime = BINARY_MIME_TYPE, df_parents = [p], df_data = b\<rparr>)"
    if "c_create_blob_file (gdrive_client net) p n b g = (Inr gf, g')" for gf
    using that [unfolded send] by (cases rule: send_json_cases) (auto dest: upload_answers)
  show "wd (gw_net g') = wd (gw_net g)" if "c_create_blob_file (gdrive_client net) p n b g = (Inl e, g')" for e
    using that [unfolded send] by (cases rule: send_json_cases) (auto simp: upload_readable)
next
  fix gid b and g g' :: "'w gworld"
  have send: "c_update_blob_file (gdrive_client net) gid b g = send_and_deserialize net (parse_gfile net) (update_blob_request gid b) g"
    by (simp add: gdrive_client_def update_blob_file_def)
  show "\<exists>f. wd (gw_net g) gid = Some f \<and> wd (gw_net g') = (wd (gw_net g))(gid \<mapsto> f\<lparr>df_data := b\<rparr>)"
    if "c_update_blob_file (gdrive_client net) gid b g = (Inr gf, g')" for gf
    using that [unfolded send] by (cases rule: send_json_cases) (auto dest: update_answers)
  show "wd (gw_net g') = wd (gw_net g)" if "c_update_blob_file (gdrive_client net) gid b g = (Inl e, g')" for e
    using that [unfolded send] by (cases rule: send_json_cases) (auto simp: update_readable)
next
  fix gid and g g' :: "'w gworld" and r :: "GError + bytes"
  assume dl: "c_download_blob_file (gdrive_client net) gid g = (r, g')"
  obtain r1 g1 where send: "send_no_deserialize net (download_request gid) g = (r1, g1)" by force
  have g': "g' = g1" using dl send
    by (cases r1) (auto simp: gdrive_client_def download_blob_file_def call_then_def call_pure_def)
  from send show "wd (gw_net g') = wd (gw_net g)"
    unfolding g' by (cases rule: send_cases) (auto dest: download_same)
next
  fix gid b and g g' :: "'w gworld"
  assume dl: "c_download_blob_file (gdrive_client net) gid g = (Inr b, g')"
  obtain r1 g1 where send: "send_no_deserialize net (download_request gid) g = (r1, g1)" by force
  then obtain resp where resp: "r1 = Inr resp" "rs_body resp = Some b" "g' = g1"
    using dl by (cases r1) (auto simp: gdrive_client_def download_blob_file_def call_then_def call_pure_def result_simps)
  from send show "\<exists>f. wd (gw_net g) gid = Some f \<and> df_data f = b"
  proof (cases rule: send_cases)
    case (2 tok w resp')
    then have "answers net Some (bearing tok (download_request gid)) w b (gw_net g1)" using resp by (auto simp: answers_def)
    from download_answers [OF this] 2(1) show ?thesis by simp
  qed (use resp in simp)
next
  fix gid u f and g g' :: "'w gworld"
  assume del: "c_delete_file (gdrive_client net) gid g = (Inr u, g')" and f: "wd (gw_net g) gid = Some f" "df_mime f = BINARY_MIME_TYPE"
  obtain r1 g1 where send: "send_no_deserialize net (delete_request gid) g = (r1, g1)" by force
  then obtain resp where resp: "r1 = Inr resp" "g' = g1"
    using del by (cases r1) (auto simp: gdrive_client_def gdrive_delete_file_def call_then_def call_pure_def)
  from send show "wd (gw_net g') = (wd (gw_net g))(gid := None)"
  proof (cases rule: send_cases)
    case (2 tok w resp')
    from delete_answers [OF 2(4,5), of f] 2(1) f resp show ?thesis by simp
  qed (use resp in simp)
next
  fix gid e and g g' :: "'w gworld"
  assume del: "c_delete_file (gdrive_client net) gid g = (Inl e, g')"
  obtain r1 g1 where send: "send_no_deserialize net (delete_request gid) g = (r1, g1)" by force
  then have err: "r1 = Inl e" "g' = g1"
    using del by (cases r1; simp add: gdrive_client_def gdrive_delete_file_def call_then_def call_pure_def)+
  from send show "wd (gw_net g') = wd (gw_net g)" by (cases rule: send_cases) (simp_all add: err)
qed

context drive_service
begin

lemmas drive_client_bindings = bindings.drive_client_axioms

end

end
