(* ===== verification/Gdrive_Sim.thy ===== *)
theory Gdrive_Sim
  imports Gdrive_Service Payment_Codec
begin

text \<open>
  A small Drive service that answers the client's requests, on which the hypotheses of \<open>drive_service\<close> hold:
  its state is the list of files, a listing comes one file to a page, a page token is an offset in unary,
  and the answers are encoded with the combinators of the payment encoding.
\<close>

section \<open>Answers\<close>

text \<open>A character is written as its bits.\<close>

definition bit_byte :: "bool \<Rightarrow> u8" where
  "bit_byte b = (if b then 1 else 0)"

definition dec_char :: "bytes \<Rightarrow> (char \<times> bytes) option" where
  "dec_char b =
     (case b of
        b0 # b1 # b2 # b3 # b4 # b5 # b6 # b7 # r \<Rightarrow>
          Some (Char (b0 = 1) (b1 = 1) (b2 = 1) (b3 = 1) (b4 = 1) (b5 = 1) (b6 = 1) (b7 = 1), r)
      | _ \<Rightarrow> None)"

definition c_char :: "char codec" where
  "c_char = ((\<lambda>c. map bit_byte [digit0 c, digit1 c, digit2 c, digit3 c, digit4 c, digit5 c, digit6 c, digit7 c]), dec_char)"

definition c_gfile :: "GFile codec" where
  "c_gfile = c_map (\<lambda>f. (gid_str (gf_id f), gf_name f, gf_mime_type f))
     (\<lambda>(i, n, m). \<lparr>gf_id = GFileId i, gf_name = n, gf_mime_type = m\<rparr>)
     (c_pair (c_list c_char) (c_pair (c_list c_char) (c_list c_char)))"

definition c_listing :: "ListFilesResponse codec" where
  "c_listing = c_map (\<lambda>r. (lr_files r, lr_next_page_token r)) (\<lambda>(f, t). \<lparr>lr_files = f, lr_next_page_token = t\<rparr>)
     (c_pair (c_list c_gfile) (c_option (c_list c_char)))"

lemma bit_byte_one [simp]: "bit_byte b = 1 \<longleftrightarrow> b"
  by (simp add: bit_byte_def)

lemma lossless_char [codec_intros]: "lossless c_char"
  by (simp add: lossless_def c_char_def dec_char_def)

lemma lossless_gfile [codec_intros]: "lossless c_gfile"
  unfolding c_gfile_def by (intro lossless_map codec_intros) simp

lemma lossless_listing [codec_intros]: "lossless c_listing"
  unfolding c_listing_def by (intro lossless_map codec_intros) simp

definition parse_with :: "'a codec \<Rightarrow> bytes \<Rightarrow> 'a option" where
  "parse_with c b = map_option fst (snd c b)"

lemma parse_with_encoded [simp]: "lossless c \<Longrightarrow> parse_with c (fst c x) = Some x"
  unfolding parse_with_def lossless_def by (metis append_Nil2 fst_conv option.simps(9))

definition ok_response :: "bytes \<Rightarrow> HttpResponse" where
  "ok_response b = \<lparr>rs_status = 200, rs_body = Some b\<rparr>"

definition no_response :: HttpResponse where
  "no_response = \<lparr>rs_status = 404, rs_body = Some []\<rparr>"

section \<open>The service\<close>

type_synonym sim = "(GFileId \<times> drive_file) list"

definition SIM_DRIVE :: GFileId where "SIM_DRIVE = GFileId ''my-drive''"

definition matches :: "string \<Rightarrow> drive_file \<Rightarrow> bool" where
  "matches q f \<longleftrightarrow>
     list_ex (\<lambda>p. q = children_query p \<or> q = search_query p (df_name f)) (df_parents f) \<or>
     q = lexe_dir_query \<and> df_mime f = FOLDER_MIME_TYPE \<and> contains_str ''LexeData'' (df_name f)"

definition sim_found :: "sim \<Rightarrow> string \<Rightarrow> GFile list" where
  "sim_found w q = map (\<lambda>(gid, f). gfile_of gid f) (filter (\<lambda>(gid, f). map_of w gid = Some f \<and> matches q f) w)"

fun one_per_page :: "'a list \<Rightarrow> 'a list list" where
  "one_per_page [] = [[]]"
| "one_per_page [x] = [[x]]"
| "one_per_page (x # y # xs) = [x] # one_per_page (y # xs)"

definition page_offset :: "string option \<Rightarrow> nat" where
  "page_offset t = (case t of None \<Rightarrow> 0 | Some s \<Rightarrow> length s)"

definition sim_pages :: "sim \<Rightarrow> string \<Rightarrow> string option \<Rightarrow> GFile list list" where
  "sim_pages w q t = one_per_page (drop (page_offset t) (sim_found w q))"

definition sim_list :: "sim \<Rightarrow> ListFiles \<Rightarrow> ListFilesResponse" where
  "sim_list w d =
     (let k = page_offset (lf_page_token d); fs = drop k (sim_found w (lf_q d))
      in \<lparr>lr_files = take 1 fs,
          lr_next_page_token = (if length fs \<le> 1 then None else Some (replicate (Suc k) (CHR ''p'')))\<rparr>)"

definition sim_fresh :: "sim \<Rightarrow> GFileId" where
  "sim_fresh w = GFileId (replicate (Suc (fold max (map (\<lambda>(gid, _). length (gid_str gid)) w) 0)) (CHR ''f''))"

definition sim_create :: "drive_file \<Rightarrow> sim \<Rightarrow> (unit + HttpResponse) \<times> sim" where
  "sim_create f w = (let gid = sim_fresh w in (Inr (ok_response (fst c_gfile (gfile_of gid f))), (gid, f) # w))"

definition sim_file_of :: "GFileCow \<Rightarrow> bytes \<Rightarrow> drive_file" where
  "sim_file_of c b = \<lparr>df_name = the (gc_name c), df_mime = the (gc_mime_type c),
     df_parents = (case gc_parents c of None \<Rightarrow> [SIM_DRIVE] | Some ps \<Rightarrow> ps), df_data = b\<rparr>"

definition sim_on :: "(GFileId \<Rightarrow> string) \<Rightarrow> string \<Rightarrow> sim \<Rightarrow> (GFileId \<Rightarrow> drive_file \<Rightarrow> (unit + HttpResponse) \<times> sim) \<Rightarrow>
    (unit + HttpResponse) \<times> sim" where
  "sim_on url_of url w k =
     (case find (\<lambda>(gid, f). url_of gid = url \<and> map_of w gid = Some f) w of
        None \<Rightarrow> (Inr no_response, w)
      | Some (gid, f) \<Rightarrow> k gid f)"

definition sim_http :: "HttpRequest \<Rightarrow> sim \<Rightarrow> (unit + HttpResponse) \<times> sim" where
  "sim_http rq w =
     (case (rq_method rq, rq_query rq, rq_body rq) of
        (GET, ListQuery d, NoBody) \<Rightarrow> (Inr (ok_response (fst c_listing (sim_list w d))), w)
      | (POST, NoQuery, GFileBody c) \<Rightarrow>
          if rq_url rq = files_url then sim_create (sim_file_of c []) w else (Inr no_response, w)
      | (POST, Pairs _, Multipart c b _) \<Rightarrow> sim_create (sim_file_of c b) w
      | (PATCH, Pairs _, RawBody b) \<Rightarrow>
          sim_on (\<lambda>gid. BASE_UPLOAD_URL @ ''/files/'' @ gid_str gid) (rq_url rq) w (\<lambda>gid f.
            (Inr (ok_response (fst c_gfile (gfile_of gid f))), (gid, f\<lparr>df_data := b\<rparr>) # w))
      | (GET, Pairs _, NoBody) \<Rightarrow> sim_on file_url (rq_url rq) w (\<lambda>gid f. (Inr (ok_response (df_data f)), w))
      | (DELETE, NoQuery, NoBody) \<Rightarrow>
          sim_on file_url (rq_url rq) w (\<lambda>gid f. (Inr (ok_response []), filter (\<lambda>(gid', _). gid' \<noteq> gid) w))
      | _ \<Rightarrow> (Inr no_response, w))"

definition sim_net :: "sim gnet" where
  "sim_net = \<lparr>http = sim_http, unix_now = (\<lambda>_. 0), parse_gfile = parse_with c_gfile, parse_list = parse_with c_listing,
     parse_refresh = (\<lambda>_. None), parse_auth_code = (\<lambda>_. None), parse_token_info = (\<lambda>_. None)\<rparr>"

section \<open>Its laws\<close>

lemma one_per_page_drop:
  "one_per_page (drop k xs) = take 1 (drop k xs) #
     (if length (drop k xs) \<le> 1 then [] else one_per_page (drop (Suc k) xs))"
proof (cases "drop k xs" rule: one_per_page.cases)
  case (3 x y ys)
  then have "drop (Suc k) xs = y # ys" by (metis drop_Suc list.sel(3) tl_drop)
  with 3 show ?thesis by simp
qed simp_all

lemma concat_one_per_page: "concat (one_per_page xs) = xs"
  by (induction xs rule: one_per_page.induct) simp_all

lemma children_query_inj: "children_query p = children_query p' \<longleftrightarrow> p = p'"
  by (auto simp: children_query_def intro: GFileId.expand)

lemma children_query_search: "children_query p \<noteq> search_query p' n"
  by (simp add: children_query_def search_query_def)

lemma children_query_lexe: "children_query p \<noteq> lexe_dir_query"
  by (simp add: children_query_def lexe_dir_query_def)

lemma matches_children: "matches (children_query p) f \<longleftrightarrow> p \<in> set (df_parents f)"
  by (auto simp: matches_def list_ex_iff children_query_inj children_query_search children_query_lexe)

lemma sim_fresh_new: "map_of w (sim_fresh w) = None"
proof -
  have mono: "n \<le> fold max xs n" for xs and n :: nat by (induction xs arbitrary: n) (simp_all, meson max.bounded_iff)
  have le: "x \<in> set xs \<Longrightarrow> x \<le> fold max xs n" for x xs and n :: nat
    by (induction xs arbitrary: n) (auto intro: order_trans [OF _ mono])
  have "gid \<noteq> sim_fresh w" if "(gid, f) \<in> set w" for gid f
  proof
    assume eq: "gid = sim_fresh w"
    have "length (gid_str gid) \<le> fold max (map (\<lambda>(gid, _). length (gid_str gid)) w) 0"
      using that by (intro le) force
    then show False unfolding eq by (simp add: sim_fresh_def)
  qed
  then show ?thesis by (force simp: map_of_eq_None_iff)
qed

lemma sim_on_cases:
  assumes "sim_on url_of (url_of gid) w k = (r, w')" and inj: "\<And>a b. url_of a = url_of b \<longleftrightarrow> a = b"
  shows "case map_of w gid of None \<Rightarrow> r = Inr no_response \<and> w' = w | Some f \<Rightarrow> k gid f = (r, w')"
proof (cases "map_of w gid")
  case None
  then have "find (\<lambda>(i, f). url_of i = url_of gid \<and> map_of w i = Some f) w = None"
    by (auto simp: find_None_iff inj)
  with None assms(1) show ?thesis by (simp add: sim_on_def)
next
  case (Some f)
  let ?P = "\<lambda>(i, f). url_of i = url_of gid \<and> map_of w i = Some f"
  have "find ?P w \<noteq> None" unfolding find_None_iff using map_of_SomeD [OF Some] Some by fastforce
  then obtain i f' where x: "find ?P w = Some (i, f')" by force
  then have "?P (i, f')" by (auto simp: find_Some_iff)
  then have "i = gid" "f' = f" using Some by (auto simp: inj)
  with x Some assms(1) show ?thesis by (simp add: sim_on_def)
qed

lemma url_inj:
  "file_url a = file_url b \<longleftrightarrow> a = b"
  "BASE_UPLOAD_URL @ ''/files/'' @ gid_str a = BASE_UPLOAD_URL @ ''/files/'' @ gid_str b \<longleftrightarrow> a = b"
  by (auto simp: file_url_def intro: GFileId.expand)

lemma files_url_token: "TOKEN_URL \<noteq> files_url"
  by (simp add: TOKEN_URL_def files_url_def BASE_URL_def)

text \<open>What the service answers to each request.\<close>

lemma sim_http_list:
  "sim_http (bearing tok (list_files_request d)) w = (Inr (ok_response (fst c_listing (sim_list w d))), w)"
  by (simp add: sim_http_def bearing_def list_files_request_def)

lemma sim_http_create:
  "sim_http (bearing tok (post_json files_url (GFileBody c))) w = sim_create (sim_file_of c []) w"
  by (simp add: sim_http_def bearing_def post_json_def)

lemma sim_http_upload:
  "sim_http (bearing tok (create_blob_request p n b)) w =
     sim_create \<lparr>df_name = n, df_mime = BINARY_MIME_TYPE, df_parents = [p], df_data = b\<rparr> w"
  by (simp add: sim_http_def bearing_def create_blob_request_def sim_file_of_def gfile_cow_default_def Let_def)

lemma sim_http_update:
  assumes "sim_http (bearing tok (update_blob_request gid b)) w = (r, w')"
  shows "case map_of w gid of None \<Rightarrow> r = Inr no_response \<and> w' = w
    | Some f \<Rightarrow> r = Inr (ok_response (fst c_gfile (gfile_of gid f))) \<and> w' = (gid, f\<lparr>df_data := b\<rparr>) # w"
proof -
  have "sim_on (\<lambda>gid. BASE_UPLOAD_URL @ ''/files/'' @ gid_str gid) (BASE_UPLOAD_URL @ ''/files/'' @ gid_str gid) w
      (\<lambda>gid f. (Inr (ok_response (fst c_gfile (gfile_of gid f))), (gid, f\<lparr>df_data := b\<rparr>) # w)) = (r, w')"
    using assms by (simp add: sim_http_def bearing_def update_blob_request_def)
  from sim_on_cases [OF this url_inj(2)] show ?thesis by (auto split: option.splits)
qed

lemma sim_http_download:
  assumes "sim_http (bearing tok (download_request gid)) w = (r, w')"
  shows "w' = w \<and> r = Inr (case map_of w gid of None \<Rightarrow> no_response | Some f \<Rightarrow> ok_response (df_data f))"
proof -
  have "sim_on file_url (file_url gid) w (\<lambda>gid f. (Inr (ok_response (df_data f)), w)) = (r, w')"
    using assms by (simp add: sim_http_def bearing_def download_request_def)
  from sim_on_cases [OF this url_inj(1)] show ?thesis by (auto split: option.splits)
qed

lemma sim_http_delete:
  assumes "sim_http (bearing tok (delete_request gid)) w = (r, w')"
  shows "case map_of w gid of None \<Rightarrow> r = Inr no_response \<and> w' = w
    | Some f \<Rightarrow> r = Inr (ok_response []) \<and> w' = filter (\<lambda>(gid', _). gid' \<noteq> gid) w"
proof -
  have "sim_on file_url (file_url gid) w
      (\<lambda>gid f. (Inr (ok_response []), filter (\<lambda>(gid', _). gid' \<noteq> gid) w)) = (r, w')"
    using assms by (simp add: sim_http_def bearing_def delete_request_def)
  from sim_on_cases [OF this url_inj(1)] show ?thesis by (auto split: option.splits)
qed

lemma map_of_filter_key: "map_of (filter (\<lambda>(k', _). k' \<noteq> k) xs) = (map_of xs)(k := None)"
  by (induction xs) (auto simp: fun_eq_iff)

lemma is_success_simps [simp]: "is_success (rs_status (ok_response b))" "\<not> is_success (rs_status no_response)"
  by (simp_all add: is_success_def ok_response_def no_response_def)

lemma sim_on_refused:
  assumes "sim_on url_of url w k = (r, w')" and "\<forall>resp. r = Inr resp \<longrightarrow> \<not> is_success (rs_status resp)"
    and "\<And>gid f. \<exists>b. fst (k gid f) = Inr (ok_response b)"
  shows "w' = w"
  using assms
  by (auto simp: sim_on_def split: option.splits prod.splits) (metis fst_conv is_success_simps(1))

lemma sim_refused:
  assumes "refuses sim_net rq w w'"
  shows "w' = w"
proof -
  obtain r where r: "sim_http rq w = (r, w')" "\<forall>resp. r = Inr resp \<longrightarrow> \<not> is_success (rs_status resp)"
    using assms by (auto simp: refuses_def sim_net_def)
  then show ?thesis
    by (auto simp: sim_http_def sim_create_def Let_def
        split: HttpMethod.splits HttpQuery.splits HttpBody.splits if_splits
        dest!: sim_on_refused)
qed

interpretation sim: drive_service sim_net map_of sim_pages SIM_DRIVE
proof (rule drive_service.intro)
  fix body w r w'
  assume "http sim_net (post_json TOKEN_URL body) w = (r, w')"
  then have "w' = w"
    by (auto simp: sim_net_def sim_http_def post_json_def files_url_token split: HttpBody.splits)
  then show "map_of w' = map_of w \<and> sim_pages w' = sim_pages w" by simp
next
  fix rq w w'
  assume "refuses sim_net rq w w'"
  then show "map_of w' = map_of w" by (auto dest: sim_refused)
next
  fix tok d w r w'
  assume "http sim_net (bearing tok (list_files_request d)) w = (r, w')"
  then show "map_of w' = map_of w" by (simp add: sim_net_def sim_http_list)
next
  fix tok d w resp w'
  assume "answers sim_net (parse_list sim_net) (bearing tok (list_files_request d)) w resp w'"
  then have resp: "resp = sim_list w d" "w' = w"
    by (auto simp: answers_def sim_net_def sim_http_list ok_response_def lossless_listing)
  show "\<exists>ps. sim_pages w (lf_q d) (lf_page_token d) = lr_files resp # ps \<and>
      (case lr_next_page_token resp of None \<Rightarrow> ps = [] | Some t \<Rightarrow> sim_pages w' (lf_q d) (Some t) = ps)"
    unfolding resp sim_pages_def by (subst one_per_page_drop) (simp add: sim_list_def Let_def page_offset_def)
  fix gf
  assume "gf \<in> set (lr_files resp)"
  then have "gf \<in> set (sim_found w (lf_q d))" by (auto simp: resp sim_list_def Let_def dest: in_set_takeD in_set_dropD)
  then show "map_of w (gf_id gf) \<noteq> None" by (auto simp: sim_found_def gfile_of_def)
next
  fix p w
  show "set (concat (sim_pages w (children_query p) None)) = children (map_of w) p"
    by (auto simp: sim_pages_def concat_one_per_page page_offset_def sim_found_def matches_children children_def
        dest: map_of_SomeD)
next
  fix tok c w gf w'
  assume "answers sim_net (parse_gfile sim_net) (bearing tok (post_json files_url (GFileBody c))) w gf w'"
  then show "map_of w (gf_id gf) = None \<and> gid_ok (gf_id gf) \<and>
      map_of w' = (map_of w)(gf_id gf \<mapsto> \<lparr>df_name = the (gc_name c), df_mime = the (gc_mime_type c),
        df_parents = (case gc_parents c of None \<Rightarrow> [SIM_DRIVE] | Some ps \<Rightarrow> ps), df_data = []\<rparr>)"
    by (auto simp: answers_def sim_net_def sim_http_create sim_create_def sim_file_of_def ok_response_def lossless_gfile
        gfile_of_def sim_fresh_new gid_ok_def Let_def) (simp add: sim_fresh_def)
next
  fix tok c w w'
  show "\<not> unreadable sim_net (parse_gfile sim_net) (bearing tok (post_json files_url (GFileBody c))) w w'"
    by (auto simp: unreadable_def sim_net_def sim_http_create sim_create_def ok_response_def lossless_gfile Let_def)
next
  fix tok p n b w gf w'
  assume "answers sim_net (parse_gfile sim_net) (bearing tok (create_blob_request p n b)) w gf w'"
  then show "map_of w (gf_id gf) = None \<and>
      map_of w' = (map_of w)(gf_id gf \<mapsto> \<lparr>df_name = n, df_mime = BINARY_MIME_TYPE, df_parents = [p], df_data = b\<rparr>)"
    by (auto simp: answers_def sim_net_def sim_http_upload sim_create_def ok_response_def lossless_gfile
        gfile_of_def sim_fresh_new Let_def)
next
  fix tok p n b w w'
  show "\<not> unreadable sim_net (parse_gfile sim_net) (bearing tok (create_blob_request p n b)) w w'"
    by (auto simp: unreadable_def sim_net_def sim_http_upload sim_create_def ok_response_def lossless_gfile Let_def)
next
  fix tok gid b w gf w'
  assume "answers sim_net (parse_gfile sim_net) (bearing tok (update_blob_request gid b)) w gf w'"
  then show "\<exists>f. map_of w gid = Some f \<and> map_of w' = (map_of w)(gid \<mapsto> f\<lparr>df_data := b\<rparr>)"
    by (auto simp: answers_def sim_net_def dest!: sim_http_update split: option.splits)
next
  fix tok gid b w w'
  show "\<not> unreadable sim_net (parse_gfile sim_net) (bearing tok (update_blob_request gid b)) w w'"
    by (auto simp: unreadable_def sim_net_def lossless_gfile dest!: sim_http_update split: option.splits)
      (simp add: ok_response_def lossless_gfile)
next
  fix tok gid w r w'
  assume "http sim_net (bearing tok (download_request gid)) w = (r, w')"
  then show "map_of w' = map_of w" by (auto simp: sim_net_def dest: sim_http_download)
next
  fix tok gid w b w'
  assume "answers sim_net Some (bearing tok (download_request gid)) w b w'"
  then show "\<exists>f. map_of w gid = Some f \<and> df_data f = b"
    by (auto simp: answers_def sim_net_def dest!: sim_http_download split: option.splits) (simp add: ok_response_def)
next
  fix tok gid w a w' f
  assume "http sim_net (bearing tok (delete_request gid)) w = (Inr a, w')" "is_success (rs_status a)"
  then show "map_of w' = (map_of w)(gid := None)"
    by (auto simp: sim_net_def map_of_filter_key dest!: sim_http_delete split: option.splits)
qed

end
