(* ===== verification/Gvfs_Properties.thy ===== *)
theory Gvfs_Properties
  imports Gdrive_Sim
begin

text \<open>
  The properties of the Google file system over its API bindings, for every Drive service that keeps the
  contract \<open>drive_service\<close>.
\<close>

section \<open>A drive with two files\<close>

definition demo_creds :: GDriveCredentials where
  "demo_creds = \<lparr>client_id = ''c'', client_secret = ''s'', refresh_token = ''r'', access_token = ''a'', expires_at = 1000\<rparr>"

definition demo_root :: GvfsRoot where
  "demo_root = \<lparr>root_network = REGTEST, root_gid = GFileId ''ff''\<rparr>"

definition demo_drive :: sim where
  "demo_drive =
     [(GFileId ''x'', \<lparr>df_name = ''monitors/one'', df_mime = BINARY_MIME_TYPE, df_parents = [GFileId ''ff''], df_data = [1]\<rparr>),
      (GFileId ''y'', \<lparr>df_name = ''monitors/two'', df_mime = BINARY_MIME_TYPE, df_parents = [GFileId ''ff''], df_data = [2]\<rparr>),
      (GFileId ''ff'', \<lparr>df_name = ''regtest'', df_mime = FOLDER_MIME_TYPE, df_parents = [GFileId ''f''], df_data = []\<rparr>),
      (GFileId ''f'', \<lparr>df_name = LEXE_DIR_NAME, df_mime = FOLDER_MIME_TYPE, df_parents = [SIM_DRIVE], df_data = []\<rparr>)]"

abbreviation demo_id :: "string \<Rightarrow> VfsFileId" where
  "demo_id \<equiv> file_id_new ''monitors''"

definition demo_vfs :: GoogleVfs where
  "demo_vfs = \<lparr>gvfs_root = demo_root, gid_cache = [(demo_id ''one'', GFileId ''x''), (demo_id ''two'', GFileId ''y'')]\<rparr>"

definition demo_ops :: "vfs_op list" where
  "demo_ops =
     [OpDelete (demo_id ''one''), OpUpsert (file_new ''monitors'' ''two'' [9]), OpCreate (file_new ''monitors'' ''two'' [7]),
      OpDir (VfsDirectory ''monitors'')]"

lemma demo_open:
  "init_from_client (gdrive_client sim_net) REGTEST None (client_new demo_creds demo_drive) =
     Some (Inr (demo_vfs, Some demo_root), client_new demo_creds demo_drive)"
  by code_simp

lemma demo_results:
  "fst (gvfs_run (gdrive_client sim_net) demo_ops (demo_vfs, client_new demo_creds demo_drive)) =
     [Inr OutUnit, Inr OutUnit, Inl CreateDupe, Inr (OutFiles [file_new ''monitors'' ''two'' [9]])]"
  by code_simp

lemma demo_usable: "usable SIM_DRIVE (map_of demo_drive) demo_root"
proof -
  have "gid_ok (root_gid demo_root)" "root_gid demo_root \<noteq> SIM_DRIVE" by code_simp+
  moreover have "children (map_of demo_drive) (root_gid demo_root) =
      set (concat (sim_pages demo_drive (children_query (root_gid demo_root)) None))"
    using sim.pages_children [OF calculation] by simp
  moreover have "concat (sim_pages demo_drive (children_query (root_gid demo_root)) None) =
      [\<lparr>gf_id = GFileId ''x'', gf_name = ''monitors/one'', gf_mime_type = BINARY_MIME_TYPE\<rparr>,
       \<lparr>gf_id = GFileId ''y'', gf_name = ''monitors/two'', gf_mime_type = BINARY_MIME_TYPE\<rparr>]" by code_simp
  ultimately show ?thesis by (simp add: usable_def unique_names_def)
qed

section \<open>Properties\<close>





end
