(* ===== verification/Spec2Isabelle.thy ===== *)
theory Spec2Isabelle
  imports Manager_Handlers App_Properties Payment_Uri_Properties Wallet_Db_Properties
    Keys_Properties Approved_Versions Gvfs_Properties
begin

text \<open>
  A verification library for the payments of a Lexe Lightning node: how payments are identified,
  encrypted, stored, advanced and shown, from the user node to the app on the phone.

  \<^bold>\<open>The program.\<close>  A user's node (\<^verbatim>\<open>node/\<close>, on the logic of \<^verbatim>\<open>lexe-ln/\<close>) receives events from LDK and from the
  block chain.  Its \<^verbatim>\<open>PaymentsManager\<close> keeps the pending payments and the ids of the finalized ones in
  memory, and writes every change to Lexe's backend through its persister, encrypted, before it
  commits it.  On start the node reads its payments back.  The app (\<^verbatim>\<open>app-rs/\<close>) keeps a copy of all
  payments in a flat file system with in-memory indexes and synchronises it over the node's API.
  \<^verbatim>\<open>common/\<close> holds the data types that all of them share, \<^verbatim>\<open>payment-uri/\<close> the codes a user scans to pay.

  \<^bold>\<open>Theories and code.\<close>  Types keep their Rust names; a method \<^verbatim>\<open>f\<close> of a type is \<open>f\<close>, with a prefix for the type
  where two would clash (\<open>oip_check_payment_sent\<close>, \<open>bip21_parse\<close>).

  \<^item> \<open>Lexe_Prelude\<close>: machine integers, errors as sums, comparison, splitting of text, and the contracts of
    \<^verbatim>\<open>Display\<close>/\<^verbatim>\<open>FromStr\<close> (\<open>fromstr_display\<close>) and of orders that agree with the text (\<open>ordered_display\<close>).
  \<^item> \<open>Hex\<close> (\<^verbatim>\<open>common/src/hex.rs\<close>), \<open>Timestamp\<close> (\<^verbatim>\<open>common/src/time.rs\<close>), \<open>Amounts\<close> (\<^verbatim>\<open>common/src/ln/amount.rs\<close>),
    \<open>Payment_Ids\<close> (\<^verbatim>\<open>common/src/ln/payments.rs\<close>, \<^verbatim>\<open>hashes.rs\<close>), \<open>Invoice\<close> (\<^verbatim>\<open>invoice.rs\<close>), \<open>Basic_Payment\<close>
    (\<^verbatim>\<open>payments.rs\<close>): the shared data types.  Lemmas: round trips, accepted inputs, orders, bounds.
  \<^item> \<open>Aes\<close> (\<^verbatim>\<open>common/src/aes.rs\<close>): sealing of blobs; what decrypts is exactly what was encrypted.
  \<^item> \<open>Esplora\<close> (\<^verbatim>\<open>lexe-ln/src/esplora.rs\<close>): confirmation status of transactions, fee estimates, broadcast.
  \<^item> \<open>Payment_Lifecycle\<close>, \<open>Onchain\<close>, \<open>Inbound\<close>, \<open>Outbound\<close>, \<open>Payments\<close> (\<^verbatim>\<open>lexe-ln/src/payments/\<close>): the state machines
    of the five payment types against one contract (\<open>payment_lifecycle\<close>), and their sum type \<^verbatim>\<open>Payment\<close>.
  \<^item> \<open>Payment_Store\<close>, \<open>Manager\<close>, \<open>Manager_Proofs\<close>, \<open>Manager_Handlers\<close> (\<^verbatim>\<open>lexe-ln/src/payments/manager.rs\<close>,
    \<^verbatim>\<open>traits.rs\<close>): the payments manager, each handler as one function from a state to a result, the calls it
    makes and a new state; the persister it writes to is a locale.
  \<^item> \<open>BTree_Map\<close>, \<open>Node_Persister\<close>, \<open>Payment_Codec\<close>, \<open>Node_Payments\<close> (\<^verbatim>\<open>node/src/persister.rs\<close>, \<^verbatim>\<open>node/src/api/mock.rs\<close>,
    \<^verbatim>\<open>node/src/run.rs\<close>): the node's persister over the backend, shown to be such a store, and whole runs of
    handlers, failures and restarts.
  \<^item> \<open>Roaring\<close>, \<open>Ffs\<close>, \<open>App_Payments\<close>, \<open>App_Db\<close>, \<open>App_Sync\<close>, \<open>App_Sync_Proofs\<close>, \<open>App_Node\<close>, \<open>App_Properties\<close>
    (\<^verbatim>\<open>app-rs/src/payments.rs\<close>, \<^verbatim>\<open>ffs.rs\<close>, \<^verbatim>\<open>node/src/server/app.rs\<close>): the app's database, its lists, and its
    synchronisation with a node.
  \<^item> \<open>Uri\<close>, \<open>Payment_Uri\<close>, \<open>Payment_Uri_Proofs\<close>, \<open>Payment_Uri_Properties\<close> (\<^verbatim>\<open>payment-uri/src/lib.rs\<close>): payment codes.
  \<^item> \<open>Wallet_Db\<close>, \<open>Wallet_Db_Proofs\<close>, \<open>Wallet_Db_Properties\<close> (\<^verbatim>\<open>lexe-ln/src/wallet/db/mod.rs\<close>): the database of the
    on-chain wallet, shown to be a key-value store in which the last write wins (\<open>observed_store\<close>).

  \<^bold>\<open>What is shown.\<close>  The node: memory and store agree after every handler and every restart, whatever calls
  fail; payments only move along their life cycle, and finalized payments stay finalized; funds are
  claimed only after the claim is stored, and every error of a handler leaves the state as it was.  The
  app: its indexes match its list, the lists of the user interface are what they should be, a reload
  gives the same payments, and synchronisation ends with the node's payments.  Three defects are
  proved as such: an update that revives a junk payment, a failed write during an insertion, and an
  over-large amount in a scanned code.  The wallet database: batches, lookups and iterators agree.

  \<^bold>\<open>Assumptions.\<close>  Code outside the repository is a parameter with its documented behaviour as a law:
  \<^verbatim>\<open>rust_decimal\<close> (\<open>decimal_laws\<close>), \<^verbatim>\<open>ring\<close> (\<open>aead_laws\<close>), \<^verbatim>\<open>bitcoin\<close>, \<^verbatim>\<open>lightning\<close>, \<^verbatim>\<open>serde_json\<close>,
  \<^verbatim>\<open>roaring\<close>, \<^verbatim>\<open>percent_encoding\<close>, \<^verbatim>\<open>esplora_client\<close>, the production backend.  Each law is met by a concrete
  function in the development, on which the properties are instantiated.  The model is of a release
  build, where \<^verbatim>\<open>debug_assert!\<close> is off; the invariants those assertions check are proved.  A handler holds
  the lock on its data, so it is one step; the order in which a hash map is iterated, clock readings, random
  bytes and the outcome of each call to the backend are arguments or part of the environment's state.
  A failed backend call leaves the store unchanged, and no other writer interferes with a
  synchronisation.  The app's indexes are 32-bit, so its properties are for at most \<open>2 ^ 32\<close> payments;
  batches are at most \<open>MAX_PAYMENTS_BATCH_SIZE\<close>.  Loops are recursive functions with a measure; the fetching
  loop of the synchronisation, which depends on the node's answers, is a \<open>partial_function\<close> that is shown to return.

  \<^bold>\<open>Not modelled.\<close>  Transport (HTTP, TLS, SGX attestation), LDK itself and the wiring of its channel manager,
  key derivation, Google Drive storage, the command-line and FFI layers (\<^verbatim>\<open>app-rs/src/bindings*.rs\<close> is
  generated or forwards), logging, and the timer tasks that only call the modelled handlers.
\<close>

end
